(* ===== verification/Prelude.thy ===== *)
theory Prelude
  imports Main "HOL-Library.Word"
begin

text \<open>
  Shared vocabulary of the development: the part of the C language and of the C library
  that leelen2sip relies on, as executable HOL functions.

  \<^item> A C string is the list of its characters without the terminating NUL; a byte buffer
    is a list of characters, and \<open>cstr\<close> reads the string a buffer holds. Reads beyond
    the modelled memory give NUL (\<open>at\<close>), so every place where the C code reads past
    the end of an object is visible as a read beyond the list.
  \<^item> \<open>strtol\<close>, \<open>strchr\<close>, \<open>strtok\<close>, \<open>strncmp\<close> on a prefix and \<open>snprintf\<close> follow the
    C standard (base 10, saturating at the 64-bit \<open>long\<close> range).
  \<^item> \<open>showd\<close> is the \<open>%d\<close> conversion of a non-negative number.

  The named theorems \<open>cstring\<close>, \<open>bytes\<close> and \<open>decimal\<close> collect the rewrite rules of the
  three groups; the theories of the components add to them.
\<close>

named_theorems cstring \<open>rules on C strings, scanning and searching\<close>
named_theorems bytes \<open>rules on byte buffers: poke, take, drop and length\<close>
named_theorems decimal \<open>rules on decimal parsing and printing\<close>

section \<open>Results\<close>

lemma map_sum_id_Inl [simp]: "map_sum id f x = Inl e \<longleftrightarrow> x = Inl e"
  by (cases x) auto

lemma map_sum_id_Inr [simp]: "map_sum id f x = Inr y \<longleftrightarrow> (\<exists>z. x = Inr z \<and> y = f z)"
  by (cases x) auto

section \<open>Characters\<close>

abbreviation NUL :: char where
  "NUL \<equiv> CHR 0x00"

type_synonym u8 = "8 word"
type_synonym u16 = "16 word"
type_synonym u32 = "32 word"
type_synonym u64 = "64 word"

definition isdigit :: "char \<Rightarrow> bool" where
  "isdigit c \<longleftrightarrow> (48::nat) \<le> of_char c \<and> of_char c \<le> (57::nat)"

definition isspace :: "char \<Rightarrow> bool" where
  "isspace c \<longleftrightarrow> of_char c = (32::nat) \<or> ((9::nat) \<le> of_char c \<and> of_char c \<le> (13::nat))"

definition digit_val :: "char \<Rightarrow> int" where
  "digit_val c = int (of_char c) - 48"

definition digit_char :: "nat \<Rightarrow> char" where
  "digit_char d = char_of (48 + d)"

lemma isdigit_digit_char [simp]: "d < 10 \<Longrightarrow> isdigit (digit_char d)"
  by (simp add: isdigit_def digit_char_def)

lemma digit_val_digit_char [simp]: "d < 10 \<Longrightarrow> digit_val (digit_char d) = int d"
  by (simp add: digit_val_def digit_char_def)

lemma isdigit_cases:
  assumes "isdigit c"
  obtains d where "d < 10" and "c = digit_char d"
proof
  show "of_char c - 48 < (10::nat)"
    using assms unfolding isdigit_def by arith
  show "c = digit_char (of_char c - 48)"
    using assms by (simp add: isdigit_def digit_char_def)
qed

lemma digit_val_bounds: "isdigit c \<Longrightarrow> 0 \<le> digit_val c \<and> digit_val c < 10"
  by (auto elim: isdigit_cases)

lemma not_isdigit_NUL [simp]: "\<not> isdigit NUL"
  by (simp add: isdigit_def)

lemma not_isdigit_newline [simp]: "\<not> isdigit (CHR 0x0A)"
  by (simp add: isdigit_def)

lemma not_isdigit_minus [simp]: "\<not> isdigit (CHR ''-'')"
  by (simp add: isdigit_def)

lemma isdigit_not_isspace [simp]: "isdigit c \<Longrightarrow> \<not> isspace c"
  by (simp add: isdigit_def isspace_def)

lemma isdigit_neq [simp]:
  "isdigit c \<Longrightarrow> c \<noteq> NUL" "isdigit c \<Longrightarrow> c \<noteq> CHR 0x0A" "isdigit c \<Longrightarrow> c \<noteq> CHR ''-''"
  "isdigit c \<Longrightarrow> c \<noteq> CHR ''+''" "isdigit c \<Longrightarrow> c \<noteq> CHR ''?''" "isdigit c \<Longrightarrow> c \<noteq> CHR ''*''"
  by (auto simp: isdigit_def)

section \<open>Memory: reading and writing buffers\<close>

definition at :: "char list \<Rightarrow> nat \<Rightarrow> char" where
  "at mem i = (if i < length mem then mem ! i else NUL)"

definition rd :: "char list \<Rightarrow> nat \<Rightarrow> nat \<Rightarrow> char list" where
  "rd mem i n = map (at mem) [i..<i + n]"

definition poke :: "'a list \<Rightarrow> nat \<Rightarrow> 'a list \<Rightarrow> 'a list" where
  "poke buf i xs = take i buf @ take (length buf - i) xs @ drop (i + length xs) buf"

definition cstr :: "char list \<Rightarrow> char list" where
  "cstr = takeWhile (\<lambda>c. c \<noteq> NUL)"

lemma length_rd [bytes, simp]: "length (rd mem i n) = n"
  by (simp add: rd_def)

lemma nth_rd [bytes]: "k < n \<Longrightarrow> rd mem i n ! k = at mem (i + k)"
  by (simp add: rd_def)

lemma length_poke [bytes, simp]: "length (poke buf i xs) = length buf"
  by (simp add: poke_def)

lemma poke_fits: "i + length xs \<le> length buf \<Longrightarrow> poke buf i xs = take i buf @ xs @ drop (i + length xs) buf"
  by (simp add: poke_def)

lemma take_poke [bytes]: "i + length xs \<le> length buf \<Longrightarrow> take (i + length xs) (poke buf i xs) = take i buf @ xs"
  by (simp add: poke_def)

lemma take_poke_before [bytes]: "k \<le> i \<Longrightarrow> take k (poke buf i xs) = take k buf"
  by (simp add: poke_def min_def)

lemma poke_nil [bytes, simp]: "poke buf i [] = buf"
  by (simp add: poke_def)

lemma cstr_nil [cstring, simp]: "cstr [] = []"
  by (simp add: cstr_def)

lemma cstr_Cons [cstring]: "cstr (c # cs) = (if c = NUL then [] else c # cstr cs)"
  by (simp add: cstr_def)

lemma cstr_NUL [cstring, simp]: "cstr (NUL # cs) = []"
  by (simp add: cstr_def)

lemma cstr_append [cstring]: "NUL \<notin> set xs \<Longrightarrow> cstr (xs @ ys) = xs @ cstr ys"
  by (induction xs) (auto simp: cstr_def)

lemma cstr_no_NUL [cstring]: "NUL \<notin> set xs \<Longrightarrow> cstr xs = xs"
  by (induction xs) (auto simp: cstr_def)

lemma NUL_notin_cstr [cstring, simp]: "NUL \<notin> set (cstr xs)"
  by (auto simp: cstr_def dest: set_takeWhileD)

lemma cstr_idem [cstring, simp]: "cstr (cstr xs) = cstr xs"
  by (simp add: cstr_no_NUL)

lemma length_cstr_le: "length (cstr xs) \<le> length xs"
  by (simp add: cstr_def length_takeWhile_le)

lemma at_cstr: "i < length (cstr xs) \<Longrightarrow> at xs i = cstr xs ! i"
proof -
  assume "i < length (cstr xs)"
  then have "i < length xs" and "cstr xs ! i = xs ! i"
    using length_cstr_le [of xs] by (auto simp: cstr_def takeWhile_nth)
  then show ?thesis by (simp add: at_def)
qed

lemma at_cstr_end: "at xs (length (cstr xs)) = NUL"
proof (cases "length (cstr xs) < length xs")
  case True
  then have "xs ! length (cstr xs) = NUL"
    using nth_length_takeWhile [of "\<lambda>c. c \<noteq> NUL" xs] by (simp add: cstr_def)
  with True show ?thesis by (simp add: at_def)
next
  case False
  then show ?thesis by (simp add: at_def)
qed

lemma at_simps [bytes, simp]: "at [] i = NUL" "at (x # xs) 0 = x" "at (x # xs) (Suc i) = at xs i"
  by (simp_all add: at_def)

lemma at_append_left [bytes]: "i < length xs \<Longrightarrow> at (xs @ ys) i = xs ! i"
  by (simp add: at_def nth_append)

lemma rd_append [bytes]: "rd (xs @ ys) 0 (length xs) = xs"
  by (rule nth_equalityI) (auto simp: nth_rd at_def nth_append)

section \<open>Decimal numbers\<close>

definition dec :: "char list \<Rightarrow> int" where
  "dec ds = foldl (\<lambda>a c. a * 10 + digit_val c) 0 ds"

definition LONG_MAX :: int where
  "LONG_MAX = 2 ^ 63 - 1"

definition LONG_MIN :: int where
  "LONG_MIN = - (2 ^ 63)"

text \<open>
  \<open>strtol s\<close> is the value and the rest of the string that \<open>strtol(s, &end, 10)\<close> leaves
  at \<open>end\<close>; \<open>*end == '\0'\<close> is \<open>rest = []\<close>.
\<close>

definition strtol :: "char list \<Rightarrow> int \<times> char list" where
  "strtol s =
     (let t = dropWhile isspace s;
          (neg, u) = (case t of
              [] \<Rightarrow> (False, [])
            | c # cs \<Rightarrow> if c = CHR ''-'' then (True, cs)
                        else if c = CHR ''+'' then (False, cs) else (False, t));
          ds = takeWhile isdigit u
      in if ds = [] then (0, s)
         else (max LONG_MIN (min LONG_MAX (if neg then - dec ds else dec ds)),
               dropWhile isdigit u))"

definition atoi :: "char list \<Rightarrow> int" where
  "atoi s = fst (strtol s)"

fun showd :: "nat \<Rightarrow> char list" where
  "showd n = (if n < 10 then [digit_char n] else showd (n div 10) @ [digit_char (n mod 10)])"

declare showd.simps [simp del]

lemma dec_nil [decimal, simp]: "dec [] = 0"
  by (simp add: dec_def)

lemma dec_snoc [decimal]: "dec (ds @ [c]) = dec ds * 10 + digit_val c"
  by (simp add: dec_def)

lemma showd_nonempty [simp]: "showd n \<noteq> []"
  by (subst showd.simps) simp

lemma showd_digits [decimal]: "\<forall>c \<in> set (showd n). isdigit c"
proof (induction n rule: showd.induct)
  case (1 n)
  then show ?case by (subst showd.simps) auto
qed

lemma dec_showd [decimal, simp]: "dec (showd n) = int n"
proof (induction n rule: showd.induct)
  case (1 n)
  show ?case
  proof (cases "n < 10")
    case True
    then show ?thesis by (subst showd.simps) (simp add: dec_def)
  next
    case False
    have "int (n div 10) * 10 + int (n mod 10) = int n"
      by arith
    with False 1 show ?thesis by (subst showd.simps) (simp add: dec_snoc)
  qed
qed

lemma length_showd_le: "n < 10 ^ k \<Longrightarrow> 0 < k \<Longrightarrow> length (showd n) \<le> k"
proof (induction k arbitrary: n)
  case 0
  then show ?case by simp
next
  case (Suc k)
  show ?case
  proof (cases "n < 10")
    case True
    then show ?thesis by (subst showd.simps) simp
  next
    case False
    with Suc.prems have "n div 10 < 10 ^ k" and "0 < k"
      by (auto intro!: Nat.gr0I)
    with Suc.IH False show ?thesis by (subst showd.simps) simp
  qed
qed

lemma strtol_showd [decimal]:
  assumes "int n \<le> LONG_MAX" and "rest = [] \<or> \<not> isdigit (hd rest)"
  shows "strtol (showd n @ rest) = (int n, rest)"
proof -
  obtain c cs where c: "showd n = c # cs" by (cases "showd n") auto
  with showd_digits [of n] have "isdigit c" by simp
  moreover have "takeWhile isdigit (showd n @ rest) = showd n"
    using assms(2) showd_digits [of n] by (cases rest) auto
  moreover have "dropWhile isdigit (showd n @ rest) = rest"
    using assms(2) showd_digits [of n] by (cases rest) auto
  moreover have "max LONG_MIN (min LONG_MAX (int n)) = int n"
    using assms(1) by (simp add: LONG_MIN_def)
  ultimately show ?thesis
    using c dec_showd [of n] by (auto simp: strtol_def Let_def)
qed

lemma strtol_showd_end [decimal]: "int n \<le> LONG_MAX \<Longrightarrow> strtol (showd n) = (int n, [])"
  using strtol_showd [of n "[]"] by simp

section \<open>Searching and splitting\<close>

text \<open>\<open>strchr\<close>: the part of the string after the first occurrence, if there is one.\<close>

definition after_chr :: "char \<Rightarrow> char list \<Rightarrow> char list option" where
  "after_chr c s = (case dropWhile (\<lambda>x. x \<noteq> c) s of [] \<Rightarrow> None | _ # r \<Rightarrow> Some r)"

definition before_chr :: "char \<Rightarrow> char list \<Rightarrow> char list" where
  "before_chr c s = takeWhile (\<lambda>x. x \<noteq> c) s"

lemma after_chr_append [cstring]: "c \<notin> set xs \<Longrightarrow> after_chr c (xs @ c # ys) = Some ys"
  by (induction xs) (auto simp: after_chr_def)

lemma before_chr_append [cstring]: "c \<notin> set xs \<Longrightarrow> before_chr c (xs @ c # ys) = xs"
  by (induction xs) (auto simp: before_chr_def)

lemma after_chr_None [cstring]: "after_chr c s = None \<longleftrightarrow> c \<notin> set s"
  by (induction s) (auto simp: after_chr_def)

text \<open>The pieces between separators, and the non-empty ones that \<open>strtok_r\<close> returns.\<close>

fun split_on :: "char \<Rightarrow> char list \<Rightarrow> char list list" where
  "split_on c [] = [[]]"
| "split_on c (x # xs) =
     (if x = c then [] # split_on c xs
      else (case split_on c xs of [] \<Rightarrow> [[x]] | l # ls \<Rightarrow> (x # l) # ls))"

definition strtok :: "char \<Rightarrow> char list \<Rightarrow> char list list" where
  "strtok c s = filter (\<lambda>l. l \<noteq> []) (split_on c s)"

lemma split_on_nonempty [simp]: "split_on c s \<noteq> []"
  by (induction s) (auto split: list.splits)

lemma split_on_append: "c \<notin> set xs \<Longrightarrow> split_on c (xs @ c # ys) = xs # split_on c ys"
  by (induction xs) (auto split: list.splits)

lemma split_on_no_sep: "c \<notin> set xs \<Longrightarrow> split_on c xs = [xs]"
  by (induction xs) auto

lemma strtok_line [cstring]: "c \<notin> set l \<Longrightarrow> l \<noteq> [] \<Longrightarrow> strtok c (l @ c # ys) = l # strtok c ys"
  by (simp add: strtok_def split_on_append)

lemma strtok_nil [cstring, simp]: "strtok c [] = []"
  by (simp add: strtok_def)

text \<open>\<open>stricmp(line, "Key=") == 0\<close> of the source compares a prefix, case-sensitively.\<close>

definition has_prefix :: "char list \<Rightarrow> char list \<Rightarrow> bool" where
  "has_prefix s key \<longleftrightarrow> take (length key) s = key"

lemma has_prefix_append [cstring, simp]: "has_prefix (key @ s) key"
  by (simp add: has_prefix_def)

section \<open>snprintf\<close>

text \<open>
  \<open>snprintf(buf + cur, n, ...)\<close> with the formatted text \<open>s\<close>: at most \<open>n - 1\<close> characters
  and a NUL are stored, and the result is the length of \<open>s\<close>.
\<close>

definition snprintf :: "char list \<Rightarrow> nat \<Rightarrow> nat \<Rightarrow> char list \<Rightarrow> char list" where
  "snprintf buf cur n s = (if n = 0 then buf else poke buf cur (take (n - 1) s @ [NUL]))"

lemma length_snprintf [bytes, simp]: "length (snprintf buf cur n s) = length buf"
  by (simp add: snprintf_def)

lemma snprintf_fits [bytes]:
  "length s < n \<Longrightarrow> snprintf buf cur n s = poke buf cur (s @ [NUL])"
  by (simp add: snprintf_def)

lemma take_snprintf_before [bytes]: "k \<le> cur \<Longrightarrow> take k (snprintf buf cur n s) = take k buf"
  by (simp add: snprintf_def take_poke_before)

section \<open>Encodings\<close>

text \<open>The interface of a data format: a good value is written as \<open>enc\<close>, every reader of it succeeds in some way, and all of
  them agree on what can be observed of the value.\<close>

locale codec =
  fixes ok :: "'a \<Rightarrow> bool"
    and enc :: "'a \<Rightarrow> 'b"
    and decodes :: "'b \<Rightarrow> 'a \<Rightarrow> bool"
    and obs :: "'a \<Rightarrow> 'c"
  assumes enc_decodes: "ok x \<Longrightarrow> \<exists>y. decodes (enc x) y"
    and decodes_enc: "ok x \<Longrightarrow> decodes (enc x) y \<Longrightarrow> obs y = obs x"
begin

lemma enc_distinguishes: "ok x \<Longrightarrow> ok y \<Longrightarrow> enc x = enc y \<Longrightarrow> obs x = obs y"
  using enc_decodes decodes_enc by metis

lemma decodes_agree: "ok x \<Longrightarrow> decodes (enc x) y \<Longrightarrow> decodes (enc x) z \<Longrightarrow> obs y = obs z"
  using decodes_enc by metis

lemma decodes_all:
  "list_all ok xs \<Longrightarrow> list_all2 decodes (map enc xs) ys \<Longrightarrow> map obs ys = map obs xs"
  by (induction xs arbitrary: ys) (auto simp: list_all2_Cons1 decodes_enc)

end

end
