(* ===== verification/Number.thy ===== *)
theory Number
  imports Prelude
begin

text \<open>
  \<^verbatim>\<open>leelen/number.c\<close> and \<^verbatim>\<open>leelen/number.h\<close>: the LEELEN phone number, a union of
  a 12-byte string \<open>XXXX-XXXX\<close> or \<open>XXXX-XXXX-X\<close> and its parts, its packing into a 32-bit
  integer and into the 5-byte format, and the parser \<open>LeelenNumber_init\<close>.

  The parts are the record \<open>LeelenNumber\<close>; the string view of the union is \<open>number_bytes\<close>.
  A C \<open>char\<close> is a HOL \<open>char\<close>, so the bytes that an operation leaves unwritten (the extension
  of a number that has none) keep the value they had. Bit fields follow the little-endian GCC
  layout. \<open>number_spec\<close> is the abstract grammar of phone numbers that the parser implements.
\<close>

unbundle bit_operations_syntax

section \<open>The structure\<close>

definition LEELEN_NUMBER_STRLEN :: nat where
  "LEELEN_NUMBER_STRLEN = 12"

record LeelenNumber =
  n_block :: "char list"
  n_sep1 :: char
  n_room :: "char list"
  n_sep2 :: char
  n_extension :: char
  n_sep3 :: char

definition number_bytes :: "LeelenNumber \<Rightarrow> char list" where
  "number_bytes n = n_block n @ [n_sep1 n] @ n_room n @ [n_sep2 n, n_extension n, n_sep3 n]"

definition number_of_bytes :: "char list \<Rightarrow> LeelenNumber" where
  "number_of_bytes bs =
     \<lparr>n_block = rd bs 0 4, n_sep1 = at bs 4, n_room = rd bs 5 4,
      n_sep2 = at bs 9, n_extension = at bs 10, n_sep3 = at bs 11\<rparr>"

definition number_str :: "LeelenNumber \<Rightarrow> char list" where
  "number_str n = cstr (number_bytes n)"

text \<open>\<open>wf_layout\<close>: the two arrays have four bytes. Every C object satisfies it.\<close>

definition wf_layout :: "LeelenNumber \<Rightarrow> bool" where
  "wf_layout n \<longleftrightarrow> length (n_block n) = 4 \<and> length (n_room n) = 4"

definition digits4 :: "char list \<Rightarrow> bool" where
  "digits4 ds \<longleftrightarrow> length ds = 4 \<and> (\<forall>c \<in> set ds. isdigit c)"

definition valid_number :: "LeelenNumber \<Rightarrow> bool" where
  "valid_number n \<longleftrightarrow>
     digits4 (n_block n) \<and> n_sep1 n = CHR ''-'' \<and> digits4 (n_room n) \<and>
     (n_sep2 n = NUL \<or> (n_sep2 n = CHR ''-'' \<and> isdigit (n_extension n) \<and> n_sep3 n = NUL))"

section \<open>Predicates of number.h\<close>

definition LeelenNumber_equal :: "LeelenNumber \<Rightarrow> LeelenNumber \<Rightarrow> bool" where
  "LeelenNumber_equal self other \<longleftrightarrow>
     n_block self = n_block other \<and>
     n_room self = n_room other \<and>
     n_sep2 self = n_sep2 other \<and>
       (n_sep2 self \<noteq> NUL \<or> n_extension self = n_extension other)"

definition LeelenNumber_has_extension :: "LeelenNumber \<Rightarrow> bool" where
  "LeelenNumber_has_extension self \<longleftrightarrow> n_sep2 self \<noteq> NUL \<or> n_extension self \<noteq> NUL"

definition LeelenNumber_should_reply :: "LeelenNumber \<Rightarrow> char list \<Rightarrow> bool" where
  "LeelenNumber_should_reply self request \<longleftrightarrow> rd (number_bytes self) 0 9 = rd request 0 9"

section \<open>Packing into a 32-bit integer\<close>

definition LeelenNumber_toint :: "LeelenNumber \<Rightarrow> u32" where
  "LeelenNumber_toint src =
     (let block = take_bit 14 (word_of_int (atoi (cstr (number_bytes src)))) :: u32;
          room = take_bit 14 (word_of_int (atoi (cstr (drop 5 (number_bytes src))))) :: u32;
          extension = take_bit 4 (if LeelenNumber_has_extension src
                                  then word_of_int (digit_val (n_extension src)) else 0xf) :: u32
      in block OR push_bit 14 room OR push_bit 28 extension)"

definition itoa4 :: "nat \<Rightarrow> char list" where
  "itoa4 v0 =
     (let v1 = v0 div 10; v2 = v1 div 10; v3 = v2 div 10
      in [digit_char (v3 mod 10), digit_char (v2 mod 10), digit_char (v1 mod 10),
          digit_char (v0 mod 10)])"

definition LeelenNumber_fromint :: "LeelenNumber \<Rightarrow> u32 \<Rightarrow> LeelenNumber" where
  "LeelenNumber_fromint dest src =
     (let block = unat (take_bit 14 src);
          room = unat (take_bit 14 (drop_bit 14 src));
          extension = unat (drop_bit 28 src);
          d = dest\<lparr>n_block := itoa4 block, n_sep1 := CHR ''-'', n_room := itoa4 room\<rparr>
      in if 10 \<le> extension then d\<lparr>n_sep2 := NUL\<rparr>
         else d\<lparr>n_sep2 := CHR ''-'', n_extension := digit_char extension, n_sep3 := NUL\<rparr>)"

section \<open>The 5-byte format\<close>

text \<open>
  The union of the five bytes and a \<open>uint64_t\<close>: byte \<open>i\<close> of the structure is byte \<open>i\<close> of the
  little-endian integer. The three bytes beyond the structure are unspecified in C: \<open>pad\<close>.
\<close>

definition int2byte :: "char list \<Rightarrow> u8" where
  "int2byte src = word_of_int (digit_val (at src 0) * 10 + digit_val (at src 1))"

definition byte_of_u64 :: "u64 \<Rightarrow> nat \<Rightarrow> u8" where
  "byte_of_u64 w i = ucast (drop_bit (8 * i) w)"

definition LeelenNumber_tobytes :: "u64 \<Rightarrow> LeelenNumber \<Rightarrow> u64" where
  "LeelenNumber_tobytes pad phone =
     (let extension = (if LeelenNumber_has_extension phone
                       then word_of_int (digit_val (n_extension phone)) else 0xff) :: u8;
          room0 = int2byte (drop 2 (n_room phone));
          room1 = int2byte (n_room phone);
          block0 = int2byte (drop 2 (n_block phone));
          block1 = int2byte (n_block phone)
      in ucast extension OR push_bit 8 (ucast room0) OR push_bit 16 (ucast room1)
         OR push_bit 24 (ucast block0) OR push_bit 32 (ucast block1)
         OR push_bit 40 (drop_bit 40 pad))"

definition byte2int :: "u8 \<Rightarrow> char list" where
  "byte2int src = [char_of (unat src div 10 + 48), char_of (unat src mod 10 + 48 :: nat)]"

definition LeelenNumber_frombytes :: "LeelenNumber \<Rightarrow> u64 \<Rightarrow> LeelenNumber" where
  "LeelenNumber_frombytes dest src =
     (let extension = byte_of_u64 src 0;
          d = dest\<lparr>n_block := byte2int (byte_of_u64 src 3) @ byte2int (byte_of_u64 src 4),
                   n_sep1 := CHR ''-'',
                   n_room := byte2int (byte_of_u64 src 1) @ byte2int (byte_of_u64 src 2)\<rparr>
      in if extension = 0xff then d\<lparr>n_sep2 := NUL\<rparr>
         else d\<lparr>n_sep2 := CHR ''-'', n_extension := char_of (unat extension + 48),
                n_sep3 := NUL\<rparr>)"

section \<open>The parser\<close>

text \<open>
  \<open>Invalid\<close> is the return value 1, \<open>MissingBlock\<close> is 2. The scanning loop stores the position
  of a separator into \<open>i_sep[n_sep]\<close> before it checks \<open>n_sep\<close> against the size 2 of that array:
  a third separator writes outside the array, which is the branch \<open>SepOverrun\<close>.
\<close>

datatype number_error = Invalid | MissingBlock | SepOverrun

fun init_scan :: "char list \<Rightarrow> nat \<Rightarrow> nat list \<Rightarrow> number_error + nat list" where
  "init_scan [] i i_sep = Inr i_sep"
| "init_scan (c # cs) i i_sep =
     (if \<not> i < LEELEN_NUMBER_STRLEN - 1 then Inl Invalid
      else if \<not> isdigit c then
        (if \<not> length i_sep < 2 then Inl SepOverrun else init_scan cs (Suc i) (i_sep @ [i]))
      else init_scan cs (Suc i) i_sep)"

definition zeros8 :: "char list" where
  "zeros8 = replicate 4 (CHR ''0'') @ replicate 4 NUL"

definition init_store :: "LeelenNumber \<Rightarrow> char list \<Rightarrow> char list \<Rightarrow> char \<Rightarrow> LeelenNumber" where
  "init_store dest block room extension =
     (let d = dest\<lparr>n_block := take 4 block, n_sep1 := CHR ''-'', n_room := take 4 room\<rparr>
      in if extension = NUL then d\<lparr>n_sep2 := NUL\<rparr>
         else d\<lparr>n_sep2 := CHR ''-'', n_extension := extension, n_sep3 := NUL\<rparr>)"

definition init_block_room ::
  "LeelenNumber \<Rightarrow> char list \<Rightarrow> nat \<Rightarrow> nat \<Rightarrow> char \<Rightarrow> number_error + LeelenNumber" where
  "init_block_room dest src i0 i1 extension =
     (if \<not> (i0 \<le> 4 \<and> i1 - i0 - 1 \<le> 4) then Inl Invalid
      else Inr (init_store dest
             (poke zeros8 (4 - i0) (rd src 0 4))
             (poke zeros8 (4 - (i1 - i0 - 1)) (rd src (i0 + 1) 4)) extension))"

definition init_room ::
  "LeelenNumber \<Rightarrow> char list \<Rightarrow> LeelenNumber option \<Rightarrow> nat \<Rightarrow> char \<Rightarrow> number_error + LeelenNumber"
where
  "init_room dest src base src_len extension =
     (if src_len \<le> 5 then
        (case base of
           None \<Rightarrow> Inl MissingBlock
         | Some b \<Rightarrow>
             let block = poke zeros8 0 (rd (number_bytes b) 0 4)
             in if src_len \<le> 4
                then Inr (init_store dest block (poke zeros8 (4 - src_len) (rd src 0 4)) extension)
                else Inr (init_store dest block (poke zeros8 0 (rd src 0 4)) (at src 4)))
      else if src_len = 8 \<or> src_len = 9 then
        Inr (init_store dest (poke zeros8 0 (rd src 0 4)) (poke zeros8 0 (rd src 4 4))
               (if src_len = 9 then at src 8 else extension))
      else Inl Invalid)"

definition LeelenNumber_init ::
  "LeelenNumber \<Rightarrow> char list \<Rightarrow> LeelenNumber option \<Rightarrow> number_error + LeelenNumber" where
  "LeelenNumber_init dest src base =
     (if \<not> isdigit (at src 0) then Inl Invalid
      else case init_scan (cstr src) 0 [] of
        Inl e \<Rightarrow> Inl e
      | Inr i_sep \<Rightarrow>
          let src_len = length (cstr src)
          in if \<not> 0 < src_len then Inl Invalid
             else if i_sep \<noteq> [] \<and> \<not> at src (last i_sep + 1) \<noteq> NUL then Inl Invalid
             else (case i_sep of
                 [i0, i1] \<Rightarrow>
                   if \<not> i0 + 1 \<noteq> i1 then Inl Invalid
                   else if \<not> at src (i1 + 2) = NUL then Inl Invalid
                   else init_block_room dest src i0 i1 (at src (i1 + 1))
               | [i0] \<Rightarrow>
                   if at src (i0 + 2) \<noteq> NUL then init_block_room dest src i0 src_len NUL
                   else if \<not> (src_len - 2 \<le> 4 \<or> src_len - 2 = 8) then Inl Invalid
                   else init_room dest src base (src_len - 2) (at src (i0 + 1))
               | _ \<Rightarrow> init_room dest src base src_len NUL))"

section \<open>The abstract grammar\<close>

text \<open>
  A phone number is one to three groups of digits separated by single non-digit characters:
  \<open>block-room-extension\<close>, \<open>block-room\<close>, \<open>[block]room-extension\<close> or \<open>[block]room[extension]\<close>.
  \<open>pad4\<close> fills a short group with zeros on the left.
\<close>

fun digit_groups :: "char list \<Rightarrow> char list list" where
  "digit_groups [] = [[]]"
| "digit_groups (c # cs) =
     (if isdigit c then (c # hd (digit_groups cs)) # tl (digit_groups cs)
      else [] # digit_groups cs)"

definition pad4 :: "char list \<Rightarrow> char list" where
  "pad4 ds = replicate (4 - length ds) (CHR ''0'') @ ds"

fun group_spec :: "char list list \<Rightarrow> char list option \<Rightarrow>
    number_error + (char list \<times> char list \<times> char option)" where
  "group_spec [b, r, [e]] base =
     (if r \<noteq> [] \<and> length b \<le> 4 \<and> length r \<le> 4 then Inr (pad4 b, pad4 r, Some e) else Inl Invalid)"
| "group_spec [x, [e]] base =
     (if length x \<le> 4 then
        (case base of None \<Rightarrow> Inl MissingBlock | Some b \<Rightarrow> Inr (b, pad4 x, Some e))
      else if length x = 8 then Inr (take 4 x, drop 4 x, Some e)
      else Inl Invalid)"
| "group_spec [b, r] base =
     (if r \<noteq> [] \<and> length b \<le> 4 \<and> length r \<le> 4 then Inr (pad4 b, pad4 r, None) else Inl Invalid)"
| "group_spec [x] base =
     (if length x \<le> 5 then
        (case base of
           None \<Rightarrow> Inl MissingBlock
         | Some b \<Rightarrow> if length x \<le> 4 then Inr (b, pad4 x, None)
                     else Inr (b, take 4 x, Some (x ! 4)))
      else if length x = 8 then Inr (take 4 x, drop 4 x, None)
      else if length x = 9 then Inr (take 4 x, take 4 (drop 4 x), Some (x ! 8))
      else Inl Invalid)"
| "group_spec _ base = Inl Invalid"

definition number_spec :: "char list \<Rightarrow> char list option \<Rightarrow>
    number_error + (char list \<times> char list \<times> char option)" where
  "number_spec s base =
     (if s = [] \<or> \<not> isdigit (hd s) then Inl Invalid
      else if 2 < length (filter (\<lambda>c. \<not> isdigit c) (take 11 s)) then Inl SepOverrun
      else if 11 < length s then Inl Invalid
      else group_spec (digit_groups s) base)"

definition store_spec :: "LeelenNumber \<Rightarrow> char list \<times> char list \<times> char option \<Rightarrow> LeelenNumber" where
  "store_spec dest p =
     (case p of (b, r, e) \<Rightarrow>
        init_store dest b r (case e of None \<Rightarrow> NUL | Some c \<Rightarrow> c))"

section \<open>Lemmas on the parser\<close>

lemma at_mem: "k \<le> length (cstr src) \<Longrightarrow> at src k = at (cstr src) k"
  using at_cstr [of k src] at_cstr_end [of src] by (cases "k = length (cstr src)") (auto simp: at_def)

lemma rd_mem: "i + k \<le> length (cstr src) \<Longrightarrow> rd src i k = take k (drop i (cstr src))"
  by (rule nth_equalityI) (auto simp: nth_rd at_cstr)

lemma take_poke_zeros8:
  assumes "k \<le> 4"
  shows "take 4 (poke zeros8 (4 - k) (rd src i 4)) = pad4 (rd src i k)"
proof -
  have "[i..<i + 4] = [i..<i + k] @ [i + k..<i + 4]"
    using assms upt_add_eq_append [of i "i + k" "4 - k"] by simp
  then have "rd src i 4 = rd src i k @ rd src (i + k) (4 - k)"
    using assms by (simp add: rd_def)
  then show ?thesis
    using assms by (simp add: poke_fits zeros8_def pad4_def take_append)
qed

lemma init_store_take: "init_store dest (take 4 b) (take 4 r) e = init_store dest b r e"
  by (simp add: init_store_def)

lemma init_store_cong:
  "take 4 b = take 4 b' \<Longrightarrow> take 4 r = take 4 r' \<Longrightarrow> init_store dest b r e = init_store dest b' r' e"
  by (simp add: init_store_def)

lemma pad4_length: "length ds \<le> 4 \<Longrightarrow> length (pad4 ds) = 4"
  by (simp add: pad4_def)

lemma pad4_full [simp]: "length ds = 4 \<Longrightarrow> pad4 ds = ds"
  by (simp add: pad4_def)

lemma init_scan_digits:
  assumes "\<forall>c \<in> set g. isdigit c" and "i \<le> 11"
  shows "init_scan (g @ r) i seps =
    (if i + length g \<le> 11 then init_scan r (i + length g) seps else Inl Invalid)"
  using assms
proof (induction g arbitrary: i)
  case Nil
  then show ?case by simp
next
  case (Cons c g)
  then show ?case
    by (cases "i < 11") (auto simp: LEELEN_NUMBER_STRLEN_def)
qed

lemma init_scan_sep:
  "\<not> isdigit c \<Longrightarrow> init_scan (c # r) i seps =
    (if 11 \<le> i then Inl Invalid else if 2 \<le> length seps then Inl SepOverrun
     else init_scan r (Suc i) (seps @ [i]))"
  by (simp add: LEELEN_NUMBER_STRLEN_def)

lemma digit_groups_nonempty [simp]: "digit_groups s \<noteq> []"
  by (cases s) auto

lemma digit_groups_digits:
  "\<forall>c \<in> set g. isdigit c \<Longrightarrow> digit_groups (g @ r) = (g @ hd (digit_groups r)) # tl (digit_groups r)"
  by (induction g) auto

lemma digit_groups_sep: "\<not> isdigit c \<Longrightarrow> digit_groups (c # r) = [] # digit_groups r"
  by simp

lemma filter_digits: "\<forall>c \<in> set g. isdigit c \<Longrightarrow> filter (\<lambda>c. \<not> isdigit c) g = []"
  by simp

text \<open>Every string is digits, or digits, a separator and the rest.\<close>

lemma digits_split:
  obtains g where "s = g" and "\<forall>c \<in> set g. isdigit c"
  | g c r where "s = g @ c # r" and "\<forall>c \<in> set g. isdigit c" and "\<not> isdigit c"
proof (cases "dropWhile isdigit s")
  case Nil
  then have "\<forall>c \<in> set s. isdigit c" by (simp add: dropWhile_eq_Nil_conv)
  with that(1) show ?thesis by blast
next
  case (Cons c r)
  then have "s = takeWhile isdigit s @ c # r" by (metis takeWhile_dropWhile_id)
  moreover have "\<not> isdigit c" using Cons hd_dropWhile [of isdigit s] by simp
  moreover have "\<forall>x \<in> set (takeWhile isdigit s). isdigit x" by (auto dest: set_takeWhileD)
  ultimately show ?thesis using that(2) by blast
qed

lemma filter_take_digits [simp]:
  "\<forall>c \<in> set g. isdigit c \<Longrightarrow> filter (\<lambda>c. \<not> isdigit c) (take k g) = []"
  by (meson filter_False in_set_takeD)

text \<open>The scan finds the separators of a string with at most two of them.\<close>

lemma scan_none: "\<forall>c \<in> set g. isdigit c \<Longrightarrow> length g \<le> 11 \<Longrightarrow> init_scan g 0 [] = Inr []"
  using init_scan_digits [of g 0 "[]" "[]"] by simp

lemma scan_one:
  assumes "\<forall>c \<in> set g0. isdigit c" "\<not> isdigit c" "\<forall>c \<in> set g1. isdigit c"
    and "length g0 + 1 + length g1 \<le> 11"
  shows "init_scan (g0 @ c # g1) 0 [] = Inr [length g0]"
  using assms init_scan_digits [of g1 "Suc (length g0)" "[]" "[length g0]"]
  by (simp add: init_scan_digits init_scan_sep del: init_scan.simps(2))

lemma scan_two:
  assumes "\<forall>c \<in> set g0. isdigit c" "\<not> isdigit c" "\<forall>c \<in> set g1. isdigit c" "\<not> isdigit d"
    "\<forall>c \<in> set g2. isdigit c" and "length g0 + 1 + length g1 + 1 + length g2 \<le> 11"
  shows "init_scan (g0 @ c # g1 @ d # g2) 0 [] = Inr [length g0, length g0 + 1 + length g1]"
  using assms init_scan_digits [of g2 "Suc (Suc (length g0 + length g1))" "[]"
      "[length g0, Suc (length g0 + length g1)]"]
  by (simp add: init_scan_digits init_scan_sep del: init_scan.simps(2))

lemma scan_three:
  assumes "\<forall>c \<in> set g0. isdigit c" "\<not> isdigit c" "\<forall>c \<in> set g1. isdigit c" "\<not> isdigit d"
    "\<forall>c \<in> set g2. isdigit c" "\<not> isdigit e"
  shows "init_scan (g0 @ c # g1 @ d # g2 @ e # r) 0 [] =
    Inl (if length g0 + length g1 + length g2 + 2 < 11 then SepOverrun else Invalid)"
  using assms by (auto simp: init_scan_digits init_scan_sep simp del: init_scan.simps(2))

lemma scan_long:
  assumes "length (filter (\<lambda>c. \<not> isdigit c) s) \<le> 2" and "11 < length s"
  shows "init_scan s 0 [] = Inl Invalid"
proof -
  have "init_scan s i seps = Inl Invalid"
    if "length seps + length (filter (\<lambda>c. \<not> isdigit c) s) \<le> 2" "11 < i + length s" "i \<le> 11"
    for i seps
    using that
  proof (induction s arbitrary: i seps)
    case Nil
    then show ?case by simp
  next
    case (Cons c s)
    then show ?case by (auto simp: LEELEN_NUMBER_STRLEN_def split: if_splits)
  qed
  from this [of "[]" 0] assms show ?thesis by simp
qed

text \<open>The two storing helpers in terms of the string.\<close>

lemma init_block_room_str:
  assumes "i0 < i1" and "i1 \<le> length (cstr src)"
  shows "init_block_room dest src i0 i1 e =
    (if i0 \<le> 4 \<and> i1 - i0 - 1 \<le> 4
     then Inr (init_store dest (pad4 (take i0 (cstr src)))
                 (pad4 (take (i1 - i0 - 1) (drop (i0 + 1) (cstr src)))) e)
     else Inl Invalid)"
proof (cases "i0 \<le> 4 \<and> i1 - i0 - 1 \<le> 4")
  case True
  then have "take 4 (poke zeros8 (4 - i0) (rd src 0 4)) = pad4 (take i0 (cstr src))"
    and "take 4 (poke zeros8 (4 - (i1 - i0 - 1)) (rd src (i0 + 1) 4))
       = pad4 (take (i1 - i0 - 1) (drop (i0 + 1) (cstr src)))"
    using assms take_poke_zeros8 [of i0 src 0] take_poke_zeros8 [of "i1 - i0 - 1" src "i0 + 1"]
      rd_mem [of 0 i0 src] rd_mem [of "i0 + 1" "i1 - i0 - 1" src] by simp_all
  moreover from this have "take 4 (pad4 (take i0 (cstr src))) = pad4 (take i0 (cstr src))"
    and "take 4 (pad4 (take (i1 - i0 - 1) (drop (i0 + 1) (cstr src))))
       = pad4 (take (i1 - i0 - 1) (drop (i0 + 1) (cstr src)))"
    by (metis min.idem take_take)+
  ultimately show ?thesis
    using True by (simp add: init_block_room_def init_store_def)
next
  case False
  then show ?thesis by (auto simp: init_block_room_def)
qed

lemma take_poke_zeros8_all: "take 4 (poke zeros8 0 (rd src i 4)) = rd src i 4"
  by (simp add: poke_fits zeros8_def)

lemma rd_number_block: "wf_layout b \<Longrightarrow> rd (number_bytes b) 0 4 = n_block b"
  using rd_append [of "n_block b"] by (simp add: number_bytes_def wf_layout_def)

lemma init_room_str:
  assumes n: "n \<le> length (cstr src)" and base: "\<And>b. base = Some b \<Longrightarrow> wf_layout b"
  shows "init_room dest src base n e =
    (if n \<le> 5 then
       (case base of None \<Rightarrow> Inl MissingBlock
        | Some b \<Rightarrow> if n \<le> 4 then Inr (init_store dest (n_block b) (pad4 (take n (cstr src))) e)
                    else Inr (init_store dest (n_block b) (take 4 (cstr src)) (cstr src ! 4)))
     else if n = 8 \<or> n = 9 then
       Inr (init_store dest (take 4 (cstr src)) (take 4 (drop 4 (cstr src)))
              (if n = 9 then cstr src ! 8 else e))
     else Inl Invalid)"
proof -
  have block: "init_store dest (poke zeros8 0 (rd (number_bytes b) 0 4)) r x =
      init_store dest (n_block b) r x" if "base = Some b" for b r x
    using base [OF that] take_poke_zeros8_all [of "number_bytes b" 0]
    by (intro init_store_cong) (simp_all add: rd_number_block wf_layout_def)
  have room: "init_store dest b (poke zeros8 (4 - n) (rd src 0 4)) x =
      init_store dest b (pad4 (take n (cstr src))) x" if "n \<le> 4" for b x
    using that n take_poke_zeros8 [of n src 0]
    by (intro init_store_cong) (simp_all add: rd_mem pad4_length)
  have first: "init_store dest b (poke zeros8 0 (rd src 0 4)) x = init_store dest b (take 4 (cstr src)) x"
    if "4 < n" for b x
    using that n take_poke_zeros8_all [of src 0]
    by (intro init_store_cong) (simp_all add: rd_mem)
  have both: "init_store dest (poke zeros8 0 (rd src 0 4)) (poke zeros8 0 (rd src 4 4)) x =
      init_store dest (take 4 (cstr src)) (take 4 (drop 4 (cstr src))) x" if "8 \<le> n" for x
    using that n take_poke_zeros8_all [of src 0] take_poke_zeros8_all [of src 4]
    by (intro init_store_cong) (simp_all add: rd_mem)
  show ?thesis
    using n by (auto simp: init_room_def Let_def block room first both at_cstr split: option.splits)
qed

text \<open>The four shapes of a string, against the grammar.\<close>

lemma init_shape0:
  assumes s: "cstr src = g" and g: "\<forall>c \<in> set g. isdigit c" "g \<noteq> []" "length g \<le> 11"
    and base: "\<And>b. base = Some b \<Longrightarrow> wf_layout b"
  shows "LeelenNumber_init dest src base =
    map_sum id (store_spec dest) (group_spec [g] (map_option n_block base))"
proof -
  have "isdigit (at src 0)" using g at_cstr [of 0 src] s by (cases g) auto
  moreover have "init_scan (cstr src) 0 [] = Inr []" using scan_none g s by simp
  ultimately have "LeelenNumber_init dest src base = init_room dest src base (length g) NUL"
    using g s by (simp add: LeelenNumber_init_def)
  then show ?thesis
    using base s g by (auto simp: init_room_str store_spec_def split: option.splits)
qed

lemma init_shape1:
  assumes s: "cstr src = g0 @ c # g1" and g: "\<forall>c \<in> set g0. isdigit c" "g0 \<noteq> []" "\<not> isdigit c"
      "\<forall>c \<in> set g1. isdigit c" "length g0 + 1 + length g1 \<le> 11"
    and base: "\<And>b. base = Some b \<Longrightarrow> wf_layout b"
  shows "LeelenNumber_init dest src base =
    map_sum id (store_spec dest) (group_spec [g0, g1] (map_option n_block base))"
proof -
  have d: "isdigit (at src 0)" using g at_cstr [of 0 src] s by (cases g0) auto
  have sc: "init_scan (cstr src) 0 [] = Inr [length g0]" using scan_one g s by simp
  have at1: "at src (length g0 + 1) = at g1 0"
    using s at_mem [of "length g0 + 1" src] by (simp add: at_def nth_append)
  show ?thesis
  proof (cases g1)
    case Nil
    then show ?thesis using d sc at1 s by (simp add: LeelenNumber_init_def at_def)
  next
    case (Cons e g2)
    have "at src (length g0 + 1) \<noteq> NUL" using at1 Cons g by (simp add: at_def)
    moreover have "at src (length g0 + 2) = at g2 0"
      using s Cons at_mem [of "length g0 + 2" src] by (simp add: at_def nth_append)
    ultimately have "LeelenNumber_init dest src base =
      (if g2 \<noteq> [] then init_block_room dest src (length g0) (length (cstr src)) NUL
       else if \<not> (length g0 \<le> 4 \<or> length g0 = 8) then Inl Invalid
       else init_room dest src base (length g0) e)"
      using d sc at1 s g Cons
      by (cases g2; cases "length g0 = 8") (simp_all add: LeelenNumber_init_def)
    then show ?thesis
      using base s g Cons
      by (cases g2) (auto simp: init_room_str init_block_room_str store_spec_def split: option.splits)
  qed
qed

lemma init_shape2:
  assumes s: "cstr src = g0 @ c # g1 @ d # g2" and g: "\<forall>c \<in> set g0. isdigit c" "g0 \<noteq> []"
      "\<not> isdigit c" "\<forall>c \<in> set g1. isdigit c" "\<not> isdigit d" "\<forall>c \<in> set g2. isdigit c"
      "length g0 + 1 + length g1 + 1 + length g2 \<le> 11"
  shows "LeelenNumber_init dest src base =
    map_sum id (store_spec dest) (group_spec [g0, g1, g2] (map_option n_block base))"
proof -
  let ?i1 = "length g0 + 1 + length g1"
  have d: "isdigit (at src 0)" using g at_cstr [of 0 src] s by (cases g0) auto
  have sc: "init_scan (cstr src) 0 [] = Inr [length g0, ?i1]" using scan_two g s by simp
  have at1: "at src (?i1 + 1) = at g2 0"
    using s at_mem [of "?i1 + 1" src] by (simp add: at_def nth_append)
  show ?thesis
  proof (cases g2)
    case Nil
    then show ?thesis using d sc at1 s by (simp add: LeelenNumber_init_def at_def)
  next
    case (Cons e r)
    have "at src (?i1 + 1) \<noteq> NUL" using at1 Cons g by (simp add: at_def)
    moreover have "at src (?i1 + 2) = at r 0"
      using s Cons at_mem [of "?i1 + 2" src] by (simp add: at_def nth_append)
    ultimately have "LeelenNumber_init dest src base =
      (if g1 = [] \<or> r \<noteq> [] then Inl Invalid else init_block_room dest src (length g0) ?i1 e)"
      using d sc at1 s g Cons by (cases r) (auto simp: LeelenNumber_init_def)
    then show ?thesis
      using s g Cons by (cases r) (auto simp: init_block_room_str store_spec_def)
  qed
qed

lemma number_spec_groups:
  assumes "s \<noteq> []" "isdigit (hd s)" and "length (filter (\<lambda>c. \<not> isdigit c) s) \<le> 2"
  shows "number_spec s b = (if 11 < length s then Inl Invalid else group_spec (digit_groups s) b)"
proof -
  have "length (filter (\<lambda>c. \<not> isdigit c) (take 11 s)) \<le> length (filter (\<lambda>c. \<not> isdigit c) s)"
    by (metis append_take_drop_id filter_append le_add1 length_append)
  with assms show ?thesis by (simp add: number_spec_def)
qed

lemma init_long:
  assumes "isdigit (at src 0)" "length (filter (\<lambda>c. \<not> isdigit c) (cstr src)) \<le> 2"
    and "11 < length (cstr src)"
  shows "LeelenNumber_init dest src base = Inl Invalid"
  using assms scan_long by (simp add: LeelenNumber_init_def)

text \<open>Every string has at most two separators, or a third one somewhere.\<close>

lemma groups_cases:
  obtains (n0) g where "s = g" "\<forall>c \<in> set g. isdigit c"
    | (n1) g0 c g1 where "s = g0 @ c # g1" "\<forall>c \<in> set g0. isdigit c" "\<not> isdigit c"
        "\<forall>c \<in> set g1. isdigit c"
    | (n2) g0 c g1 d g2 where "s = g0 @ c # g1 @ d # g2" "\<forall>c \<in> set g0. isdigit c"
        "\<not> isdigit c" "\<forall>c \<in> set g1. isdigit c" "\<not> isdigit d" "\<forall>c \<in> set g2. isdigit c"
    | (n3) g0 c g1 d g2 e r where "s = g0 @ c # g1 @ d # g2 @ e # r"
        "\<forall>c \<in> set g0. isdigit c" "\<not> isdigit c" "\<forall>c \<in> set g1. isdigit c" "\<not> isdigit d"
        "\<forall>c \<in> set g2. isdigit c" "\<not> isdigit e"
proof (cases s rule: digits_split)
  case (1 g)
  then show ?thesis using n0 by blast
next
  case s: (2 g0 c r0)
  show ?thesis
  proof (cases r0 rule: digits_split)
    case (1 g)
    with s n1 show ?thesis by blast
  next
    case r0: (2 g1 d r1)
    show ?thesis
    proof (cases r1 rule: digits_split)
      case (1 g)
      with s r0 n2 show ?thesis by blast
    next
      case (2 g2 e r)
      with s r0 n3 show ?thesis by blast
    qed
  qed
qed

lemma count_take_three:
  assumes "\<forall>c \<in> set g0. isdigit c" "\<not> isdigit c" "\<forall>c \<in> set g1. isdigit c" "\<not> isdigit d"
    "\<forall>c \<in> set g2. isdigit c" "\<not> isdigit e"
  shows "2 < length (filter (\<lambda>c. \<not> isdigit c) (take 11 (g0 @ c # g1 @ d # g2 @ e # r)))
    \<longleftrightarrow> length g0 + length g1 + length g2 + 2 < 11"
  using assms by (auto simp: take_Cons')

text \<open>The parser computes the grammar, on every memory content.\<close>

lemma init_refines:
  assumes base: "\<And>b. base = Some b \<Longrightarrow> wf_layout b"
  shows "LeelenNumber_init dest src base =
    map_sum id (store_spec dest) (number_spec (cstr src) (map_option n_block base))"
proof (cases "cstr src = [] \<or> \<not> isdigit (hd (cstr src))")
  case True
  then have "\<not> isdigit (at src 0)"
    using at_cstr_end [of src] at_cstr [of 0 src] by (cases "cstr src") auto
  with True show ?thesis by (simp add: LeelenNumber_init_def number_spec_def)
next
  case False
  then have first: "isdigit (at src 0)" using at_cstr [of 0 src] by (auto simp: hd_conv_nth)
  have nonempty: "cstr src \<noteq> []" "isdigit (hd (cstr src))" using False by auto
  show ?thesis
  proof (cases "cstr src" rule: groups_cases)
    case (n0 g)
    then show ?thesis
      using nonempty base init_shape0 [of src g base dest] number_spec_groups [of g]
        init_long [OF first, of dest base]
      by (auto simp: digit_groups_digits [of g "[]", simplified])
  next
    case (n1 g0 c g1)
    then have ne: "g0 \<noteq> []" using nonempty by auto
    from n1 have groups: "digit_groups (cstr src) = [g0, g1]"
      by (simp add: digit_groups_digits digit_groups_digits [of g1 "[]", simplified])
    have few: "length (filter (\<lambda>c. \<not> isdigit c) (cstr src)) \<le> 2" using n1 by simp
    show ?thesis
      using number_spec_groups [OF nonempty few] init_long [OF first few] n1(1)
        init_shape1 [OF n1(1,2) ne n1(3,4) _ base] unfolding groups by simp
  next
    case (n2 g0 c g1 d g2)
    then have ne: "g0 \<noteq> []" using nonempty by auto
    from n2 have groups: "digit_groups (cstr src) = [g0, g1, g2]"
      by (simp add: digit_groups_digits digit_groups_digits [of g2 "[]", simplified])
    have few: "length (filter (\<lambda>c. \<not> isdigit c) (cstr src)) \<le> 2" using n2 by simp
    show ?thesis
      using number_spec_groups [OF nonempty few] init_long [OF first few] n2(1)
        init_shape2 [OF n2(1,2) ne n2(3-6)] unfolding groups by simp
  next
    case (n3 g0 c g1 d g2 e r)
    then have "LeelenNumber_init dest src base =
        Inl (if length g0 + length g1 + length g2 + 2 < 11 then SepOverrun else Invalid)"
      using first scan_three [of g0 c g1 d g2 e r] by (simp add: LeelenNumber_init_def)
    then show ?thesis
      using False n3 count_take_three [of g0 c g1 d g2 e r]
      by (simp add: number_spec_def)
  qed
qed

section \<open>Decimal fields\<close>

lemma digits4_cases:
  assumes "digits4 ds"
  obtains a b c d where "ds = [digit_char a, digit_char b, digit_char c, digit_char d]"
    and "a < 10" "b < 10" "c < 10" "d < 10"
proof -
  from assms obtain w x y z where ds: "ds = [w, x, y, z]"
    by (auto simp: digits4_def numeral_eq_Suc length_Suc_conv)
  with assms have "isdigit w" "isdigit x" "isdigit y" "isdigit z" by (auto simp: digits4_def)
  with ds that show ?thesis by (metis isdigit_cases)
qed

lemma dec_digits4: "digits4 ds \<Longrightarrow> 0 \<le> dec ds \<and> dec ds < 10000"
  by (erule digits4_cases) (simp add: dec_def)

lemma itoa4_dec [decimal]: "digits4 ds \<Longrightarrow> itoa4 (nat (dec ds)) = ds"
proof (erule digits4_cases)
  fix a b c d :: nat
  assume ds: "ds = [digit_char a, digit_char b, digit_char c, digit_char d]"
    and *: "a < 10" "b < 10" "c < 10" "d < 10"
  then have "nat (dec ds) = 10 * (10 * (10 * a + b) + c) + d"
    by (simp add: dec_def)
  moreover have step: "(10 * x + y) div 10 = x" "(10 * x + y) mod 10 = y" if "y < 10" for x y :: nat
    using that by simp_all
  ultimately show "itoa4 (nat (dec ds)) = ds"
    using * by (simp only: itoa4_def Let_def ds step mod_less)
qed

lemma atoi_digits4:
  assumes "digits4 ds" and "r = [] \<or> \<not> isdigit (hd r)"
  shows "atoi (ds @ r) = dec ds"
proof -
  from assms(1) obtain c cs where c: "ds = c # cs" "isdigit c"
    by (cases ds) (auto simp: digits4_def)
  moreover have "takeWhile isdigit (ds @ r) = ds"
    using assms by (cases r) (auto simp: digits4_def)
  moreover have "max LONG_MIN (min LONG_MAX (dec ds)) = dec ds"
    using dec_digits4 [OF assms(1)] by (simp add: LONG_MIN_def LONG_MAX_def)
  ultimately show ?thesis
    by (auto simp: atoi_def strtol_def Let_def)
qed

lemma digits4_no_NUL: "digits4 ds \<Longrightarrow> NUL \<notin> set ds"
  by (auto simp: digits4_def)

lemma number_str_valid:
  assumes "valid_number n"
  shows "number_str n = n_block n @ CHR ''-'' # n_room n @
    (if n_sep2 n = NUL then [] else [CHR ''-'', n_extension n])"
  using assms digits4_no_NUL [of "n_block n"] digits4_no_NUL [of "n_room n"]
  by (auto simp: valid_number_def number_str_def number_bytes_def cstr_append cstr_Cons)

lemma length_number_str: "valid_number n \<Longrightarrow> length (number_str n) = (if n_sep2 n = NUL then 9 else 11)"
  by (auto simp: number_str_valid valid_number_def digits4_def)

lemma valid_number_layout: "valid_number n \<Longrightarrow> wf_layout n"
  by (simp add: valid_number_def wf_layout_def digits4_def)

section \<open>Bit fields\<close>

lemma pack_fields:
  fixes b r e :: u32
  assumes "b = take_bit 14 b" "r = take_bit 14 r" "e = take_bit 4 e"
  defines "w \<equiv> b OR push_bit 14 r OR push_bit 28 e"
  shows "take_bit 14 w = b" "take_bit 14 (drop_bit 14 w) = r" "drop_bit 28 w = e"
proof -
  have b: "\<not> bit b i" if "14 \<le> i" for i using assms(1) that by (metis bit_take_bit_iff not_less)
  have r: "\<not> bit r i" if "14 \<le> i" for i using assms(2) that by (metis bit_take_bit_iff not_less)
  have e: "\<not> bit e i" if "4 \<le> i" for i using assms(3) that by (metis bit_take_bit_iff not_less)
  show "take_bit 14 w = b"
    by (rule bit_word_eqI) (use b in \<open>auto simp: w_def bit_simps not_le\<close>)
  show "take_bit 14 (drop_bit 14 w) = r"
    by (rule bit_word_eqI) (use b r in \<open>auto simp: w_def bit_simps not_le\<close>)
  show "drop_bit 28 w = e"
    by (rule bit_word_eqI) (use b r e in \<open>auto simp: w_def bit_simps not_le\<close>, meson not_le)
qed

lemma field14: "0 \<le> v \<Longrightarrow> v < 10000 \<Longrightarrow> unat (take_bit 14 (word_of_int v :: u32)) = nat v"
  by (cases v) (simp_all add: unsigned_take_bit_eq unat_of_nat take_bit_nat_eq_self_iff)

lemma field4: "d < 16 \<Longrightarrow> unat (take_bit 4 (word_of_int (int d) :: u32)) = d"
  by (simp add: unsigned_take_bit_eq unat_of_nat take_bit_nat_eq_self_iff)

lemma toint_fields:
  assumes "valid_number n"
  shows "unat (take_bit 14 (LeelenNumber_toint n)) = nat (dec (n_block n))"
    and "unat (take_bit 14 (drop_bit 14 (LeelenNumber_toint n))) = nat (dec (n_room n))"
    and "unat (drop_bit 28 (LeelenNumber_toint n)) =
      unat (take_bit 4 (if LeelenNumber_has_extension n
        then word_of_int (digit_val (n_extension n)) else 0xf :: u32))"
proof -
  have b: "atoi (cstr (number_bytes n)) = dec (n_block n)"
    using number_str_valid [OF assms] atoi_digits4 [of "n_block n"] assms
    by (simp add: valid_number_def number_str_def)
  have "cstr (drop 5 (number_bytes n)) = n_room n @ (if n_sep2 n = NUL then [] else [CHR ''-'', n_extension n])"
    using assms digits4_no_NUL [of "n_room n"]
    by (auto simp: valid_number_def number_bytes_def digits4_def cstr_append cstr_Cons)
  then have r: "atoi (cstr (drop 5 (number_bytes n))) = dec (n_room n)"
    using atoi_digits4 [of "n_room n"] assms by (auto simp: valid_number_def)
  have "digits4 (n_block n)" "digits4 (n_room n)" using assms by (auto simp: valid_number_def)
  then have *: "unat (take_bit 14 (word_of_int (dec (n_block n)) :: u32)) = nat (dec (n_block n))"
    "unat (take_bit 14 (word_of_int (dec (n_room n)) :: u32)) = nat (dec (n_room n))"
    by (simp_all add: field14 dec_digits4)
  show "unat (take_bit 14 (LeelenNumber_toint n)) = nat (dec (n_block n))"
    unfolding LeelenNumber_toint_def Let_def b r by (subst pack_fields(1)) (simp_all add: *)
  show "unat (take_bit 14 (drop_bit 14 (LeelenNumber_toint n))) = nat (dec (n_room n))"
    unfolding LeelenNumber_toint_def Let_def b r by (subst pack_fields(2)) (simp_all add: *)
  show "unat (drop_bit 28 (LeelenNumber_toint n)) =
      unat (take_bit 4 (if LeelenNumber_has_extension n
        then word_of_int (digit_val (n_extension n)) else 0xf :: u32))"
    unfolding LeelenNumber_toint_def Let_def b r by (subst pack_fields(3)) simp_all
qed

section \<open>The 5-byte format, byte by byte\<close>

lemma bytes_of_pack:
  fixes b0 b1 b2 b3 b4 :: u8 and pad :: u64
  defines "w \<equiv> ucast b0 OR push_bit 8 (ucast b1) OR push_bit 16 (ucast b2)
         OR push_bit 24 (ucast b3) OR push_bit 32 (ucast b4) OR push_bit 40 (drop_bit 40 pad) :: u64"
  shows "byte_of_u64 w 0 = b0" "byte_of_u64 w 1 = b1" "byte_of_u64 w 2 = b2"
    "byte_of_u64 w 3 = b3" "byte_of_u64 w 4 = b4"
proof -
  have out: "\<not> bit x i" if "8 \<le> i" for x :: u8 and i
    using that by (auto dest: bit_imp_le_length)
  show "byte_of_u64 w 0 = b0" "byte_of_u64 w 1 = b1" "byte_of_u64 w 2 = b2"
    "byte_of_u64 w 3 = b3" "byte_of_u64 w 4 = b4"
    by (rule bit_word_eqI; auto simp: byte_of_u64_def w_def bit_simps out)+
qed

lemma tobytes_bytes:
  "byte_of_u64 (LeelenNumber_tobytes pad n) 0 =
     (if LeelenNumber_has_extension n then word_of_int (digit_val (n_extension n)) else 0xff)"
  "byte_of_u64 (LeelenNumber_tobytes pad n) 1 = int2byte (drop 2 (n_room n))"
  "byte_of_u64 (LeelenNumber_tobytes pad n) 2 = int2byte (n_room n)"
  "byte_of_u64 (LeelenNumber_tobytes pad n) 3 = int2byte (drop 2 (n_block n))"
  "byte_of_u64 (LeelenNumber_tobytes pad n) 4 = int2byte (n_block n)"
  unfolding LeelenNumber_tobytes_def Let_def by (rule bytes_of_pack)+

lemma byte2int_int2byte:
  assumes "isdigit x" "isdigit y"
  shows "byte2int (int2byte [x, y]) = [x, y]"
proof -
  from assms obtain a b where x: "x = digit_char a" "a < 10" and y: "y = digit_char b" "b < 10"
    by (metis isdigit_cases)
  then have "int2byte [x, y] = word_of_nat (10 * a + b)"
    by (simp add: int2byte_def)
  moreover have "unat (word_of_nat (10 * a + b) :: u8) = 10 * a + b"
    unfolding unat_of_nat using x y by simp
  ultimately show ?thesis
    using x y by (simp add: byte2int_def digit_char_def add.commute)
qed

lemma digit_field8:
  assumes "isdigit c"
  shows "char_of (unat (word_of_int (digit_val c) :: u8) + 48) = c"
    and "word_of_int (digit_val c) \<noteq> (0xff :: u8)"
proof -
  from assms obtain d where c: "c = digit_char d" "d < 10" by (rule isdigit_cases)
  then have u: "unat (word_of_int (digit_val c) :: u8) = d" by (simp add: unat_of_nat)
  with c show "char_of (unat (word_of_int (digit_val c) :: u8) + 48) = c"
    by (simp add: digit_char_def add.commute)
  from u c(2) have "unat (word_of_int (digit_val c) :: u8) \<noteq> unat (0xff :: u8)" by simp
  then show "word_of_int (digit_val c) \<noteq> (0xff :: u8)" by metis
qed

section \<open>Properties\<close>

text \<open>C21. The parser implements the grammar: on every memory whose string is \<open>cstr src\<close>,
  whatever follows the terminating NUL, \<open>LeelenNumber_init\<close> returns exactly the error or the
  block, room and extension that \<open>number_spec\<close> gives, and it stores nothing else.\<close>

theorem LeelenNumber_init_grammar:
  assumes "\<And>b. base = Some b \<Longrightarrow> wf_layout b"
  shows "LeelenNumber_init dest src base =
    map_sum id (store_spec dest) (number_spec (cstr src) (map_option n_block base))"
  using assms by (rule init_refines)

definition sample_base :: LeelenNumber where
  "sample_base = number_of_bytes ''9999-0001''"

lemma sample_base_valid: "valid_number sample_base" "wf_layout sample_base"
  by (simp_all add: sample_base_def valid_number_def wf_layout_def number_of_bytes_def digits4_def
      rd_def at_def isdigit_def numeral_eq_Suc)

theorem LeelenNumber_init_grammar_witness:
  "LeelenNumber_init sample_base ''12-3'' (Some sample_base) =
     map_sum id (store_spec sample_base) (number_spec (cstr ''12-3'') (Some (n_block sample_base)))"
  using LeelenNumber_init_grammar [of "Some sample_base" sample_base "''12-3''"]
  by (simp add: sample_base_valid)

lemma digit_groups_all: "g \<in> set (digit_groups s) \<Longrightarrow> \<forall>c \<in> set g. isdigit c"
proof (induction s arbitrary: g)
  case Nil
  then show ?case by simp
next
  case (Cons c s)
  show ?case
  proof (cases "isdigit c")
    case True
    with Cons.prems consider "g = c # hd (digit_groups s)" | "g \<in> set (tl (digit_groups s))"
      by auto
    then show ?thesis
    proof cases
      case 1
      then show ?thesis using Cons.IH [of "hd (digit_groups s)"] True by auto
    next
      case 2
      then show ?thesis using Cons.IH [of g] by (auto dest: list.set_sel(2) [rotated])
    qed
  next
    case False
    then show ?thesis using Cons by auto
  qed
qed

lemma digits4_pad4: "\<forall>c \<in> set x. isdigit c \<Longrightarrow> length x \<le> 4 \<Longrightarrow> digits4 (pad4 x)"
  by (auto simp: digits4_def pad4_def isdigit_def)

lemma digits4_take: "\<forall>c \<in> set x. isdigit c \<Longrightarrow> k + 4 \<le> length x \<Longrightarrow> digits4 (take 4 (drop k x))"
  by (auto simp: digits4_def dest: in_set_takeD in_set_dropD)

lemma digits4_drop: "\<forall>c \<in> set x. isdigit c \<Longrightarrow> length x = 8 \<Longrightarrow> digits4 (drop 4 x)"
  by (auto simp: digits4_def dest: in_set_dropD)

lemma group_spec_digits:
  assumes "group_spec gs b = Inr (blk, rm, e)" and "\<And>x. b = Some x \<Longrightarrow> digits4 x"
    and "\<forall>g \<in> set gs. \<forall>c \<in> set g. isdigit c"
  shows "digits4 blk \<and> digits4 rm \<and> (\<forall>c. e = Some c \<longrightarrow> isdigit c)"
  using assms digits4_take [of _ 0] digits4_take [of _ 4]
  by (cases "(gs, b)" rule: group_spec.cases)
    (auto simp: digits4_pad4 digits4_drop split: if_splits option.splits)

lemma number_spec_digits:
  assumes "number_spec s b = Inr (blk, rm, e)" and "\<And>x. b = Some x \<Longrightarrow> digits4 x"
  shows "digits4 blk \<and> digits4 rm \<and> (\<forall>c. e = Some c \<longrightarrow> isdigit c)"
proof -
  have "group_spec (digit_groups s) b = Inr (blk, rm, e)"
    using assms(1) by (simp add: number_spec_def split: if_splits)
  then show ?thesis using assms(2) by (rule group_spec_digits) (auto dest: digit_groups_all)
qed

text \<open>C39. Every number the parser accepts is well formed: four digits, a dash, four digits, and
  no extension or a dash, one digit and a NUL.\<close>

theorem LeelenNumber_init_valid:
  assumes "LeelenNumber_init dest src base = Inr n" and "\<And>b. base = Some b \<Longrightarrow> valid_number b"
  shows "valid_number n"
proof -
  have "wf_layout b" if "base = Some b" for b
    using assms(2) that by (simp add: valid_number_layout)
  then obtain blk rm e where "number_spec (cstr src) (map_option n_block base) = Inr (blk, rm, e)"
    and n: "n = store_spec dest (blk, rm, e)"
    using assms(1) init_refines [of base dest src]
    by (cases "number_spec (cstr src) (map_option n_block base)") auto
  with number_spec_digits [OF this(1)] assms(2)
  have "digits4 blk \<and> digits4 rm \<and> (\<forall>c. e = Some c \<longrightarrow> isdigit c)"
    by (auto simp: valid_number_def)
  with n show ?thesis
    by (auto simp: store_spec_def init_store_def valid_number_def digits4_def split: option.splits)
qed

theorem LeelenNumber_init_valid_witness:
  "\<exists>n. LeelenNumber_init sample_base ''12-0034-5'' None = Inr n \<and> valid_number n"
proof -
  have "\<exists>n. LeelenNumber_init sample_base ''12-0034-5'' None = Inr n"
    using init_refines [of None sample_base "''12-0034-5''"]
    by (simp add: number_spec_def cstr_Cons isdigit_def)
  then show ?thesis using LeelenNumber_init_valid [of sample_base "''12-0034-5''" None] by auto
qed

lemma number_init_number_str:
  assumes "valid_number n" and "cstr src = number_str n" and "\<And>b. base = Some b \<Longrightarrow> wf_layout b"
  shows "\<exists>n'. LeelenNumber_init dest src base = Inr n' \<and> valid_number n' \<and>
    number_str n' = number_str n"
proof -
  from assms(1) have b: "digits4 (n_block n)" and r: "digits4 (n_room n)"
    and e: "n_sep2 n = NUL \<or> isdigit (n_extension n)" by (auto simp: valid_number_def)
  let ?e = "if n_sep2 n = NUL then None else Some (n_extension n)"
  have "number_spec (number_str n) x = Inr (n_block n, n_room n, ?e)" for x
  proof -
    obtain b1 b2 b3 b4 where bs: "n_block n = [b1, b2, b3, b4]" "isdigit b1" "isdigit b2"
      "isdigit b3" "isdigit b4"
      using b by (auto simp: digits4_def numeral_eq_Suc length_Suc_conv)
    obtain r1 r2 r3 r4 where rs: "n_room n = [r1, r2, r3, r4]" "isdigit r1" "isdigit r2"
      "isdigit r3" "isdigit r4"
      using r by (auto simp: digits4_def numeral_eq_Suc length_Suc_conv)
    show ?thesis
      using bs rs e by (cases "n_sep2 n = NUL")
        (simp_all add: number_str_valid [OF assms(1)] number_spec_def pad4_def)
  qed
  then have "LeelenNumber_init dest src base = Inr (store_spec dest (n_block n, n_room n, ?e))"
    using init_refines [OF assms(3)] assms(2) by simp
  moreover have valid: "valid_number (store_spec dest (n_block n, n_room n, ?e))"
    using b r e by (auto simp: store_spec_def init_store_def valid_number_def digits4_def)
  moreover have "number_str (store_spec dest (n_block n, n_room n, ?e)) = number_str n"
    unfolding number_str_valid [OF valid] number_str_valid [OF assms(1)]
    using b r e by (auto simp: store_spec_def init_store_def digits4_def)
  ultimately show ?thesis by blast
qed

interpretation printed_number: codec valid_number number_str
  "\<lambda>s n. \<exists>dest src base. cstr src = s \<and> (\<forall>b. base = Some b \<longrightarrow> wf_layout b) \<and> LeelenNumber_init dest src base = Inr n" number_str
proof unfold_locales
  fix x assume x: "valid_number x"
  then show "\<exists>n dest src base. cstr src = number_str x \<and> (\<forall>b. base = Some b \<longrightarrow> wf_layout b) \<and> LeelenNumber_init dest src base = Inr n"
  proof -
    have c: "cstr (number_str x) = number_str x" by (simp add: number_str_def)
    then obtain n where "LeelenNumber_init x (number_str x) None = Inr n" using number_init_number_str [OF x, of _ None x] by blast
    with c show ?thesis by (intro exI [of _ n] exI [of _ x] exI [of _ "number_str x"] exI [of _ None]) simp
  qed
  fix y assume "\<exists>dest src base. cstr src = number_str x \<and> (\<forall>b. base = Some b \<longrightarrow> wf_layout b) \<and> LeelenNumber_init dest src base = Inr y"
  then obtain dest src base where "cstr src = number_str x" "\<forall>b. base = Some b \<longrightarrow> wf_layout b"
      "LeelenNumber_init dest src base = Inr y" by blast
  with number_init_number_str [OF x, of src base dest] show "number_str y = number_str x" by auto
qed

text \<open>Parsing the string of a well-formed number gives that number back, with or without an
  extension, whatever the base and the old content of the destination are.\<close>

theorem LeelenNumber_init_roundtrip:
  assumes "valid_number n" and "cstr src = number_str n" and "\<And>b. base = Some b \<Longrightarrow> wf_layout b"
  shows "\<exists>n'. LeelenNumber_init dest src base = Inr n' \<and> valid_number n' \<and>
    number_str n' = number_str n"
  using assms by (rule number_init_number_str)

theorem LeelenNumber_init_roundtrip_witness:
  "\<exists>n'. LeelenNumber_init sample_base (number_str sample_base @ [NUL]) None = Inr n' \<and>
    valid_number n' \<and> number_str n' = number_str sample_base"
  by (rule LeelenNumber_init_roundtrip)
    (simp_all add: sample_base_valid number_str_def cstr_append)

text \<open>The scan writes a third separator position behind the two-element array \<open>i_sep\<close>:
  this happens exactly for the strings that start with a digit and have more than two
  separators among their first eleven characters.\<close>

theorem LeelenNumber_init_overrun:
  assumes "\<And>b. base = Some b \<Longrightarrow> wf_layout b"
  shows "LeelenNumber_init dest src base = Inl SepOverrun \<longleftrightarrow>
    cstr src \<noteq> [] \<and> isdigit (hd (cstr src)) \<and>
    2 < length (filter (\<lambda>c. \<not> isdigit c) (take 11 (cstr src)))"
proof -
  have "group_spec gs b \<noteq> Inl SepOverrun" for gs b
    by (cases "(gs, b)" rule: group_spec.cases) (auto split: option.splits)
  then have "number_spec s b = Inl SepOverrun \<longleftrightarrow> s \<noteq> [] \<and> isdigit (hd s) \<and>
      2 < length (filter (\<lambda>c. \<not> isdigit c) (take 11 s))" for s b
    by (simp add: number_spec_def)
  then show ?thesis
    by (simp only: init_refines [OF assms] map_sum_id_Inl)
qed

theorem LeelenNumber_init_overrun_witness:
  "LeelenNumber_init sample_base ''1-2-3-4'' (Some sample_base) = Inl SepOverrun"
  using LeelenNumber_init_overrun [of "Some sample_base" sample_base "''1-2-3-4''"]
  by (simp add: sample_base_valid cstr_Cons isdigit_def)

lemma fromint_toint:
  assumes "valid_number n" and "n_sep2 n = NUL \<longrightarrow> n_extension n = NUL"
  shows "number_str (LeelenNumber_fromint dest (LeelenNumber_toint n)) = number_str n"
proof -
  let ?d = "LeelenNumber_fromint dest (LeelenNumber_toint n)"
  have b: "digits4 (n_block n)" and r: "digits4 (n_room n)"
    using assms(1) by (auto simp: valid_number_def)
  have "n_block ?d = n_block n" "n_room ?d = n_room n" "n_sep1 ?d = CHR ''-''"
    by (simp_all add: LeelenNumber_fromint_def Let_def toint_fields [OF assms(1)] itoa4_dec b r)
  moreover have "n_sep2 ?d = n_sep2 n \<and> (n_sep2 n \<noteq> NUL \<longrightarrow> n_extension ?d = n_extension n \<and> n_sep3 ?d = NUL)"
  proof (cases "n_sep2 n = NUL")
    case True
    then have "\<not> LeelenNumber_has_extension n" using assms(2) by (simp add: LeelenNumber_has_extension_def)
    then show ?thesis
      using True by (simp add: LeelenNumber_fromint_def Let_def toint_fields [OF assms(1)])
  next
    case False
    with assms(1) obtain d where d: "n_extension n = digit_char d" "d < 10" "n_sep2 n = CHR ''-''"
      by (auto simp: valid_number_def elim: isdigit_cases)
    then have "LeelenNumber_has_extension n" by (simp add: LeelenNumber_has_extension_def)
    with d have "unat (drop_bit 28 (LeelenNumber_toint n)) = d"
      using field4 [of d] by (simp add: toint_fields [OF assms(1)])
    with d show ?thesis by (simp add: LeelenNumber_fromint_def Let_def)
  qed
  ultimately have *: "valid_number ?d"
    using assms(1) by (auto simp: valid_number_def)
  show ?thesis
    unfolding number_str_valid [OF *] number_str_valid [OF assms(1)]
    using \<open>n_block ?d = n_block n\<close> \<open>n_room ?d = n_room n\<close>
      \<open>n_sep2 ?d = n_sep2 n \<and> _\<close> by auto
qed

interpretation packed_number: codec "\<lambda>n. valid_number n \<and> (n_sep2 n = NUL \<longrightarrow> n_extension n = NUL)" LeelenNumber_toint
  "\<lambda>i n. \<exists>dest. n = LeelenNumber_fromint dest i" number_str
  by unfold_locales (auto simp: fromint_toint)

text \<open>Packing into 32 bits loses nothing: unpacking gives a number with the same string, for
  every well-formed number whose extension byte is clear when it has no extension.\<close>

theorem LeelenNumber_int_roundtrip:
  assumes "valid_number n" and "n_sep2 n = NUL \<longrightarrow> n_extension n = NUL"
  shows "number_str (LeelenNumber_fromint dest (LeelenNumber_toint n)) = number_str n"
  using assms by (rule fromint_toint)

theorem LeelenNumber_int_roundtrip_witness:
  "number_str (LeelenNumber_fromint sample_base (LeelenNumber_toint sample_base)) = ''9999-0001''"
proof -
  have "n_extension sample_base = NUL"
    by (simp add: sample_base_def number_of_bytes_def at_def)
  then have "number_str (LeelenNumber_fromint sample_base (LeelenNumber_toint sample_base))
      = number_str sample_base"
    by (intro LeelenNumber_int_roundtrip) (simp_all add: sample_base_valid)
  also have "number_str sample_base = ''9999-0001''"
    by (simp add: number_str_def sample_base_def number_bytes_def number_of_bytes_def rd_def
        numeral_eq_Suc cstr_Cons)
  finally show ?thesis .
qed

text \<open>The 5-byte format does not round-trip: \<open>LeelenNumber_tobytes\<close> stores the low pair of
  digits first and \<open>LeelenNumber_frombytes\<close> reads the high pair first, so the two pairs of the
  block and of the room come back exchanged, for every well-formed number.\<close>

theorem LeelenNumber_bytes_swap:
  assumes "valid_number n"
  fixes dest pad
  defines "m \<equiv> LeelenNumber_frombytes dest (LeelenNumber_tobytes pad n)"
  shows "n_block m = drop 2 (n_block n) @ take 2 (n_block n) \<and>
    n_room m = drop 2 (n_room n) @ take 2 (n_room n) \<and>
    (LeelenNumber_has_extension n \<and> n_sep2 n \<noteq> NUL \<longrightarrow> n_extension m = n_extension n)"
proof -
  obtain b1 b2 b3 b4 where b: "n_block n = [b1, b2, b3, b4]"
    using assms(1) by (auto simp: valid_number_def digits4_def numeral_eq_Suc length_Suc_conv)
  obtain r1 r2 r3 r4 where r: "n_room n = [r1, r2, r3, r4]"
    using assms(1) by (auto simp: valid_number_def digits4_def numeral_eq_Suc length_Suc_conv)
  have d: "isdigit b1" "isdigit b2" "isdigit b3" "isdigit b4"
    "isdigit r1" "isdigit r2" "isdigit r3" "isdigit r4"
    using assms(1) b r by (auto simp: valid_number_def digits4_def)
  have two: "int2byte [x, y, u, v] = int2byte [x, y]" for x y u v
    by (simp add: int2byte_def at_def)
  show ?thesis
    using assms(1) b r d
    by (auto simp: m_def LeelenNumber_frombytes_def Let_def tobytes_bytes
        tobytes_bytes(2) [unfolded One_nat_def] byte2int_int2byte two digit_field8 valid_number_def)
qed

theorem LeelenNumber_bytes_swap_witness:
  "n_block (LeelenNumber_frombytes sample_base (LeelenNumber_tobytes 0
      (sample_base\<lparr>n_block := ''0012''\<rparr>))) = ''1200''"
proof -
  have "valid_number (sample_base\<lparr>n_block := ''0012''\<rparr>)"
    using sample_base_valid(1) by (simp add: valid_number_def digits4_def isdigit_def)
  from LeelenNumber_bytes_swap [OF this, of sample_base 0] show ?thesis by simp
qed

text \<open>Equality of two numbers that have an extension ignores the extension: the comparison
  of the extension is skipped exactly when \<open>sep2\<close> says there is one.\<close>

theorem LeelenNumber_equal_ignores_extension:
  assumes "valid_number n" and "n_sep2 n \<noteq> NUL"
  shows "LeelenNumber_equal n (n\<lparr>n_extension := c\<rparr>) \<and>
    (isdigit c \<and> c \<noteq> n_extension n \<longrightarrow> number_str (n\<lparr>n_extension := c\<rparr>) \<noteq> number_str n)"
proof -
  have "number_str (n\<lparr>n_extension := c\<rparr>) \<noteq> number_str n" if "isdigit c" "c \<noteq> n_extension n"
  proof -
    have "valid_number (n\<lparr>n_extension := c\<rparr>)"
      using assms that by (auto simp: valid_number_def)
    then show ?thesis
      using assms that by (simp add: number_str_valid)
  qed
  then show ?thesis using assms(2) by (simp add: LeelenNumber_equal_def)
qed

theorem LeelenNumber_equal_ignores_extension_witness:
  "LeelenNumber_equal (number_of_bytes ''0001-0002-1'') (number_of_bytes ''0001-0002-2'')"
proof -
  let ?n = "number_of_bytes ''0001-0002-1''"
  have "valid_number ?n" "n_sep2 ?n \<noteq> NUL" "?n\<lparr>n_extension := CHR ''2''\<rparr> = number_of_bytes ''0001-0002-2''"
    by (simp_all add: valid_number_def number_of_bytes_def digits4_def rd_def at_def isdigit_def
        numeral_eq_Suc)
  then show ?thesis using LeelenNumber_equal_ignores_extension [of ?n "CHR ''2''"] by simp
qed

text \<open>Parsing a number without an extension into an object whose extension byte is not zero
  leaves that byte, and \<open>LeelenNumber_has_extension\<close> then claims an extension that the string
  does not have; the packed forms use the stale byte.\<close>

theorem LeelenNumber_init_stale_extension:
  assumes "LeelenNumber_init dest src base = Inr n" and "n_sep2 n = NUL"
  shows "n_extension n = n_extension dest \<and>
    LeelenNumber_has_extension n = (n_extension dest \<noteq> NUL)"
proof -
  have store: "n_sep2 m = NUL \<Longrightarrow> n_extension m = n_extension dest" if "m = init_store dest b r e" for m b r e
    using that by (auto simp: init_store_def Let_def split: if_splits)
  have "\<exists>b r e. n = init_store dest b r e"
    using assms(1)
    by (auto simp: LeelenNumber_init_def init_block_room_def init_room_def Let_def
        split: if_splits sum.splits list.splits option.splits)
  then have "n_extension n = n_extension dest" using store assms(2) by blast
  then show ?thesis using assms(2) by (simp add: LeelenNumber_has_extension_def)
qed

theorem LeelenNumber_init_stale_extension_witness:
  "\<exists>n. LeelenNumber_init (number_of_bytes ''0001-0002-1'') ''0003-0004'' None = Inr n \<and>
     number_str n = ''0003-0004'' \<and> LeelenNumber_has_extension n"
proof -
  let ?d = "number_of_bytes ''0001-0002-1''"
  have "LeelenNumber_init ?d ''0003-0004'' None
      = Inr (store_spec ?d (''0003'', ''0004'', None))"
    using init_refines [of None ?d "''0003-0004''"]
    by (simp add: number_spec_def cstr_Cons isdigit_def pad4_def)
  moreover have "n_sep2 (store_spec ?d (''0003'', ''0004'', None)) = NUL"
    "number_str (store_spec ?d (''0003'', ''0004'', None)) = ''0003-0004''"
    "n_extension ?d = CHR ''1''"
    by (simp_all add: store_spec_def init_store_def number_str_def number_bytes_def cstr_Cons
        number_of_bytes_def at_def)
  ultimately show ?thesis
    using LeelenNumber_init_stale_extension [of ?d "''0003-0004''" None] by auto
qed

text \<open>Two numbers that are packed into the same 32 bits are printed in the same way.\<close>

theorem LeelenNumber_toint_distinguishes:
  assumes "valid_number a" and "n_sep2 a = NUL \<longrightarrow> n_extension a = NUL" and "valid_number b"
    and "n_sep2 b = NUL \<longrightarrow> n_extension b = NUL" and "LeelenNumber_toint a = LeelenNumber_toint b"
  shows "number_str a = number_str b"
  using packed_number.enc_distinguishes assms by blast

end
