(* ===== verification/Address.thy ===== *)
theory Address
  imports Prelude
begin

text \<open>
  \<^verbatim>\<open>inet46i/endian.h\<close>, \<^verbatim>\<open>inet46i/in46.h\<close> and the inline part of
  \<^verbatim>\<open>inet46i/sockaddr46.h\<close>: IPv4 and IPv6 addresses, their conversion into each other, and
  socket addresses.

  Words are the raw memory words of a little-endian machine, so the byte order macros are
  real byte swaps. An address of 16 bytes is \<open>In6 w0 w1 w2 w3\<close>; an IPv4 address lies in the
  word that the code reads: \<open>w0\<close> behind a pointer to an \<open>in_addr\<close>, \<open>w3\<close> inside \<open>in64_addr\<close>.
  \<open>sockaddr_in46\<close> is the union of \<open>sockaddr_in\<close> and \<open>sockaddr_in6\<close>: the field \<open>sin_addr\<close> is the
  word at offset 4, which IPv6 uses as its flow label. A host pointer is the 16 bytes it points
  to (\<open>sockaddr_addr\<close>), so reading an IPv6 address behind a pointer to an IPv4 one runs into the
  bytes that follow, as it does in C.
\<close>

unbundle bit_operations_syntax

section \<open>endian.h\<close>

definition move_byte16 :: "u16 \<Rightarrow> nat \<Rightarrow> nat \<Rightarrow> u16" where
  "move_byte16 x from to = push_bit (to * 8) (drop_bit (from * 8) x AND 0xff)"

definition move_byte32 :: "u32 \<Rightarrow> nat \<Rightarrow> nat \<Rightarrow> u32" where
  "move_byte32 x from to = push_bit (to * 8) (drop_bit (from * 8) x AND 0xff)"

definition lhtons :: "u16 \<Rightarrow> u16" where
  "lhtons x = move_byte16 x 0 1 OR move_byte16 x 1 0"

definition lhtonl :: "u32 \<Rightarrow> u32" where
  "lhtonl x = move_byte32 x 0 3 OR move_byte32 x 1 2 OR move_byte32 x 2 1 OR move_byte32 x 3 0"

abbreviation htons :: "u16 \<Rightarrow> u16" where
  "htons \<equiv> lhtons"

abbreviation ntohs :: "u16 \<Rightarrow> u16" where
  "ntohs \<equiv> lhtons"

lemma and_ff: "x AND 0xff = take_bit 8 (x :: u16)" "y AND 0xff = take_bit 8 (y :: u32)"
  by (simp_all add: take_bit_eq_mask mask_eq_exp_minus_1)

lemma bit_lhtons:
  "n < 8 \<Longrightarrow> bit (lhtons x) n = bit x (n + 8)"
  "8 \<le> n \<Longrightarrow> n < 16 \<Longrightarrow> bit (lhtons x) n = bit x (n - 8)"
  by (auto simp: lhtons_def move_byte16_def and_ff bit_simps ac_simps)

lemma bit_lhtonl:
  "n < 8 \<Longrightarrow> bit (lhtonl x) n = bit x (n + 24)"
  "8 \<le> n \<Longrightarrow> n < 16 \<Longrightarrow> bit (lhtonl x) n = bit x (n + 8)"
  "16 \<le> n \<Longrightarrow> n < 24 \<Longrightarrow> bit (lhtonl x) n = bit x (n - 8)"
  "24 \<le> n \<Longrightarrow> n < 32 \<Longrightarrow> bit (lhtonl x) n = bit x (n - 24)"
  by (auto simp: lhtonl_def move_byte32_def and_ff bit_simps ac_simps)

lemma lhtons_lhtons [simp]: "lhtons (lhtons x) = x"
proof (rule bit_word_eqI)
  fix n assume "n < LENGTH(16)"
  then consider "n < 8" | "8 \<le> n" "n < 16" by fastforce
  then show "bit (lhtons (lhtons x)) n = bit x n"
    by cases (simp_all add: bit_lhtons)
qed

lemma byte_cases32:
  assumes "n < LENGTH(32)"
  obtains "n < 8" | "8 \<le> n" "n < 16" | "16 \<le> n" "n < 24" | "24 \<le> n" "n < 32"
  using assms by fastforce

lemma lhtonl_lhtonl [simp]: "lhtonl (lhtonl x) = x"
proof (rule bit_word_eqI)
  fix n assume "n < LENGTH(32)"
  then show "bit (lhtonl (lhtonl x)) n = bit x n"
    by (cases rule: byte_cases32) (simp_all add: bit_lhtonl)
qed

lemma lhtonl_inject [simp]: "lhtonl x = lhtonl y \<longleftrightarrow> x = y"
  by (metis lhtonl_lhtonl)

lemma lhtons_inject [simp]: "lhtons x = lhtons y \<longleftrightarrow> x = y"
  by (metis lhtons_lhtons)

lemma lhtonl_and: "lhtonl (x AND y) = lhtonl x AND lhtonl y"
proof (rule bit_word_eqI)
  fix n assume "n < LENGTH(32)"
  then show "bit (lhtonl (x AND y)) n = bit (lhtonl x AND lhtonl y) n"
    by (cases rule: byte_cases32) (simp_all add: bit_lhtonl bit_and_iff)
qed

lemma lhtonl_0 [simp]: "lhtonl 0 = 0"
  by (simp add: lhtonl_def move_byte32_def)

lemma lhtonl_eq_0 [simp]: "lhtonl x = 0 \<longleftrightarrow> x = 0"
  by (metis lhtonl_lhtonl lhtonl_0)

section \<open>in46.h: addresses\<close>

datatype af = AF_UNSPEC | AF_LOCAL | AF_INET | AF_INET6 | AF_OTHER u16

datatype in6_addr = In6 (s6_0: u32) (s6_1: u32) (s6_2: u32) (s6_3: u32)

record in64_addr =
  addr6 :: in6_addr
  scope_id :: u32

definition in6addr_any :: in6_addr where
  "in6addr_any = In6 0 0 0 0"

definition INADDR_LOOPBACK :: u32 where
  "INADDR_LOOPBACK = 0x7f000001"

definition IN_CLASSA_NET :: u32 where
  "IN_CLASSA_NET = 0xff000000"

text \<open>The tests of \<open>netinet/in.h\<close>.\<close>

definition IN6_IS_ADDR_UNSPECIFIED :: "in6_addr \<Rightarrow> bool" where
  "IN6_IS_ADDR_UNSPECIFIED a \<longleftrightarrow> a = In6 0 0 0 0"

definition IN6_IS_ADDR_LOOPBACK :: "in6_addr \<Rightarrow> bool" where
  "IN6_IS_ADDR_LOOPBACK a \<longleftrightarrow> a = In6 0 0 0 (lhtonl 1)"

definition IN6_IS_ADDR_V4MAPPED :: "in6_addr \<Rightarrow> bool" where
  "IN6_IS_ADDR_V4MAPPED a \<longleftrightarrow> s6_0 a = 0 \<and> s6_1 a = 0 \<and> s6_2 a = lhtonl 0xffff"

definition IN6_IS_ADDR_V4COMPAT :: "in6_addr \<Rightarrow> bool" where
  "IN6_IS_ADDR_V4COMPAT a \<longleftrightarrow> s6_0 a = 0 \<and> s6_1 a = 0 \<and> s6_2 a = 0 \<and> 1 < lhtonl (s6_3 a)"

definition IN6_IS_ADDR_LINKLOCAL :: "in6_addr \<Rightarrow> bool" where
  "IN6_IS_ADDR_LINKLOCAL a \<longleftrightarrow> s6_0 a AND lhtonl 0xffc00000 = lhtonl 0xfe800000"

definition IN6_IS_ADDR_SITELOCAL :: "in6_addr \<Rightarrow> bool" where
  "IN6_IS_ADDR_SITELOCAL a \<longleftrightarrow> s6_0 a AND lhtonl 0xffc00000 = lhtonl 0xfec00000"

definition IN6_IS_ADDR_MULTICAST :: "in6_addr \<Rightarrow> bool" where
  "IN6_IS_ADDR_MULTICAST a \<longleftrightarrow> s6_0 a AND 0xff = 0xff"

text \<open>The macros and inline functions of the file itself.\<close>

definition IN6_SET_ADDR_V4MAPPED :: "in6_addr \<Rightarrow> in6_addr" where
  "IN6_SET_ADDR_V4MAPPED a = In6 0 0 (lhtonl 0xffff) (s6_3 a)"

definition IN6_IS_ADDR_V4OK :: "in6_addr \<Rightarrow> bool" where
  "IN6_IS_ADDR_V4OK a \<longleftrightarrow>
     s6_0 a = 0 \<and> s6_1 a = 0 \<and> (s6_2 a = 0 \<or> s6_2 a = lhtonl 0xffff)"

definition IN64_IS_ADDR_UNSPECIFIED :: "in6_addr \<Rightarrow> bool" where
  "IN64_IS_ADDR_UNSPECIFIED a \<longleftrightarrow> IN6_IS_ADDR_V4OK a \<and> s6_3 a = 0"

definition in6_fix_mapped :: "in6_addr \<Rightarrow> int \<times> in6_addr" where
  "in6_fix_mapped a =
     (if s6_3 a AND lhtonl IN_CLASSA_NET = lhtonl (INADDR_LOOPBACK AND IN_CLASSA_NET)
      then (1, In6 (s6_0 a) (s6_1 a) 0 (lhtonl 1)) else (0, a))"

definition in6_normalize :: "in6_addr \<Rightarrow> int \<times> in6_addr" where
  "in6_normalize a =
     (if IN6_IS_ADDR_V4COMPAT a
      then in6_fix_mapped (In6 (s6_0 a) (s6_1 a) (lhtonl 0xffff) (s6_3 a))
      else if IN6_IS_ADDR_V4MAPPED a then
        (if s6_3 a = 0 then (1, In6 (s6_0 a) (s6_1 a) 0 (s6_3 a)) else in6_fix_mapped a)
      else (0, a))"

definition in_to6 :: "in6_addr \<Rightarrow> int \<times> in6_addr" where
  "in_to6 a = (0, IN6_SET_ADDR_V4MAPPED (In6 (s6_0 a) (s6_1 a) (s6_2 a) (s6_0 a)))"

definition in6_to4 :: "in6_addr \<Rightarrow> int \<times> in6_addr" where
  "in6_to4 a =
     (if IN6_IS_ADDR_LOOPBACK a then (0, In6 (lhtonl INADDR_LOOPBACK) (s6_1 a) (s6_2 a) (s6_3 a))
      else if IN6_IS_ADDR_V4OK a then (0, In6 (s6_3 a) (s6_1 a) (s6_2 a) (s6_3 a))
      else (1, a))"

definition in46_is_addr_unspecified :: "af \<Rightarrow> in6_addr \<Rightarrow> bool" where
  "in46_is_addr_unspecified f a =
     (if f = AF_INET then s6_0 a = 0 else IN6_IS_ADDR_UNSPECIFIED a)"

definition in64_set :: "af \<Rightarrow> in6_addr \<Rightarrow> in6_addr \<Rightarrow> int \<times> in6_addr" where
  "in64_set f dst src =
     (case f of
        AF_INET \<Rightarrow> (0, IN6_SET_ADDR_V4MAPPED (In6 (s6_0 dst) (s6_1 dst) (s6_2 dst) (s6_0 src)))
      | AF_INET6 \<Rightarrow> (0, In6 (s6_0 src) (s6_1 src) (s6_2 src) (s6_3 src))
      | _ \<Rightarrow> (- 1, dst))"

text \<open>Behind the pointer to the IPv4 part only one word is ever read; the rest is set to 0.\<close>

definition in64_get :: "af \<Rightarrow> in6_addr \<Rightarrow> in6_addr" where
  "in64_get f a = (if f = AF_INET then In6 (s6_3 a) 0 0 0 else a)"

section \<open>sockaddr46.h: socket addresses\<close>

record sockaddr_in46 =
  sa_family :: af
  sa_port :: u16
  sin_addr :: u32
  sin6_addr :: in6_addr
  sa_scope_id :: u32

definition sockaddr_zero :: sockaddr_in46 where
  "sockaddr_zero = \<lparr>sa_family = AF_UNSPEC, sa_port = 0, sin_addr = 0, sin6_addr = in6addr_any,
     sa_scope_id = 0\<rparr>"

definition sockaddr_addr :: "sockaddr_in46 \<Rightarrow> in6_addr" where
  "sockaddr_addr a =
     (if sa_family a = AF_INET
      then In6 (sin_addr a) (s6_0 (sin6_addr a)) (s6_1 (sin6_addr a)) (s6_2 (sin6_addr a))
      else sin6_addr a)"

text \<open>The port in host order and the host pointer, which is not written for another family.\<close>

definition sockaddr_get :: "sockaddr_in46 \<Rightarrow> u16 \<times> in6_addr option" where
  "sockaddr_get a =
     (case sa_family a of
        AF_INET \<Rightarrow> (ntohs (sa_port a), Some (sockaddr_addr a))
      | AF_INET6 \<Rightarrow> (ntohs (sa_port a), Some (sockaddr_addr a))
      | _ \<Rightarrow> (0, None))"

definition sockaddr_get64 :: "sockaddr_in46 \<Rightarrow> in6_addr \<Rightarrow> u16 \<times> in6_addr" where
  "sockaddr_get64 a host =
     (case sockaddr_get a of
        (port, None) \<Rightarrow> (port, host)
      | (port, Some ip) \<Rightarrow> (port, snd (in64_set (sa_family a) host ip)))"

text \<open>\<open>None\<close>: \<open>memcmp\<close> would read through a pointer that was never set.\<close>

definition sockaddr_same :: "sockaddr_in46 \<Rightarrow> sockaddr_in46 \<Rightarrow> bool option" where
  "sockaddr_same a b =
     (case (sockaddr_get a, sockaddr_get b) of ((pa, ha), (pb, hb)) \<Rightarrow>
        if pa \<noteq> pb then Some False
        else (case (ha, hb) of
                (Some x, Some y) \<Rightarrow> Some (if sa_family a = AF_INET then s6_0 x = s6_0 y else x = y)
              | _ \<Rightarrow> None))"

definition sockaddr_to6 :: "sockaddr_in46 \<Rightarrow> sockaddr_in46" where
  "sockaddr_to6 a =
     (if sa_family a = AF_INET
      then a\<lparr>sa_family := AF_INET6, sin6_addr := In6 0 0 (lhtonl 0xffff) (sin_addr a),
             sin_addr := 0, sa_scope_id := 0\<rparr>
      else a)"

definition sockaddr_to4 :: "sockaddr_in46 \<Rightarrow> sockaddr_in46 option" where
  "sockaddr_to4 a =
     (if sa_family a = AF_INET6 then
        (if \<not> IN6_IS_ADDR_V4MAPPED (sin6_addr a) then None
         else Some (a\<lparr>sa_family := AF_INET, sin_addr := s6_3 (sin6_addr a)\<rparr>))
      else Some a)"

definition sockaddr46_set ::
  "sockaddr_in46 \<Rightarrow> af \<Rightarrow> in6_addr option \<Rightarrow> u16 \<Rightarrow> sockaddr_in46 option" where
  "sockaddr46_set a f host0 port =
     (let host = (case host0 of None \<Rightarrow> in6addr_any | Some h \<Rightarrow> h)
      in case f of
           AF_INET \<Rightarrow> Some (a\<lparr>sin_addr := s6_0 host, sa_family := f, sa_port := htons port\<rparr>)
         | AF_INET6 \<Rightarrow> Some (a\<lparr>sin6_addr := host, sin_addr := 0, sa_scope_id := 0, sa_family := f,
                              sa_port := htons port\<rparr>)
         | _ \<Rightarrow> None)"

section \<open>Lemmas\<close>

lemma v4mapped_ffff [simp]: "lhtonl 0xffff \<noteq> 0"
  by simp

lemma v4mapped_set [simp]: "IN6_IS_ADDR_V4MAPPED (IN6_SET_ADDR_V4MAPPED a)"
  by (simp add: IN6_IS_ADDR_V4MAPPED_def IN6_SET_ADDR_V4MAPPED_def)

lemma in6_normalize_not_mapped_loopback:
  assumes "in6_normalize a = (r, b)" and "IN6_IS_ADDR_V4MAPPED b"
  shows "s6_3 b \<noteq> 0 \<and> s6_3 b AND lhtonl IN_CLASSA_NET \<noteq> lhtonl (INADDR_LOOPBACK AND IN_CLASSA_NET)"
  using assms
  by (auto simp: in6_normalize_def in6_fix_mapped_def IN6_IS_ADDR_V4MAPPED_def
      IN6_IS_ADDR_V4COMPAT_def split: if_splits)

section \<open>Properties\<close>

text \<open>Normalising an address is idempotent: a normalised address is never IPv4-compatible,
  never the mapped unspecified address and never a mapped loopback address, so a second pass
  leaves it as it is and reports no change.\<close>

theorem in6_normalize_idempotent:
  "in6_normalize (snd (in6_normalize a)) = (0, snd (in6_normalize a))"
  by (auto simp: in6_normalize_def in6_fix_mapped_def IN6_IS_ADDR_V4MAPPED_def
      IN6_IS_ADDR_V4COMPAT_def)

text \<open>Converting an IPv4 socket address to IPv6 and back keeps the family, the port and the
  host; and the two addresses are the same for \<open>sockaddr_get64\<close>.\<close>

theorem sockaddr_to6_to4:
  assumes "sa_family a = AF_INET"
  shows "\<exists>b. sockaddr_to4 (sockaddr_to6 a) = Some b \<and> sa_family b = AF_INET \<and>
    sa_port b = sa_port a \<and> sin_addr b = sin_addr a \<and>
    sockaddr_same a b = Some True \<and>
    sockaddr_get64 (sockaddr_to6 a) h = sockaddr_get64 a h"
  using assms
  by (simp add: sockaddr_to4_def sockaddr_to6_def IN6_IS_ADDR_V4MAPPED_def sockaddr_same_def
      sockaddr_get_def sockaddr_addr_def sockaddr_get64_def in64_set_def IN6_SET_ADDR_V4MAPPED_def)

theorem sockaddr_to6_to4_witness:
  "\<exists>b. sockaddr_to4 (sockaddr_to6 (sockaddr_zero\<lparr>sa_family := AF_INET, sa_port := 5, sin_addr := 7\<rparr>))
     = Some b \<and> sin_addr b = 7"
  using sockaddr_to6_to4 [of "sockaddr_zero\<lparr>sa_family := AF_INET, sa_port := 5, sin_addr := 7\<rparr>"]
  by auto

lemma in6_normalize_reports_compat:
  "in6_normalize (In6 0 0 0 (lhtonl 0x0a000001)) = (0, In6 0 0 (lhtonl 0xffff) (lhtonl 0x0a000001))"
  by (simp add: in6_normalize_def in6_fix_mapped_def IN6_IS_ADDR_V4COMPAT_def IN_CLASSA_NET_def
      INADDR_LOOPBACK_def flip: lhtonl_and)

end
