(* ===== verification/Config.thy ===== *)
theory Config
  imports Number Address
begin

text \<open>
  \<^verbatim>\<open>leelen/config.h\<close>, \<^verbatim>\<open>leelen/config.c\<close>, \<^verbatim>\<open>leelen/family.h\<close> and the
  constants of \<^verbatim>\<open>leelen/voip/protocol.h\<close>: the device types, the configuration record and
  its default values. Ports of the configuration are in host byte order. \<open>desc\<close> is \<open>None\<close>
  for the null pointer.
\<close>

section \<open>Device types\<close>

datatype LeelenDeviceType =
  LEELEN_DEVICE_UNKNOWN | LEELEN_DEVICE_BASIC | LEELEN_DEVICE_THIN | LEELEN_DEVICE_DOORWAY_3_5 |
  LEELEN_DEVICE_DOORWAY_10 | LEELEN_DEVICE_MANCENTER | LEELEN_DEVICE_DOORWAY_8 |
  LEELEN_DEVICE_IP_SWITCH | LEELEN_DEVICE_DOORWAY_4 | LEELEN_DEVICE_DOORWAY_16

fun device_code :: "LeelenDeviceType \<Rightarrow> u32" where
  "device_code LEELEN_DEVICE_UNKNOWN = 0"
| "device_code LEELEN_DEVICE_BASIC = push_bit 0 1"
| "device_code LEELEN_DEVICE_THIN = push_bit 1 1"
| "device_code LEELEN_DEVICE_DOORWAY_3_5 = push_bit 2 1"
| "device_code LEELEN_DEVICE_DOORWAY_10 = push_bit 3 1"
| "device_code LEELEN_DEVICE_MANCENTER = push_bit 4 1"
| "device_code LEELEN_DEVICE_DOORWAY_8 = push_bit 5 1"
| "device_code LEELEN_DEVICE_IP_SWITCH = push_bit 6 1"
| "device_code LEELEN_DEVICE_DOORWAY_4 = push_bit 7 1"
| "device_code LEELEN_DEVICE_DOORWAY_16 = push_bit 8 1"

definition LEELEN_DEVICE_IS_VALID :: "u32 \<Rightarrow> bool" where
  "LEELEN_DEVICE_IS_VALID x \<longleftrightarrow> length (filter (bit x) [0..<32]) = 1"

definition LEELEN_DEVICE_IS_DOORWAY :: "u32 \<Rightarrow> bool" where
  "LEELEN_DEVICE_IS_DOORWAY x \<longleftrightarrow>
     x AND (device_code LEELEN_DEVICE_DOORWAY_3_5 OR device_code LEELEN_DEVICE_DOORWAY_10 OR
            device_code LEELEN_DEVICE_DOORWAY_8 OR device_code LEELEN_DEVICE_DOORWAY_4 OR
            device_code LEELEN_DEVICE_DOORWAY_16) \<noteq> 0"

definition LEELEN_DEVICE_IS_INDOOR :: "u32 \<Rightarrow> bool" where
  "LEELEN_DEVICE_IS_INDOOR x \<longleftrightarrow>
     x AND (device_code LEELEN_DEVICE_BASIC OR device_code LEELEN_DEVICE_THIN) \<noteq> 0"

text \<open>What the \<open>unsigned char\<close> fields of the program keep of a device type.\<close>

definition device_byte :: "LeelenDeviceType \<Rightarrow> u8" where
  "device_byte t = ucast (device_code t)"

section \<open>Constants\<close>

definition LEELEN_MAX_MESSAGE_LENGTH :: u16 where
  "LEELEN_MAX_MESSAGE_LENGTH = 1200"

definition LEELEN_DISCOVERY_PORT :: u16 where
  "LEELEN_DISCOVERY_PORT = 6789"

definition LEELEN_VOIP_PORT :: u16 where
  "LEELEN_VOIP_PORT = 5060"

definition LEELEN_CONRTOL_PORT :: u16 where
  "LEELEN_CONRTOL_PORT = 17722"

definition LEELEN_AUDIO_PORT :: u16 where
  "LEELEN_AUDIO_PORT = 7078"

definition LEELEN_VIDEO_PORT :: u16 where
  "LEELEN_VIDEO_PORT = 9078"

definition LEELEN_VOIP_TIMEOUT :: u32 where
  "LEELEN_VOIP_TIMEOUT = 500"

definition LEELEN_VOIP_DURATION :: u32 where
  "LEELEN_VOIP_DURATION = 10"

section \<open>The configuration\<close>

record LeelenConfig =
  c_addr :: sockaddr_in46
  c_desc :: "char list option"
  c_number :: LeelenNumber
  c_type :: u8
  c_discovery :: u16
  c_voip :: u16
  c_control :: u16
  c_discovery_src :: u16
  c_voip_src :: u16
  c_control_src :: u16
  c_mtu :: u16
  c_voip_timeout :: u32
  c_duration :: u32
  c_audio :: u16
  c_video :: u16

text \<open>\<open>self->number.str[0] = '\0'\<close> and, in general, writing a C string into the union.\<close>

definition number_set_str :: "LeelenNumber \<Rightarrow> char list \<Rightarrow> LeelenNumber" where
  "number_set_str n s = number_of_bytes (poke (number_bytes n) 0 (s @ [NUL]))"

definition LeelenConfig_init :: "LeelenConfig \<Rightarrow> int \<times> LeelenConfig" where
  "LeelenConfig_init self =
     (0, self\<lparr>c_addr := sockaddr_zero, c_desc := None,
              c_number := number_set_str (c_number self) [],
              c_type := device_byte LEELEN_DEVICE_BASIC,
              c_discovery := LEELEN_DISCOVERY_PORT, c_voip := LEELEN_VOIP_PORT,
              c_control := LEELEN_CONRTOL_PORT,
              c_discovery_src := LEELEN_DISCOVERY_PORT, c_voip_src := LEELEN_VOIP_PORT,
              c_control_src := LEELEN_CONRTOL_PORT,
              c_mtu := LEELEN_MAX_MESSAGE_LENGTH,
              c_voip_timeout := LEELEN_VOIP_TIMEOUT, c_duration := LEELEN_VOIP_DURATION,
              c_audio := LEELEN_AUDIO_PORT, c_video := LEELEN_VIDEO_PORT\<rparr>)"

definition sample_config :: LeelenConfig where
  "sample_config = snd (LeelenConfig_init
     \<lparr>c_addr = sockaddr_zero, c_desc = None, c_number = sample_base, c_type = 0, c_discovery = 0,
      c_voip = 0, c_control = 0, c_discovery_src = 0, c_voip_src = 0, c_control_src = 0, c_mtu = 0,
      c_voip_timeout = 0, c_duration = 0, c_audio = 0, c_video = 0\<rparr>)"

section \<open>Lemmas\<close>

lemma length_number_bytes: "wf_layout n \<Longrightarrow> length (number_bytes n) = 12"
  by (simp add: wf_layout_def number_bytes_def)

lemma number_bytes_of_bytes: "length bs = 12 \<Longrightarrow> number_bytes (number_of_bytes bs) = bs"
  by (rule nth_equalityI)
    (auto simp: number_bytes_def number_of_bytes_def rd_def at_def nth_append nth_Cons' upt_rec
      numeral_eq_Suc less_Suc_eq)

lemma wf_layout_of_bytes [simp]: "wf_layout (number_of_bytes bs)"
  by (simp add: wf_layout_def number_of_bytes_def)

lemma number_str_set:
  assumes "wf_layout n" and "length s \<le> 11" and "NUL \<notin> set s"
  shows "number_str (number_set_str n s) = s"
proof -
  have "length (number_bytes n) = 12" using assms(1) by (rule length_number_bytes)
  then have "number_bytes (number_set_str n s) = s @ NUL # drop (Suc (length s)) (number_bytes n)"
    using assms(2) by (simp add: number_set_str_def number_bytes_of_bytes poke_fits)
  then show ?thesis
    using assms(3) by (simp add: number_str_def cstr_append)
qed

lemma number_set_str_layout [simp]: "wf_layout (number_set_str n s)"
  by (simp add: number_set_str_def)

text \<open>The first character of the string decides whether a number is unset.\<close>

lemma number_str_empty: "wf_layout n \<Longrightarrow> number_str n = [] \<longleftrightarrow> at (number_bytes n) 0 = NUL"
  by (cases "number_bytes n") (auto simp: number_str_def cstr_Cons length_number_bytes)

lemma wf_layout_bytes_ne: "wf_layout n \<Longrightarrow> number_bytes n \<noteq> []"
  using length_number_bytes by force

section \<open>Properties\<close>

text \<open>A type is a valid device type exactly when one bit of it is set, so every type of the
  enumeration but the unknown one is valid; the doorway types and the indoor types are disjoint.
  All of them but the last survive in the \<open>unsigned char\<close> in which the program stores a type:
  \<open>LEELEN_DEVICE_DOORWAY_16\<close> is \<open>1 << 8\<close> and is stored as \<open>LEELEN_DEVICE_UNKNOWN\<close>.\<close>

theorem device_types:
  "LEELEN_DEVICE_IS_VALID (device_code t) = (t \<noteq> LEELEN_DEVICE_UNKNOWN) \<and>
   \<not> (LEELEN_DEVICE_IS_DOORWAY (device_code t) \<and> LEELEN_DEVICE_IS_INDOOR (device_code t)) \<and>
   (ucast (device_byte t) = device_code t) = (t \<noteq> LEELEN_DEVICE_DOORWAY_16) \<and>
   device_byte LEELEN_DEVICE_DOORWAY_16 = device_byte LEELEN_DEVICE_UNKNOWN"
  by (cases t)
    (simp_all add: LEELEN_DEVICE_IS_VALID_def LEELEN_DEVICE_IS_DOORWAY_def
      LEELEN_DEVICE_IS_INDOOR_def device_byte_def upt_rec bit_simps)

end
