(* ===== verification/World.thy ===== *)
theory World
  imports Prelude
begin

text \<open>
  The environment of the program: every call of the source whose result the source does not
  determine (an allocation, a system call, a random number, the clock) draws from an oracle
  and advances a counter, so that a run is a function of the oracle. \<open>sys\<close> is the success
  of the next fallible call, \<open>w_ok\<close> the oracle; the operations of the components thread the
  world through their calls in the order of the source, and a datagram that is handed to the
  kernel is appended to \<open>w_sent\<close>.
\<close>

record 'p world =
  w_tick :: nat
  w_ok :: "nat \<Rightarrow> bool"
  w_rnd :: "nat \<Rightarrow> u32"
  w_now :: "nat \<Rightarrow> int \<times> int"
  w_sent :: "'p list"

definition step :: "'p world \<Rightarrow> 'p world" where
  "step w = w\<lparr>w_tick := Suc (w_tick w)\<rparr>"

definition sys :: "'p world \<Rightarrow> bool \<times> 'p world" where
  "sys w = (w_ok w (w_tick w), step w)"

definition sys_rand :: "'p world \<Rightarrow> u32 \<times> 'p world" where
  "sys_rand w = (w_rnd w (w_tick w), step w)"

definition sys_time :: "'p world \<Rightarrow> (int \<times> int) \<times> 'p world" where
  "sys_time w = (w_now w (w_tick w), step w)"

definition sys_send :: "'p \<Rightarrow> 'p world \<Rightarrow> bool \<times> 'p world" where
  "sys_send p w =
     (if w_ok w (w_tick w) then (True, (step w)\<lparr>w_sent := w_sent w @ [p]\<rparr>)
      else (False, step w))"

text \<open>A world in which nothing fails: the oracle of the examples.\<close>

definition calm :: "'p world" where
  "calm = \<lparr>w_tick = 0, w_ok = (\<lambda>_. True), w_rnd = (\<lambda>i. word_of_nat (i + 7)),
           w_now = (\<lambda>i. (int i, 0)), w_sent = []\<rparr>"

named_theorems world \<open>how the calls of the environment change the world\<close>

lemma step_fields [world, simp]:
  "w_tick (step w) = Suc (w_tick w)" "w_ok (step w) = w_ok w" "w_rnd (step w) = w_rnd w"
  "w_now (step w) = w_now w" "w_sent (step w) = w_sent w"
  by (simp_all add: step_def)

lemma calm_fields [world, simp]:
  "w_ok calm i" "w_sent calm = []" "w_tick calm = 0" "w_now calm i = (int i, 0)"
  "w_rnd calm i = word_of_nat (i + 7)"
  by (simp_all add: calm_def)

lemma sys_world [world]: "sys w = (b, w') \<Longrightarrow> w' = step w \<and> b = w_ok w (w_tick w)"
  by (auto simp: sys_def)

lemma sys_fields [world, simp]:
  "fst (sys w) = w_ok w (w_tick w)" "snd (sys w) = step w"
  by (simp_all add: sys_def)

lemma sys_send_sent [world]:
  "sys_send p w = (b, w') \<Longrightarrow> w_sent w' = w_sent w @ (if b then [p] else [])"
  by (auto simp: sys_send_def split: if_splits)

text \<open>The oracles never change.\<close>

definition same_env :: "'p world \<Rightarrow> 'p world \<Rightarrow> bool" where
  "same_env w w' \<longleftrightarrow> w_ok w' = w_ok w \<and> w_rnd w' = w_rnd w \<and> w_now w' = w_now w"

lemma same_env_refl [world, simp]: "same_env w w"
  by (simp add: same_env_def)

lemma same_env_trans [world, trans]: "same_env w v \<Longrightarrow> same_env v u \<Longrightarrow> same_env w u"
  by (simp add: same_env_def)

lemma same_env_step [world, simp]: "same_env w (step w)"
  by (simp add: same_env_def)

lemma sys_time_step [world, simp]: "sys_time w = (w_now w (w_tick w), step w)"
  by (simp add: sys_time_def)

lemma sys_send_env [world]: "sys_send p w = (ok, w') \<Longrightarrow> same_env w w'"
  by (auto simp: sys_send_def same_env_def split: if_splits)

section \<open>Runs\<close>

text \<open>The states that a component reaches from its initial ones, for a step relation labelled
  with the operation that was called; and the interface of an invariant.\<close>

inductive reach :: "('s \<Rightarrow> bool) \<Rightarrow> ('s \<Rightarrow> 'l \<Rightarrow> 's \<Rightarrow> bool) \<Rightarrow> 's \<Rightarrow> bool"
  for initial :: "'s \<Rightarrow> bool" and transition :: "'s \<Rightarrow> 'l \<Rightarrow> 's \<Rightarrow> bool"
where
  start: "initial s \<Longrightarrow> reach initial transition s"
| run: "reach initial transition s \<Longrightarrow> transition s l s' \<Longrightarrow> reach initial transition s'"

locale invariant_system =
  fixes initial :: "'s \<Rightarrow> bool"
    and transition :: "'s \<Rightarrow> 'l \<Rightarrow> 's \<Rightarrow> bool"
    and inv :: "'s \<Rightarrow> bool"
  assumes initial_inv: "initial s \<Longrightarrow> inv s"
    and transition_inv: "inv s \<Longrightarrow> transition s l s' \<Longrightarrow> inv s'"
begin

lemma reach_inv: "reach initial transition s \<Longrightarrow> inv s"
  by (induction rule: reach.induct) (auto intro: initial_inv transition_inv)

lemma reach_inv_step:
  "reach initial transition s \<Longrightarrow> transition s l s' \<Longrightarrow> inv s \<and> inv s'"
  using reach_inv transition_inv by blast

end

end
