(* ===== verification/Array.thy ===== *)
theory Array
  imports World
begin

text \<open>
  \<^verbatim>\<open>utils/array.h\<close>: NULL-terminated vectors of pointers, which hold the dialogs, the
  sessions, the hosts, the formats of a message and the advertised reports.

  \<open>vec\<close> is the allocated memory, the slot of the terminator included, and \<open>plen\<close> is
  \<open>*plen\<close>; the null pointer that a vector starts from is \<open>vec = []\<close>. A slot that
  \<open>realloc\<close> added and nobody wrote is \<open>Junk\<close>: it does not compare equal to NULL.
  A pointer is a value of \<open>'a\<close>. Every \<open>realloc\<close>, \<open>malloc\<close> and \<open>strdup\<close> draws its success
  from the world.
\<close>

section \<open>Vectors\<close>

datatype 'a slot = Junk | Null | Ptr 'a

record 'a ptrv =
  vec :: "'a slot list"
  plen :: nat

definition ptrv_empty :: "'a ptrv" where
  "ptrv_empty = \<lparr>vec = [], plen = 0\<rparr>"

definition slot_at :: "'a slot list \<Rightarrow> nat \<Rightarrow> 'a slot" where
  "slot_at arr i = (if i < length arr then arr ! i else Junk)"

text \<open>\<open>None\<close>: the loop runs past the end of the allocation.\<close>

fun ptrvlen :: "'a slot list \<Rightarrow> nat option" where
  "ptrvlen [] = None"
| "ptrvlen (x # arr) = (if x = Null then Some 0 else map_option Suc (ptrvlen arr))"

fun find_from :: "'a slot list \<Rightarrow> nat \<Rightarrow> nat \<Rightarrow> 'a slot \<Rightarrow> int" where
  "find_from arr i 0 ele = - 1"
| "find_from arr i (Suc n) ele =
     (if slot_at arr i = ele then int i else find_from arr (Suc i) n ele)"

definition ptrvfind :: "'a ptrv \<Rightarrow> 'a slot \<Rightarrow> int" where
  "ptrvfind v ele = find_from (vec v) 0 (plen v) ele"

definition ptrvrealloc :: "'a ptrv \<Rightarrow> nat \<Rightarrow> 'p world \<Rightarrow> int \<times> 'a ptrv \<times> 'p world" where
  "ptrvrealloc v n w =
     (let (ok, w) = sys w in
      if \<not> ok then (- 1, v, w)
      else (int n, \<lparr>vec = take n (vec v) @ replicate (n - length (vec v)) Junk @ [Null],
                    plen = n\<rparr>, w))"

definition ptrvgrow :: "'a ptrv \<Rightarrow> nat \<Rightarrow> 'p world \<Rightarrow> int \<times> 'a ptrv \<times> 'p world" where
  "ptrvgrow v diff w = ptrvrealloc v (plen v + diff) w"

text \<open>The loop of \<open>ptrvshrink\<close>, which looks at \<open>arr[new_len]\<close>.\<close>

fun shrink_to :: "'a slot list \<Rightarrow> nat \<Rightarrow> nat" where
  "shrink_to arr 0 = 0"
| "shrink_to arr (Suc n) = (if slot_at arr (Suc n) = Null then shrink_to arr n else Suc n)"

definition ptrvshrink :: "'a ptrv \<Rightarrow> 'p world \<Rightarrow> int \<times> 'a ptrv \<times> 'p world" where
  "ptrvshrink v w =
     (if \<not> (0 < plen v \<and> slot_at (vec v) (plen v) = Null) then (int (plen v), v, w)
      else ptrvrealloc v (shrink_to (vec v) (plen v - 1)) w)"

definition ptrvpush :: "'a ptrv \<Rightarrow> 'a \<Rightarrow> 'p world \<Rightarrow> int \<times> 'a ptrv \<times> 'p world" where
  "ptrvpush v ele w =
     (let i = plen v; (r, v, w) = ptrvgrow v 1 w in
      if r < 0 then (- 1, v, w) else (int i, v\<lparr>vec := (vec v)[i := Ptr ele]\<rparr>, w))"

definition strvpush ::
  "char list ptrv \<Rightarrow> char list \<Rightarrow> 'p world \<Rightarrow> int \<times> char list ptrv \<times> 'p world" where
  "strvpush v str w =
     (let (ok, w) = sys w in if \<not> ok then (- 1, v, w) else ptrvpush v str w)"

fun first_null :: "'a slot list \<Rightarrow> nat \<Rightarrow> nat \<Rightarrow> nat option" where
  "first_null arr i 0 = None"
| "first_null arr i (Suc n) =
     (if slot_at arr i = Null then Some i else first_null arr (Suc i) n)"

definition ptrvreserve :: "'a ptrv \<Rightarrow> 'p world \<Rightarrow> int \<times> 'a ptrv \<times> 'p world" where
  "ptrvreserve v w =
     (case first_null (vec v) 0 (plen v) of
        Some i \<Rightarrow> (int i, v, w)
      | None \<Rightarrow> (let i = plen v; (r, v, w) = ptrvgrow v 1 w in
                  if r < 0 then (- 1, v, w) else (int i, v, w)))"

definition ptrvinsert :: "'a ptrv \<Rightarrow> 'a \<Rightarrow> 'p world \<Rightarrow> int \<times> 'a ptrv \<times> 'p world" where
  "ptrvinsert v ele w =
     (let (i, v, w) = ptrvreserve v w in
      if 0 \<le> i then (i, v\<lparr>vec := (vec v)[nat i := Ptr ele]\<rparr>, w) else (i, v, w))"

text \<open>\<open>ele\<close> is the pointer that a successful \<open>malloc\<close> returns.\<close>

definition ptrvcreate :: "'a ptrv \<Rightarrow> 'a \<Rightarrow> 'p world \<Rightarrow> int \<times> 'a ptrv \<times> 'p world" where
  "ptrvcreate v ele w =
     (let (ok, w) = sys w in
      if \<not> ok then (- 1, v, w)
      else let (i, v, w) = ptrvinsert v ele w in
           if 0 \<le> i then (i, v, w) else (- 1, v, w))"

definition ptrvsteal :: "'a ptrv \<Rightarrow> int \<Rightarrow> 'p world \<Rightarrow> 'a ptrv \<times> 'p world" where
  "ptrvsteal v i w =
     (if i < 0 then (v, w)
      else let v = v\<lparr>vec := (vec v)[nat i := Null]\<rparr> in
           if i = int (plen v) - 1 then snd (ptrvshrink v w) else (v, w))"

definition ptrvtrysteal :: "'a ptrv \<Rightarrow> int \<Rightarrow> 'p world \<Rightarrow> 'a ptrv \<times> 'p world" where
  "ptrvtrysteal v i w = (if i < int (plen v) then ptrvsteal v i w else (v, w))"

definition ptrvtake :: "'a ptrv \<Rightarrow> 'a \<Rightarrow> 'p world \<Rightarrow> 'a ptrv \<times> 'p world" where
  "ptrvtake v ele w = ptrvsteal v (ptrvfind v (Ptr ele)) w"

text \<open>The pointers that the destructors pass to \<open>free\<close> (and to the element destroyer), in order.
  \<open>strvfree\<close> runs up to the terminator; \<open>None\<close>: it runs past the allocation.\<close>

fun strvfree :: "'a slot list \<Rightarrow> 'a slot list option" where
  "strvfree [] = None"
| "strvfree (x # arr) = (if x = Null then Some [] else map_option ((#) x) (strvfree arr))"

definition ptrvfree :: "'a ptrv \<Rightarrow> 'a slot list" where
  "ptrvfree v = filter (\<lambda>x. x \<noteq> Null) (map (slot_at (vec v)) [0..<plen v])"

section \<open>Invariant\<close>

definition wf_ptrv :: "'a ptrv \<Rightarrow> bool" where
  "wf_ptrv v \<longleftrightarrow>
     (vec v = [] \<and> plen v = 0) \<or>
     (length (vec v) = Suc (plen v) \<and> vec v ! plen v = Null \<and> Junk \<notin> set (vec v))"

definition slots :: "'a ptrv \<Rightarrow> 'a slot list" where
  "slots v = take (plen v) (vec v)"

definition members :: "'a ptrv \<Rightarrow> 'a set" where
  "members v = {p. Ptr p \<in> set (slots v)}"

lemma wf_ptrv_empty [simp]: "wf_ptrv ptrv_empty" "members ptrv_empty = {}" "slots ptrv_empty = []"
  by (simp_all add: wf_ptrv_def ptrv_empty_def members_def slots_def)

lemma ptrv_empty_fields [simp]: "plen ptrv_empty = 0" "vec ptrv_empty = []"
  by (simp_all add: ptrv_empty_def)

lemma wf_ptrv_iff:
  "wf_ptrv v \<longleftrightarrow> (vec v = [] \<and> plen v = 0) \<or> (vec v = slots v @ [Null] \<and> Junk \<notin> set (slots v) \<and>
     length (slots v) = plen v)"
proof -
  have "vec v = slots v @ [Null]" "Junk \<notin> set (slots v)" "length (slots v) = plen v"
    if "length (vec v) = Suc (plen v)" "vec v ! plen v = Null" "Junk \<notin> set (vec v)"
    using that take_Suc_conv_app_nth [of "plen v" "vec v"]
    by (auto simp: slots_def dest: in_set_takeD)
  moreover have "length (vec v) = Suc (plen v)" "vec v ! plen v = Null" "Junk \<notin> set (vec v)"
    if "vec v = slots v @ [Null]" "Junk \<notin> set (slots v)" "length (slots v) = plen v"
    using that by (auto simp: nth_append dest: arg_cong [where f = length])
  ultimately show ?thesis
    unfolding wf_ptrv_def by metis
qed

lemma wf_ptrvE:
  assumes "wf_ptrv v"
  obtains "v = ptrv_empty" | xs where "v = \<lparr>vec = xs @ [Null], plen = length xs\<rparr>" and "Junk \<notin> set xs"
proof -
  from assms have "v = ptrv_empty \<or> v = \<lparr>vec = slots v @ [Null], plen = length (slots v)\<rparr> \<and> Junk \<notin> set (slots v)"
    unfolding wf_ptrv_iff by (auto simp: ptrv_empty_def intro!: ptrv.equality)
  then show ?thesis using that by blast
qed

lemma wf_ptrv_vec [simp]:
  "Junk \<notin> set xs \<Longrightarrow> wf_ptrv \<lparr>vec = xs @ [Null], plen = length xs\<rparr>"
  "slots \<lparr>vec = xs @ [Null], plen = length xs\<rparr> = xs"
  by (simp_all add: wf_ptrv_iff slots_def)

lemma slot_at_vec [simp]:
  "i < length xs \<Longrightarrow> slot_at (xs @ ys) i = xs ! i" "slot_at (xs @ [y]) (length xs) = y"
  by (simp_all add: slot_at_def nth_append)

section \<open>Lemmas on the operations\<close>

lemma ptrvgrow_vec:
  "ptrvgrow \<lparr>vec = xs @ [Null], plen = length xs\<rparr> 1 w =
     (if w_ok w (w_tick w)
      then (int (Suc (length xs)), \<lparr>vec = xs @ [Null, Null], plen = Suc (length xs)\<rparr>, step w)
      else (- 1, \<lparr>vec = xs @ [Null], plen = length xs\<rparr>, step w))"
  by (simp add: ptrvgrow_def ptrvrealloc_def sys_def)

lemma ptrvgrow_empty:
  "ptrvgrow ptrv_empty 1 w =
     (if w_ok w (w_tick w) then (1, \<lparr>vec = [Junk, Null], plen = 1\<rparr>, step w)
      else (- 1, ptrv_empty, step w))"
  by (simp add: ptrvgrow_def ptrvrealloc_def sys_def ptrv_empty_def)

lemma first_null_Some:
  "first_null arr i n = Some k \<Longrightarrow> i \<le> k \<and> k < i + n \<and> slot_at arr k = Null"
  by (induction arr i n rule: first_null.induct) (auto split: if_splits)

lemma first_null_None:
  "first_null arr i n = None \<Longrightarrow> i \<le> k \<Longrightarrow> k < i + n \<Longrightarrow> slot_at arr k \<noteq> Null"
proof (induction arr i n rule: first_null.induct)
  case (2 arr i n)
  then show ?case by (cases "k = i") (auto split: if_splits)
qed simp

text \<open>A pushed element is the new last slot.\<close>

lemma ptrvpush_spec:
  assumes "wf_ptrv v" and "ptrvpush v e w = (i, v', w')"
  shows "w' = step w \<and> wf_ptrv v' \<and>
    (if w_ok w (w_tick w) then i = int (plen v) \<and> slots v' = slots v @ [Ptr e] else i = - 1 \<and> v' = v)"
  using assms(1)
proof (cases rule: wf_ptrvE)
  case 1
  with assms(2) have "v' = (if w_ok w (w_tick w) then \<lparr>vec = [Ptr e] @ [Null], plen = length [Ptr e]\<rparr> else v)"
    "w' = step w" "i = (if w_ok w (w_tick w) then 0 else - 1)"
    by (auto simp: ptrvpush_def ptrvgrow_empty [unfolded One_nat_def] Let_def split: if_splits)
  then show ?thesis
    using 1 wf_ptrv_vec [of "[Ptr e]"] by (auto simp: slots_def)
next
  case (2 xs)
  with assms(2)
  have "v' = (if w_ok w (w_tick w) then \<lparr>vec = (xs @ [Ptr e]) @ [Null], plen = length (xs @ [Ptr e])\<rparr> else v)"
    "w' = step w" "i = (if w_ok w (w_tick w) then int (length xs) else - 1)"
    by (auto simp: ptrvpush_def ptrvgrow_vec [unfolded One_nat_def] Let_def split: if_splits)
  then show ?thesis
    using 2 wf_ptrv_vec [of "xs @ [Ptr e]"] by auto
qed

text \<open>\<open>ptrvinsert\<close> takes the first free slot, or a new one when there is none.\<close>

lemma ptrvinsert_push:
  assumes "first_null (vec v) 0 (plen v) = None"
  shows "ptrvinsert v e w = ptrvpush v e w"
  using assms by (simp add: ptrvinsert_def ptrvreserve_def ptrvpush_def Let_def split: prod.splits)

lemma first_null_slots:
  "wf_ptrv v \<Longrightarrow> first_null (vec v) 0 (plen v) = None \<Longrightarrow> Null \<notin> set (slots v)"
  by (erule wf_ptrvE) (auto simp: in_set_conv_nth dest!: first_null_None)

lemma ptrvinsert_reuse:
  assumes "wf_ptrv v" and "first_null (vec v) 0 (plen v) = Some k"
  shows "ptrvinsert v e w = (int k, v\<lparr>vec := (vec v)[k := Ptr e]\<rparr>, w)"
    and "k < plen v" and "slots v ! k = Null"
    and "wf_ptrv (v\<lparr>vec := (vec v)[k := Ptr e]\<rparr>)"
    and "slots (v\<lparr>vec := (vec v)[k := Ptr e]\<rparr>) = (slots v)[k := Ptr e]"
proof -
  from assms(2) have k: "k < plen v" "slot_at (vec v) k = Null"
    using first_null_Some by fastforce+
  show "ptrvinsert v e w = (int k, v\<lparr>vec := (vec v)[k := Ptr e]\<rparr>, w)"
    using assms(2) by (simp add: ptrvinsert_def ptrvreserve_def)
  show "k < plen v" by (fact k)
  from assms(1) k obtain xs where v: "v = \<lparr>vec = xs @ [Null], plen = length xs\<rparr>" "Junk \<notin> set xs"
    by (elim wf_ptrvE) auto
  with k show "slots v ! k = Null" by simp
  have upd: "v\<lparr>vec := (vec v)[k := Ptr e]\<rparr> =
      \<lparr>vec = xs[k := Ptr e] @ [Null], plen = length (xs[k := Ptr e])\<rparr>"
    using v k by (simp add: list_update_append)
  have nj: "Junk \<notin> set (xs[k := Ptr e])"
    using v(2) set_update_subset_insert [of xs k "Ptr e"] by auto
  show "wf_ptrv (v\<lparr>vec := (vec v)[k := Ptr e]\<rparr>)"
    unfolding upd by (rule wf_ptrv_vec(1) [OF nj])
  show "slots (v\<lparr>vec := (vec v)[k := Ptr e]\<rparr>) = (slots v)[k := Ptr e]"
    unfolding upd using v by (simp add: slots_def)
qed

lemma length_slots [simp]: "wf_ptrv v \<Longrightarrow> length (slots v) = plen v"
  by (erule wf_ptrvE) auto

lemma members_append [simp]:
  "wf_ptrv v \<Longrightarrow> slots v' = slots v @ [Ptr e] \<Longrightarrow> members v' = insert e (members v)"
  by (auto simp: members_def)

lemma set_update_Null: "k < length xs \<Longrightarrow> xs ! k = Null \<Longrightarrow> Ptr p \<in> set (xs[k := Ptr e]) \<longleftrightarrow> p = e \<or> Ptr p \<in> set xs"
  by (auto simp: in_set_conv_nth nth_list_update) (metis slot.distinct(6))+

lemma ptrvinsert_spec:
  assumes "wf_ptrv v" and "ptrvinsert v e w = (i, v', w')" and "0 \<le> i"
  shows "wf_ptrv v' \<and> nat i < plen v' \<and> slots v' ! nat i = Ptr e \<and>
    (\<forall>j. j < plen v \<and> j \<noteq> nat i \<longrightarrow> slots v' ! j = slots v ! j) \<and>
    members v' = insert e (members v)"
proof (cases "first_null (vec v) 0 (plen v)")
  case None
  with assms ptrvpush_spec [OF assms(1), of e w i v' w']
  have *: "wf_ptrv v'" "i = int (plen v)" "slots v' = slots v @ [Ptr e]"
    by (auto simp: ptrvinsert_push split: if_splits)
  then have "plen v' = Suc (plen v)"
    using assms(1) length_slots [of v'] by simp
  with * assms(1) show ?thesis by (auto simp: nth_append)
next
  case (Some k)
  note r = ptrvinsert_reuse [OF assms(1) Some]
  have v': "v' = v\<lparr>vec := (vec v)[k := Ptr e]\<rparr>" "i = int k"
    using assms(2) by (simp_all add: r(1))
  have m: "members v' = insert e (members v)"
    unfolding members_def v' r(5) using r(2,3) assms(1) by (auto simp: set_update_Null)
  show ?thesis
    using r(2-5) m assms(1) by (auto simp: v')
qed

lemma ptrvinsert_fails:
  "wf_ptrv v \<Longrightarrow> ptrvinsert v e w = (i, v', w') \<Longrightarrow> i < 0 \<Longrightarrow> v' = v \<and> w_ok w (w_tick w) = False"
  by (cases "first_null (vec v) 0 (plen v)")
    (auto simp: ptrvinsert_push ptrvinsert_reuse(1) dest: ptrvpush_spec split: if_splits)

lemma ptrvinsert_free_slot:
  assumes "wf_ptrv v" and "ptrvinsert v e w = (i, v', w')" and "nat i < plen v" and "0 \<le> i"
  shows "slots v ! nat i = Null"
proof (cases "first_null (vec v) 0 (plen v)")
  case None
  then show ?thesis
    using assms ptrvpush_spec [OF assms(1), of e w i v' w']
    by (simp add: ptrvinsert_push split: if_splits)
next
  case (Some k)
  note r = ptrvinsert_reuse [OF assms(1) Some]
  show ?thesis using r(3) assms(2) by (auto simp: r(1))
qed

lemma find_from_spec:
  "find_from arr i n ele = - 1 \<and> (\<forall>k. i \<le> k \<and> k < i + n \<longrightarrow> slot_at arr k \<noteq> ele) \<or>
   (\<exists>k. find_from arr i n ele = int k \<and> i \<le> k \<and> k < i + n \<and> slot_at arr k = ele \<and>
     (\<forall>j. i \<le> j \<and> j < k \<longrightarrow> slot_at arr j \<noteq> ele))"
proof (induction arr i n ele rule: find_from.induct)
  case (2 arr i n ele)
  show ?case
  proof (cases "slot_at arr i = ele")
    case True
    then show ?thesis by (intro disjI2 exI [of _ i]) auto
  next
    case False
    with 2 show ?thesis by simp (metis Suc_leD Suc_leI le_neq_implies_less)
  qed
qed auto

lemma ptrvfind_spec:
  assumes "wf_ptrv v"
  shows "ptrvfind v (Ptr e) = - 1 \<and> e \<notin> members v \<or>
    (\<exists>k < plen v. ptrvfind v (Ptr e) = int k \<and> slots v ! k = Ptr e \<and> (\<forall>j < k. slots v ! j \<noteq> Ptr e))"
  using assms
proof (cases rule: wf_ptrvE)
  case (2 xs)
  then show ?thesis
    using find_from_spec [of "vec v" 0 "plen v" "Ptr e"]
    by (auto simp: ptrvfind_def members_def in_set_conv_nth)
qed (simp add: ptrvfind_def)

lemma ptrvfind_members: "wf_ptrv v \<Longrightarrow> 0 \<le> ptrvfind v (Ptr e) \<longleftrightarrow> e \<in> members v"
  using ptrvfind_spec [of v e] by (auto simp: members_def intro: nth_mem) (metis length_slots nth_mem)

lemma ptrvsteal_inner:
  assumes "wf_ptrv v" and "0 \<le> i" and "i < int (plen v) - 1"
  shows "ptrvsteal v i w = (v\<lparr>vec := (vec v)[nat i := Null]\<rparr>, w)"
    and "slots (v\<lparr>vec := (vec v)[nat i := Null]\<rparr>) = (slots v)[nat i := Null]"
    and "wf_ptrv (v\<lparr>vec := (vec v)[nat i := Null]\<rparr>)"
proof -
  show "ptrvsteal v i w = (v\<lparr>vec := (vec v)[nat i := Null]\<rparr>, w)"
    using assms by (simp add: ptrvsteal_def)
  from assms obtain xs where v: "v = \<lparr>vec = xs @ [Null], plen = length xs\<rparr>" "Junk \<notin> set xs"
    by (elim wf_ptrvE) auto
  have i: "nat i < length xs" using assms v by auto
  have upd: "v\<lparr>vec := (vec v)[nat i := Null]\<rparr> =
      \<lparr>vec = xs[nat i := Null] @ [Null], plen = length (xs[nat i := Null])\<rparr>"
    using v i by (simp add: list_update_append)
  have nj: "Junk \<notin> set (xs[nat i := Null])"
    using v(2) set_update_subset_insert [of xs "nat i" "Null"] by auto
  show "wf_ptrv (v\<lparr>vec := (vec v)[nat i := Null]\<rparr>)"
    unfolding upd by (rule wf_ptrv_vec(1) [OF nj])
  show "slots (v\<lparr>vec := (vec v)[nat i := Null]\<rparr>) = (slots v)[nat i := Null]"
    unfolding upd using v by (simp add: slots_def)
qed

lemma shrink_to_stops:
  "m \<le> n \<Longrightarrow> (\<forall>j. m < j \<longrightarrow> j \<le> n \<longrightarrow> slot_at arr j = Null) \<Longrightarrow> m = 0 \<or> slot_at arr m \<noteq> Null \<Longrightarrow>
   shrink_to arr n = m"
proof (induction n)
  case (Suc n)
  then show ?case by (cases "m = Suc n") auto
qed simp

text \<open>Whatever \<open>ptrvsteal\<close> drops, it keeps a prefix of the other slots.\<close>

lemma shrink_to_le: "shrink_to arr n \<le> n"
  by (induction n) auto

lemma ptrvsteal_slots:
  assumes "wf_ptrv v" and "i < int (plen v)" and "0 \<le> i" and "ptrvsteal v i w = (v', w')"
  shows "wf_ptrv v' \<and> (\<exists>m. slots v' = take m ((slots v)[nat i := Null]))"
proof (cases "i = int (plen v) - 1")
  case False
  with assms(2) have "i < int (plen v) - 1" by simp
  note inner = ptrvsteal_inner [OF assms(1,3) this]
  have "v' = v\<lparr>vec := (vec v)[nat i := Null]\<rparr>"
    using assms(4) inner(1) [of w] by simp
  with inner(2,3) have "slots v' = (slots v)[nat i := Null]" "wf_ptrv v'" by simp_all
  then show ?thesis by (metis length_list_update order_refl take_all)
next
  case True
  from assms(1-3) obtain xs where v: "v = \<lparr>vec = xs @ [Null], plen = length xs\<rparr>" "Junk \<notin> set xs"
    by (elim wf_ptrvE) auto
  then have "xs \<noteq> []" using assms(2,3) by auto
  note v = v this
  let ?xs = "xs[nat i := Null]"
  have i: "nat i < length xs" using assms(2,3) v(1) by simp
  have nj: "Junk \<notin> set ?xs"
    using v(2) set_update_subset_insert [of xs "nat i" "Null"] by auto
  have upd: "v\<lparr>vec := (vec v)[nat i := Null]\<rparr> = \<lparr>vec = ?xs @ [Null], plen = length ?xs\<rparr>"
    using v i by (simp add: list_update_append)
  define n where "n = shrink_to (?xs @ [Null]) (length ?xs - 1)"
  have n: "n \<le> length ?xs" unfolding n_def using shrink_to_le [of "?xs @ [Null]" "length ?xs - 1"] by simp
  have "ptrvsteal v i w = snd (ptrvshrink \<lparr>vec = ?xs @ [Null], plen = length ?xs\<rparr> w)"
    using True assms(3) upd v(1) by (simp add: ptrvsteal_def Let_def list_update_append i [simplified True v(1), simplified])
  also have "ptrvshrink \<lparr>vec = ?xs @ [Null], plen = length ?xs\<rparr> w =
      ptrvrealloc \<lparr>vec = ?xs @ [Null], plen = length ?xs\<rparr> n w"
    using v(3) by (simp add: ptrvshrink_def n_def slot_at_def nth_append)
  finally have "v' = \<lparr>vec = ?xs @ [Null], plen = length ?xs\<rparr> \<or>
      v' = \<lparr>vec = take n ?xs @ [Null], plen = length (take n ?xs)\<rparr>"
    using assms(4) n by (auto simp: ptrvrealloc_def sys_def split: if_splits)
  moreover have "Junk \<notin> set (take n ?xs)" using nj by (auto dest: in_set_takeD)
  moreover have "slots v = xs" using v(1) wf_ptrv_vec(2) [of xs] by simp
  ultimately show ?thesis
    using nj wf_ptrv_vec(1) [of ?xs] wf_ptrv_vec(2) [of ?xs] wf_ptrv_vec(1) [of "take n ?xs"]
      wf_ptrv_vec(2) [of "take n ?xs"]
    by (metis order_refl take_all)
qed

lemma ptrvinsert_slots:
  assumes "wf_ptrv v" and "ptrvinsert v e w = (i, v', w')" and "0 \<le> i"
  shows "(nat i < plen v \<and> slots v ! nat i = Null \<and> slots v' = (slots v)[nat i := Ptr e]) \<or>
    slots v' = slots v @ [Ptr e]"
proof (cases "first_null (vec v) 0 (plen v)")
  case None
  with assms ptrvpush_spec [OF assms(1), of e w i v' w'] show ?thesis
    by (auto simp: ptrvinsert_push split: if_splits)
next
  case (Some k)
  note r = ptrvinsert_reuse [OF assms(1) Some]
  have "v' = v\<lparr>vec := (vec v)[k := Ptr e]\<rparr>" "i = int k"
    using assms(2) by (simp_all add: r(1))
  then show ?thesis using r(2-5) by simp
qed

lemma ptrvsteal_env [world]: "ptrvsteal v i w = (v', w') \<Longrightarrow> same_env w w' \<and> w_sent w' = w_sent w"
  by (auto simp: ptrvsteal_def ptrvshrink_def ptrvrealloc_def sys_def same_env_def Let_def split: if_splits)

lemma ptrvinsert_env [world]: "ptrvinsert v e w = (i, v', w') \<Longrightarrow> same_env w w' \<and> w_sent w' = w_sent w"
  by (auto simp: ptrvinsert_def ptrvreserve_def ptrvgrow_def ptrvrealloc_def sys_def same_env_def Let_def
      split: if_splits option.splits)

text \<open>What \<open>ptrvshrink\<close> leaves behind a last live element: the vector before that element.\<close>

lemma ptrvsteal_last_vec:
  fixes xs :: "'a slot list" and a b :: 'a and k :: nat
  defines "ys \<equiv> xs @ Ptr a # replicate k Null @ [Ptr b]"
  assumes "w_ok w (w_tick w)"
  shows "ptrvsteal \<lparr>vec = ys @ [Null], plen = length ys\<rparr> (int (length ys) - 1) w =
    (\<lparr>vec = xs @ [Null], plen = length xs\<rparr>, step w)"
proof -
  let ?arr = "xs @ Ptr a # replicate (Suc (Suc k)) Null"
  let ?zs = "xs @ Ptr a # replicate k Null"
  have "?zs @ [Null, Null] = ?arr"
    using replicate_add [of k 2 "Null :: 'a slot"] replicate_add [of 2 k "Null :: 'a slot"]
    by (simp add: numeral_2_eq_2)
  moreover have "nat (int (length ys) - 1) = length ?zs"
    by (simp add: ys_def)
  moreover have "ys @ [Null] = ?zs @ Ptr b # [Null]"
    by (simp add: ys_def)
  ultimately have steal: "(ys @ [Null])[nat (int (length ys) - 1) := Null] = ?arr"
    by (metis list_update_length)
  have "shrink_to ?arr (length ys - 1) = length xs"
    by (rule shrink_to_stops)
      (auto simp: ys_def slot_at_def nth_append nth_Cons' simp del: replicate.simps)
  moreover have "slot_at ?arr (length ys) = Null"
    by (simp add: ys_def slot_at_def nth_append nth_Cons' del: replicate.simps)
  ultimately show ?thesis
    using assms(2) steal
    by (simp add: ptrvsteal_def ptrvshrink_def ptrvrealloc_def sys_def ys_def del: replicate.simps)
qed

lemma ptrvfree_vec:
  "ptrvfree \<lparr>vec = xs @ [Null], plen = length xs\<rparr> = filter (\<lambda>x. x \<noteq> Null) xs"
proof -
  have "map (slot_at (xs @ [Null])) [0..<length xs] = xs"
    by (rule nth_equalityI) auto
  then show ?thesis by (simp add: ptrvfree_def)
qed

lemma ptrvlen_vec: "Null \<notin> set xs \<Longrightarrow> ptrvlen (xs @ Null # ys) = Some (length xs)"
  by (induction xs) auto

lemma strvfree_vec: "Null \<notin> set xs \<Longrightarrow> strvfree (xs @ Null # ys) = Some xs"
  by (induction xs) auto

lemma strvpush_env [world]: "strvpush v s w = (i, v', w') \<Longrightarrow> same_env w w' \<and> w_sent w' = w_sent w"
  by (auto simp: strvpush_def ptrvpush_def ptrvgrow_def ptrvrealloc_def sys_def Let_def same_env_def
      split: if_splits)

section \<open>The interface of a table of pointers\<close>

text \<open>What the clients of a vector use: an insertion either adds the element or reports a
  failure and changes nothing, and a search finds exactly the members.\<close>

fun insert_all ::
  "('s \<Rightarrow> 'a \<Rightarrow> 'w \<Rightarrow> int \<times> 's \<times> 'w) \<Rightarrow> 's \<Rightarrow> 'a list \<Rightarrow> 'w \<Rightarrow> bool \<times> 's \<times> 'w" where
  "insert_all ins s [] w = (True, s, w)"
| "insert_all ins s (a # as) w =
     (let (i, s, w) = ins s a w in if i < 0 then (False, s, w) else insert_all ins s as w)"

locale slot_table =
  fixes inv :: "'s \<Rightarrow> bool"
    and mem :: "'s \<Rightarrow> 'a set"
    and ins :: "'s \<Rightarrow> 'a \<Rightarrow> 'w \<Rightarrow> int \<times> 's \<times> 'w"
    and lookup :: "'s \<Rightarrow> 'a \<Rightarrow> int"
  assumes ins_ok: "inv s \<Longrightarrow> ins s a w = (i, s', w') \<Longrightarrow> 0 \<le> i \<Longrightarrow> inv s' \<and> mem s' = insert a (mem s)"
    and ins_fails: "inv s \<Longrightarrow> ins s a w = (i, s', w') \<Longrightarrow> i < 0 \<Longrightarrow> s' = s"
    and lookup_mem: "inv s \<Longrightarrow> 0 \<le> lookup s a \<longleftrightarrow> a \<in> mem s"
begin

lemma lookup_after_insert:
  "inv s \<Longrightarrow> ins s a w = (i, s', w') \<Longrightarrow> 0 \<le> i \<Longrightarrow> 0 \<le> lookup s' b \<longleftrightarrow> b = a \<or> 0 \<le> lookup s b"
  using ins_ok by (metis insert_iff lookup_mem)

lemma insert_all_inv:
  "inv s \<Longrightarrow> insert_all ins s as w = (ok, s', w') \<Longrightarrow>
   inv s' \<and> mem s \<subseteq> mem s' \<and> mem s' \<subseteq> mem s \<union> set as \<and> (ok \<longrightarrow> set as \<subseteq> mem s')"
proof (induction as arbitrary: s w)
  case (Cons a as)
  obtain i s1 w1 where i: "ins s a w = (i, s1, w1)" by (metis prod_cases3)
  show ?case
  proof (cases "i < 0")
    case True
    with ins_fails [OF Cons.prems(1) i] Cons.prems i show ?thesis by auto
  next
    case False
    with Cons.prems i have r: "insert_all ins s1 as w1 = (ok, s', w')" and
      m: "inv s1" "mem s1 = insert a (mem s)"
      using ins_ok by auto
    from Cons.IH [OF m(1) r] m(2) show ?thesis by auto
  qed
qed simp

lemma lookup_after_insert_all:
  "inv s \<Longrightarrow> insert_all ins s as w = (True, s', w') \<Longrightarrow> b \<in> set as \<Longrightarrow> 0 \<le> lookup s' b"
  using insert_all_inv lookup_mem by blast

end

interpretation table: slot_table wf_ptrv members ptrvinsert "\<lambda>v a. ptrvfind v (Ptr a)"
proof unfold_locales
  fix s :: "'a ptrv" and a w i s' and w' :: "'b world"
  assume * : "wf_ptrv s" "ptrvinsert s a w = (i, s', w')"
  show "0 \<le> i \<Longrightarrow> wf_ptrv s' \<and> members s' = insert a (members s)"
    using ptrvinsert_spec [OF *] by simp
  show "i < 0 \<Longrightarrow> s' = s"
    using ptrvinsert_fails [OF *] by simp
qed (rule ptrvfind_members)

interpretation stack: slot_table wf_ptrv members ptrvpush "\<lambda>v a. ptrvfind v (Ptr a)"
proof unfold_locales
  fix s :: "'a ptrv" and a w i s' and w' :: "'b world"
  assume "wf_ptrv s" and "ptrvpush s a w = (i, s', w')"
  note * = ptrvpush_spec [OF this]
  show "0 \<le> i \<Longrightarrow> wf_ptrv s' \<and> members s' = insert a (members s)"
    using * by (auto simp: members_def split: if_splits)
  show "i < 0 \<Longrightarrow> s' = s"
    using * by (auto split: if_splits)
qed (rule ptrvfind_members)

section \<open>Properties\<close>

text \<open>C34. Inserting into a vector of pointers either fails and leaves it as it was, or puts the
  element into a slot that held no element, keeps every other slot, and a search finds exactly
  the old elements and the new one.\<close>

theorem ptrvinsert_correct:
  assumes "wf_ptrv v" and "ptrvinsert v e w = (i, v', w')"
  shows "if i < 0 then v' = v
    else wf_ptrv v' \<and> slots v' ! nat i = Ptr e \<and>
      (\<forall>j. j < plen v \<and> j \<noteq> nat i \<longrightarrow> slots v' ! j = slots v ! j) \<and>
      (nat i < plen v \<longrightarrow> slots v ! nat i = Null) \<and>
      (\<forall>b. 0 \<le> ptrvfind v' (Ptr b) \<longleftrightarrow> b = e \<or> 0 \<le> ptrvfind v (Ptr b))"
proof (cases "i < 0")
  case True
  then show ?thesis using table.ins_fails [OF assms] by simp
next
  case False
  then have i: "0 \<le> i" by simp
  with False ptrvinsert_spec [OF assms i] ptrvinsert_free_slot [OF assms]
    table.lookup_after_insert [OF assms i] show ?thesis
    by simp
qed

theorem ptrvinsert_correct_witness:
  "let v = \<lparr>vec = [Ptr (1::nat), Null, Ptr 3, Null], plen = 3\<rparr>; (i, v', w') = ptrvinsert v 2 (calm :: unit world)
   in i = 1 \<and> slots v' ! 1 = Ptr 2 \<and> 0 \<le> ptrvfind v' (Ptr 3)"
  using ptrvinsert_correct [of "\<lparr>vec = [Ptr (1::nat), Null, Ptr 3, Null], plen = 3\<rparr>" 2 "calm :: unit world"]
  by (auto simp: ptrvinsert_def ptrvreserve_def slot_at_def wf_ptrv_def numeral_eq_Suc slots_def
      ptrvfind_def)

text \<open>Stealing the last slot of a vector whose \<open>realloc\<close> succeeds also drops the last live
  element before it: the loop of \<open>ptrvshrink\<close> ends at the index of that element, which the
  terminator then overwrites. The element stays allocated and is no longer found.\<close>

theorem ptrvsteal_last_drops_live:
  assumes "wf_ptrv v" and "slots v = xs @ Ptr a # replicate k Null @ [Ptr b]"
    and "w_ok w (w_tick w)" and "ptrvsteal v (int (plen v) - 1) w = (v', w')"
  shows "slots v' = xs \<and> wf_ptrv v' \<and> (a \<notin> {p. Ptr p \<in> set xs} \<longrightarrow> ptrvfind v' (Ptr a) = - 1)"
proof -
  let ?ys = "xs @ Ptr a # replicate k Null @ [Ptr b]"
  have v: "v = \<lparr>vec = ?ys @ [Null], plen = length ?ys\<rparr>" and nj: "Junk \<notin> set ?ys"
    using assms(1,2) by (auto elim!: wf_ptrvE)
  have "v' = \<lparr>vec = xs @ [Null], plen = length xs\<rparr>"
    using assms(4) ptrvsteal_last_vec [OF assms(3), of xs a k b] v by simp
  with nj have s: "slots v' = xs" "wf_ptrv v'" by auto
  then show ?thesis
    using ptrvfind_spec [OF s(2), of a] by (auto simp: members_def)  (metis length_slots nth_mem)
qed

theorem ptrvsteal_last_drops_live_witness:
  "slots (fst (ptrvsteal \<lparr>vec = [Ptr (1::nat), Ptr 2, Null], plen = 2\<rparr> 1 (calm :: unit world))) = []"
  using ptrvsteal_last_drops_live [of "\<lparr>vec = [Ptr (1::nat), Ptr 2, Null], plen = 2\<rparr>" "[]" 1 0 2
      "calm :: unit world"]
  by (cases "ptrvsteal \<lparr>vec = [Ptr (1::nat), Ptr 2, Null], plen = 2\<rparr> 1 (calm :: unit world)")
    (simp add: wf_ptrv_def slots_def)

end
