(* ===== verification/Message.thy ===== *)
theory Message
  imports Config Array
begin

text \<open>
  \<^verbatim>\<open>leelen/voip/message.h\<close>, \<^verbatim>\<open>leelen/voip/message.c\<close> and the message part of
  \<^verbatim>\<open>leelen/voip/protocol.h\<close>: the VoIP message, its text form, its parser.

  A raw message is a list of characters; the first eight are the code (little-endian) and the
  dialog ID, which the program stores and loads as a raw memory word of the (little-endian)
  machine. The two lists of formats are NULL-terminated vectors of strings; \<open>len\<close> of such a
  vector is the local counter \<open>n_audio_format\<close> or \<open>n_video_format\<close> of the parser.
  \<open>strtok_r\<close> is applied to the C string behind the header, so the order of the lines and the
  handling of empty lines are those of the library function.
\<close>

section \<open>protocol.h\<close>

definition LEELEN_CODE_INVALID :: u32 where "LEELEN_CODE_INVALID = 0x000"
definition LEELEN_CODE_CALL :: u32 where "LEELEN_CODE_CALL = 0x001"
definition LEELEN_CODE_VIEW :: u32 where "LEELEN_CODE_VIEW = 0x002"
definition LEELEN_CODE_OK :: u32 where "LEELEN_CODE_OK = 0x110"
definition LEELEN_CODE_BYE :: u32 where "LEELEN_CODE_BYE = 0x214"
definition LEELEN_CODE_ACCEPTED :: u32 where "LEELEN_CODE_ACCEPTED = 0x215"
definition LEELEN_CODE_OPEN_GATE :: u32 where "LEELEN_CODE_OPEN_GATE = 0x216"
definition LEELEN_CODE_VOICE_MESSAGE :: u32 where "LEELEN_CODE_VOICE_MESSAGE = 0x217"

lemmas leelen_codes = LEELEN_CODE_INVALID_def LEELEN_CODE_CALL_def LEELEN_CODE_VIEW_def
  LEELEN_CODE_OK_def LEELEN_CODE_BYE_def LEELEN_CODE_ACCEPTED_def LEELEN_CODE_OPEN_GATE_def
  LEELEN_CODE_VOICE_MESSAGE_def

definition le32 :: "u32 \<Rightarrow> char list" where
  "le32 x = map (\<lambda>i. char_of (unat (take_bit 8 (drop_bit (8 * i) x)))) [0, 1, 2, 3]"

definition get32 :: "char list \<Rightarrow> nat \<Rightarrow> u32" where
  "get32 s i = word_of_nat (of_char (at s i)) OR push_bit 8 (word_of_nat (of_char (at s (i + 1))))
     OR push_bit 16 (word_of_nat (of_char (at s (i + 2))))
     OR push_bit 24 (word_of_nat (of_char (at s (i + 3))))"

definition LEELEN_MESSAGE_CODE :: "char list \<Rightarrow> u32" where
  "LEELEN_MESSAGE_CODE s = get32 s 0"

definition LEELEN_MESSAGE_ID :: "char list \<Rightarrow> u32" where
  "LEELEN_MESSAGE_ID s = get32 s 4"

definition LEELEN_MESSAGE_HEADER_SIZE :: nat where
  "LEELEN_MESSAGE_HEADER_SIZE = 8"

abbreviation NL :: char where
  "NL \<equiv> CHR 0x0A"

text \<open>\<open>sizeof\<close> counts the terminating NUL of the literal.\<close>

definition LEELEN_MESSAGE_MIN_SIZE :: nat where
  "LEELEN_MESSAGE_MIN_SIZE =
     LEELEN_MESSAGE_HEADER_SIZE + Suc (length (''From=?'' @ [NL] @ ''To='' @ [NL])) +
     2 * (LEELEN_NUMBER_STRLEN - 1) + 3"

definition LEELEN_MESSAGE_ISVALID :: "char list \<Rightarrow> nat \<Rightarrow> bool" where
  "LEELEN_MESSAGE_ISVALID str n \<longleftrightarrow>
     LEELEN_MESSAGE_MIN_SIZE \<le> n \<and> rd str LEELEN_MESSAGE_HEADER_SIZE 5 = ''From=''"

section \<open>The message\<close>

record LeelenMessage =
  m_id :: u32
  m_code :: u32
  m_from :: LeelenNumber
  m_from_type :: u8
  m_to :: LeelenNumber
  m_audio_port :: u16
  m_video_port :: u16
  m_audio_formats :: "char list ptrv"
  m_video_formats :: "char list ptrv"

definition remain0 :: "nat \<Rightarrow> nat \<Rightarrow> nat" where
  "remain0 n used = (if n < used then 0 else n - used)"

text \<open>\<open>cur += snprintf(buf + cur, remain0(len, cur), ...)\<close>.\<close>

definition print :: "nat \<Rightarrow> char list \<Rightarrow> char list \<times> nat \<Rightarrow> char list \<times> nat" where
  "print len s = (\<lambda>(buf, cur). (snprintf buf cur (remain0 len cur) s, cur + length s))"

fun print_formats :: "nat \<Rightarrow> char list \<Rightarrow> char list slot list \<Rightarrow> char list \<times> nat \<Rightarrow> char list \<times> nat" where
  "print_formats len key (Ptr f # fs) st = print_formats len key fs (print len (key @ f @ [NL]) st)"
| "print_formats len key _ st = st"

definition print_media ::
  "nat \<Rightarrow> char list \<Rightarrow> char list \<Rightarrow> char list ptrv \<Rightarrow> u16 \<Rightarrow> char list \<times> nat \<Rightarrow> char list \<times> nat"
where
  "print_media len key portkey formats port st =
     (if vec formats \<noteq> [] \<and> hd (vec formats) \<noteq> Null
      then print len (portkey @ showd (unat port) @ [NL])
             (print_formats len key (vec formats) st)
      else st)"

definition print_header :: "LeelenMessage \<Rightarrow> char list \<Rightarrow> nat \<Rightarrow> char list" where
  "print_header self buf len =
     (let buf = (if 4 \<le> len then poke buf 0 (le32 (m_code self)) else buf)
      in if 8 \<le> len then poke buf 4 (le32 (m_id self)) else buf)"

definition print_audio :: "LeelenMessage \<Rightarrow> nat \<Rightarrow> char list \<times> nat \<Rightarrow> char list \<times> nat" where
  "print_audio self len =
     print_media len ''Audio='' ''AudioPort='' (m_audio_formats self) (m_audio_port self)"

definition print_video :: "LeelenMessage \<Rightarrow> nat \<Rightarrow> char list \<times> nat \<Rightarrow> char list \<times> nat" where
  "print_video self len =
     print_media len ''Video='' ''VideoPort='' (m_video_formats self) (m_video_port self)"

definition LeelenMessage_tostring :: "LeelenMessage \<Rightarrow> char list \<Rightarrow> nat \<Rightarrow> char list \<times> nat" where
  "LeelenMessage_tostring self buf len =
     (let buf = print_header self buf len;
          st = print len (''From='' @ number_str (m_from self) @ ''?'' @ showd (unat (m_from_type self))
                 @ [NL] @ ''To='' @ number_str (m_to self) @ [NL]) (buf, LEELEN_MESSAGE_HEADER_SIZE);
          st = print_audio self len st
      in print_video self len st)"

definition LeelenMessage_copy_config :: "LeelenMessage \<Rightarrow> LeelenConfig \<Rightarrow> LeelenMessage" where
  "LeelenMessage_copy_config self config =
     self\<lparr>m_from := c_number config, m_from_type := c_type config,
          m_audio_port := c_audio config, m_video_port := c_video config\<rparr>"

text \<open>The strings freed by the destructor, audio first.\<close>

definition LeelenMessage_destroy :: "LeelenMessage \<Rightarrow> char list slot list option" where
  "LeelenMessage_destroy self =
     (case (if vec (m_audio_formats self) = [] then Some [] else strvfree (vec (m_audio_formats self)),
            if vec (m_video_formats self) = [] then Some [] else strvfree (vec (m_video_formats self))) of
        (Some a, Some v) \<Rightarrow> Some (a @ v) | _ \<Rightarrow> None)"

definition LeelenMessage_init_reply ::
  "LeelenMessage \<Rightarrow> LeelenMessage \<Rightarrow> u8 \<Rightarrow> int \<times> LeelenMessage" where
  "LeelenMessage_init_reply self request from_type =
     (0, self\<lparr>m_id := m_id request, m_code := LEELEN_CODE_OK, m_from := m_to request,
              m_from_type := from_type, m_to := m_from request,
              m_audio_formats := ptrv_empty, m_video_formats := ptrv_empty,
              m_audio_port := 0, m_video_port := 0\<rparr>)"

section \<open>The parser\<close>

definition parse_from_number :: "char list \<Rightarrow> LeelenMessage \<Rightarrow> LeelenMessage" where
  "parse_from_number line self =
     (let number_len = length (before_chr (CHR ''?'') line)
      in if LEELEN_NUMBER_STRLEN \<le> number_len then self\<lparr>m_from := number_set_str (m_from self) []\<rparr>
         else self\<lparr>m_from := number_set_str (m_from self) (take number_len line)\<rparr>)"

definition parse_from_type :: "char list \<Rightarrow> LeelenMessage \<Rightarrow> LeelenMessage" where
  "parse_from_type line self =
     (case after_chr (CHR ''?'') line of
        None \<Rightarrow> self
      | Some [] \<Rightarrow> self
      | Some type_sep \<Rightarrow>
          (let (v, end) = strtol type_sep
           in self\<lparr>m_from_type := if end = [] then word_of_int v
                                  else device_byte LEELEN_DEVICE_UNKNOWN\<rparr>))"

definition parse_to :: "char list \<Rightarrow> LeelenMessage \<Rightarrow> LeelenMessage" where
  "parse_to line self =
     (if LEELEN_NUMBER_STRLEN \<le> length line then self
      else self\<lparr>m_to := number_set_str (m_to self) line\<rparr>)"

definition parse_port :: "char list \<Rightarrow> u16" where
  "parse_port line = (let (v, end) = strtol line in if end = [] then word_of_int v else 0)"

definition parse_line ::
  "bool \<Rightarrow> bool \<Rightarrow> char list \<Rightarrow> LeelenMessage \<Rightarrow> 'p world \<Rightarrow> bool \<times> LeelenMessage \<times> 'p world" where
  "parse_line no_audio no_video line self w =
     (if has_prefix line ''From='' then
        (let line = drop (length ''From='') line
         in (True, parse_from_type line (parse_from_number line self), w))
      else if has_prefix line ''To='' then (True, parse_to (drop (length ''To='') line) self, w)
      else if has_prefix line ''Audio='' then
        (if no_audio then (True, self, w)
         else let (i, fs, w) = strvpush (m_audio_formats self) (drop (length ''Audio='') line) w
              in (0 \<le> i, self\<lparr>m_audio_formats := fs\<rparr>, w))
      else if has_prefix line ''AudioPort='' then
        (True, self\<lparr>m_audio_port := parse_port (drop (length ''AudioPort='') line)\<rparr>, w)
      else if has_prefix line ''Video='' then
        (if no_video then (True, self, w)
         else let (i, fs, w) = strvpush (m_video_formats self) (drop (length ''Video='') line) w
              in (0 \<le> i, self\<lparr>m_video_formats := fs\<rparr>, w))
      else if has_prefix line ''VideoPort='' then
        (True, self\<lparr>m_video_port := parse_port (drop (length ''VideoPort='') line)\<rparr>, w)
      else (True, self, w))"

fun parse_lines ::
  "bool \<Rightarrow> bool \<Rightarrow> char list list \<Rightarrow> LeelenMessage \<Rightarrow> 'p world \<Rightarrow> bool \<times> LeelenMessage \<times> 'p world"
where
  "parse_lines na nv [] self w = (True, self, w)"
| "parse_lines na nv (l # ls) self w =
     (let (ok, self, w) = parse_line na nv l self w
      in if \<not> ok then (False, self, w) else parse_lines na nv ls self w)"

definition init_fields :: "LeelenMessage \<Rightarrow> char list \<Rightarrow> LeelenMessage" where
  "init_fields self msg =
     self\<lparr>m_id := LEELEN_MESSAGE_ID msg, m_code := LEELEN_MESSAGE_CODE msg,
          m_from := number_set_str (m_from self) [], m_from_type := 0,
          m_to := number_set_str (m_to self) [], m_audio_port := 0, m_video_port := 0,
          m_audio_formats := ptrv_empty, m_video_formats := ptrv_empty\<rparr>"

definition LeelenMessage_init ::
  "LeelenMessage \<Rightarrow> char list \<Rightarrow> bool \<Rightarrow> bool \<Rightarrow> 'p world \<Rightarrow> int \<times> LeelenMessage \<times> 'p world" where
  "LeelenMessage_init self msg no_audio_formats no_video_formats w =
     (let (ok, self, w) = parse_lines no_audio_formats no_video_formats
            (strtok NL (cstr (drop LEELEN_MESSAGE_HEADER_SIZE msg))) (init_fields self msg) w
      in (if ok then 0 else - 1, self, w))"

section \<open>The text of a message\<close>

text \<open>The reference: the characters behind the header, without the buffer.\<close>

definition media_text :: "char list \<Rightarrow> char list \<Rightarrow> char list list \<Rightarrow> u16 \<Rightarrow> char list" where
  "media_text key portkey fs port =
     (if fs = [] then [] else concat (map (\<lambda>f. key @ f @ [NL]) fs) @ portkey @ showd (unat port) @ [NL])"

fun strings :: "'a slot list \<Rightarrow> 'a list" where
  "strings (Ptr f # fs) = f # strings fs"
| "strings _ = []"

definition message_text :: "LeelenMessage \<Rightarrow> char list" where
  "message_text m =
     ''From='' @ number_str (m_from m) @ ''?'' @ showd (unat (m_from_type m)) @ [NL] @
     ''To='' @ number_str (m_to m) @ [NL] @
     media_text ''Audio='' ''AudioPort='' (strings (vec (m_audio_formats m))) (m_audio_port m) @
     media_text ''Video='' ''VideoPort='' (strings (vec (m_video_formats m))) (m_video_port m)"

section \<open>Lemmas on printing\<close>

text \<open>\<open>written len T (buf, cur)\<close>: the buffer holds as much of the text \<open>T\<close> as fits, and \<open>closed\<close>
  that a NUL follows it.\<close>

definition written :: "nat \<Rightarrow> char list \<Rightarrow> char list \<times> nat \<Rightarrow> bool" where
  "written len T = (\<lambda>(buf, cur).
     0 < len \<and> len \<le> length buf \<and> cur = length T \<and>
     take (min cur (len - 1)) buf = take (len - 1) T)"

definition closed :: "nat \<Rightarrow> char list \<times> nat \<Rightarrow> bool" where
  "closed len = (\<lambda>(buf, cur). at buf (min cur (len - 1)) = NUL)"

lemma print_written:
  assumes "written len T (buf, cur)" and "cur < len \<or> closed len (buf, cur)"
  shows "written len (T @ s) (print len s (buf, cur)) \<and> closed len (print len s (buf, cur))"
proof (cases "cur < len")
  case True
  let ?n = "len - cur - 1"
  let ?p = "take ?n s @ [NUL]"
  from True have st: "print len s (buf, cur) = (poke buf cur ?p, cur + length s)"
    by (simp add: print_def remain0_def snprintf_def)
  have "min cur (len - 1) = cur" using True by simp
  then have T: "take cur buf = T" "cur = length T" "len \<le> length buf" "0 < len"
    using assms(1) True by (auto simp: written_def)
  have fit: "cur + length ?p \<le> length buf"
    using T True by simp
  have pk: "poke buf cur ?p = T @ ?p @ drop (cur + length ?p) buf"
    using T(1) poke_fits [OF fit] by simp
  have "take (min (cur + length s) (len - 1)) (poke buf cur ?p) = take (len - 1) (T @ s)"
    unfolding pk using T True by (auto simp: min_def)
  moreover have "at (poke buf cur ?p) (min (cur + length s) (len - 1)) = NUL"
    unfolding pk using T True by (auto simp: at_def nth_append min_def)
  ultimately show ?thesis
    using T st by (simp add: written_def closed_def)
next
  case False
  then have st: "print len s (buf, cur) = (buf, cur + length s)"
    by (simp add: print_def remain0_def snprintf_def)
  moreover have "min cur (len - 1) = len - 1" "min (cur + length s) (len - 1) = len - 1"
    using False by auto
  ultimately show ?thesis
    using False assms by (simp add: written_def closed_def)
qed

lemma print_written_pair:
  "written len T st \<Longrightarrow> closed len st \<Longrightarrow>
   written len (T @ s) (print len s st) \<and> closed len (print len s st)"
  using print_written by (cases st) blast

lemma print_formats_written:
  "written len T st \<Longrightarrow> closed len st \<Longrightarrow>
   written len (T @ concat (map (\<lambda>f. key @ f @ [NL]) (strings fs))) (print_formats len key fs st) \<and>
   closed len (print_formats len key fs st)"
proof (induction len key fs st arbitrary: T rule: print_formats.induct)
  case (1 len key f fs st)
  from 1(1) [of "T @ key @ f @ [NL]"] print_written_pair [OF 1(2,3), of "key @ f @ [NL]"]
  show ?case by simp
qed simp_all

lemma strings_nil: "strings fs = [] \<longleftrightarrow> fs = [] \<or> hd fs = Null \<or> hd fs = Junk"
  by (cases fs rule: strings.cases) auto

definition wf_formats :: "char list ptrv \<Rightarrow> bool" where
  "wf_formats v \<longleftrightarrow> wf_ptrv v \<and> Null \<notin> set (slots v)"

lemma wf_formats_empty [simp]: "wf_formats ptrv_empty"
  by (simp add: wf_formats_def)

lemma print_media_written:
  assumes "written len T st" and "closed len st" and "Junk \<notin> set (vec formats)"
  shows "written len (T @ media_text key portkey (strings (vec formats)) port)
      (print_media len key portkey formats port st) \<and>
    closed len (print_media len key portkey formats port st)"
proof (cases "strings (vec formats) = []")
  case True
  with assms(3) have "vec formats = [] \<or> hd (vec formats) = Null"
    by (auto simp: strings_nil) (metis list.set_sel(1))
  then show ?thesis
    using True assms by (auto simp: print_media_def media_text_def)
next
  case False
  then have "vec formats \<noteq> []" "hd (vec formats) \<noteq> Null"
    by (auto simp: strings_nil)
  then show ?thesis
    using False print_written_pair [OF conjunct1 conjunct2,
        OF print_formats_written print_formats_written, OF assms(1,2) assms(1,2),
        of key "vec formats" "portkey @ showd (unat port) @ [NL]" ]
    by (simp add: print_media_def media_text_def)
qed

definition message_header :: "LeelenMessage \<Rightarrow> char list" where
  "message_header m = le32 (m_code m) @ le32 (m_id m)"

lemma length_le32 [bytes, simp]: "length (le32 x) = 4"
  by (simp add: le32_def)

lemma print_header_written:
  assumes "8 < len" and "len \<le> length buf"
  shows "written len (message_header m) (print_header m buf len, 8)"
proof -
  have "print_header m buf len = le32 (m_code m) @ le32 (m_id m) @ drop 8 buf"
    using assms by (simp add: print_header_def poke_fits)
  then show ?thesis
    using assms by (simp add: written_def message_header_def)
qed

definition no_junk :: "LeelenMessage \<Rightarrow> bool" where
  "no_junk m \<longleftrightarrow> Junk \<notin> set (vec (m_audio_formats m)) \<and> Junk \<notin> set (vec (m_video_formats m))"

lemma tostring_written:
  assumes "8 < len" and "len \<le> length buf" and "no_junk m"
  shows "written len (message_header m @ message_text m) (LeelenMessage_tostring m buf len) \<and>
    closed len (LeelenMessage_tostring m buf len)"
proof -
  let ?h = "''From='' @ number_str (m_from m) @ ''?'' @ showd (unat (m_from_type m)) @ [NL] @
    ''To='' @ number_str (m_to m) @ [NL]"
  note h = print_written [OF print_header_written [OF assms(1,2), of m], of ?h]
  note a = print_media_written [where key = "''Audio=''" and portkey = "''AudioPort=''" and
      formats = "m_audio_formats m" and port = "m_audio_port m"]
  note v = print_media_written [where key = "''Video=''" and portkey = "''VideoPort=''" and
      formats = "m_video_formats m" and port = "m_video_port m"]
  let ?s1 = "print len ?h (print_header m buf len, 8)"
  have s1: "written len (message_header m @ ?h) ?s1" "closed len ?s1"
    using h assms(1) by auto
  let ?s2 = "print_audio m len ?s1"
  have s2: "written len ((message_header m @ ?h) @ media_text ''Audio='' ''AudioPort=''
      (strings (vec (m_audio_formats m))) (m_audio_port m)) ?s2" "closed len ?s2"
    using a [OF s1] assms(3) by (auto simp: print_audio_def no_junk_def)
  show ?thesis
    using v [OF s2] assms(3)
    by (simp add: LeelenMessage_tostring_def Let_def print_video_def message_text_def no_junk_def
        LEELEN_MESSAGE_HEADER_SIZE_def)
qed

text \<open>Nothing is written at or behind \<open>len\<close>.\<close>

lemma drop_poke: "i + length xs \<le> n \<Longrightarrow> n \<le> length buf \<Longrightarrow> drop n (poke buf i xs) = drop n buf"
  by (simp add: poke_fits)

lemma print_keeps:
  "len \<le> length (fst st) \<Longrightarrow>
   length (fst (print len s st)) = length (fst st) \<and> drop len (fst (print len s st)) = drop len (fst st)"
  by (cases st) (auto simp: print_def remain0_def snprintf_def intro!: drop_poke)

lemma print_formats_keeps:
  "len \<le> length (fst st) \<Longrightarrow>
   length (fst (print_formats len key fs st)) = length (fst st) \<and>
   drop len (fst (print_formats len key fs st)) = drop len (fst st)"
  by (induction len key fs st rule: print_formats.induct) (simp_all add: print_keeps)

lemma print_media_keeps:
  "len \<le> length (fst st) \<Longrightarrow>
   length (fst (print_media len key pk fs port st)) = length (fst st) \<and>
   drop len (fst (print_media len key pk fs port st)) = drop len (fst st)"
  using print_formats_keeps by (simp add: print_media_def print_keeps)

lemma print_header_keeps:
  "len \<le> length buf \<Longrightarrow> length (print_header m buf len) = length buf \<and>
   drop len (print_header m buf len) = drop len buf"
  by (simp add: print_header_def Let_def drop_poke)

lemma tostring_keeps:
  "len \<le> length buf \<Longrightarrow> length (fst (LeelenMessage_tostring m buf len)) = length buf \<and>
   drop len (fst (LeelenMessage_tostring m buf len)) = drop len buf"
  by (simp add: LeelenMessage_tostring_def Let_def print_audio_def print_video_def
      print_media_keeps print_keeps print_header_keeps)

lemma tostring_cur: "8 \<le> snd (LeelenMessage_tostring m buf len)"
proof -
  have p: "snd st \<le> snd (print len s st)" for s st
    by (cases st) (simp add: print_def)
  have f: "snd st \<le> snd (print_formats len key fs st)" for key fs st
  proof (induction len key fs st rule: print_formats.induct)
    case (1 len key f fs st)
    have "snd st \<le> snd (print len (key @ f @ [NL]) st)"
      by (cases st) (simp add: print_def)
    with 1 show ?case by simp
  qed simp_all
  have m: "8 \<le> snd st \<Longrightarrow> 8 \<le> snd (print_media len key pk fs port st)" for key pk fs port st
    using f [of st key "vec fs"] p [of "print_formats len key (vec fs) st" "pk @ showd (unat port) @ [NL]"]
    by (auto simp: print_media_def)
  show ?thesis
    unfolding LeelenMessage_tostring_def Let_def print_audio_def print_video_def
      LEELEN_MESSAGE_HEADER_SIZE_def
    by (intro m) (simp add: print_def)
qed

section \<open>Messages whose strings are lines\<close>

text \<open>The strings of a message that can be printed and read back: no NUL, no newline, and no
  \<open>?\<close> in the source number.\<close>

definition is_line :: "char list \<Rightarrow> bool" where
  "is_line s \<longleftrightarrow> NUL \<notin> set s \<and> NL \<notin> set s"

definition wf_message :: "LeelenMessage \<Rightarrow> bool" where
  "wf_message m \<longleftrightarrow>
     is_line (number_str (m_from m)) \<and> CHR ''?'' \<notin> set (number_str (m_from m)) \<and>
     length (number_str (m_from m)) < LEELEN_NUMBER_STRLEN \<and>
     is_line (number_str (m_to m)) \<and> length (number_str (m_to m)) < LEELEN_NUMBER_STRLEN \<and>
     wf_formats (m_audio_formats m) \<and> wf_formats (m_video_formats m) \<and>
     (\<forall>f \<in> members (m_audio_formats m) \<union> members (m_video_formats m). is_line f)"

lemma strings_vec: "Junk \<notin> set xs \<Longrightarrow> Null \<notin> set xs \<Longrightarrow> map Ptr (strings (xs @ Null # ys)) = xs"
  by (induction xs) (auto split: slot.splits, metis slot.exhaust strings.simps(1) list.simps(9))

lemma strings_formats:
  assumes "wf_formats v"
  shows "map Ptr (strings (vec v)) = slots v" and "members v = set (strings (vec v))"
proof -
  show *: "map Ptr (strings (vec v)) = slots v"
    using assms strings_vec [where ys = "[]"] unfolding wf_formats_def by (auto elim!: wf_ptrvE)
  show "members v = set (strings (vec v))"
    unfolding members_def by (auto simp flip: *)
qed

lemma wf_formats_no_junk: "wf_formats v \<Longrightarrow> Junk \<notin> set (vec v)"
  by (auto simp: wf_formats_def elim!: wf_ptrvE)

lemma is_line_showd [simp]: "is_line (showd n)"
  using showd_digits [of n] by (auto simp: is_line_def)

lemma is_line_append [simp]: "is_line (xs @ ys) \<longleftrightarrow> is_line xs \<and> is_line ys"
  by (auto simp: is_line_def)

lemma is_line_simps [simp]: "is_line []" "is_line (c # s) \<longleftrightarrow> c \<noteq> NUL \<and> c \<noteq> NL \<and> is_line s"
  by (auto simp: is_line_def)

lemma media_text_no_NUL:
  "\<forall>f \<in> set fs. is_line f \<Longrightarrow> is_line key \<Longrightarrow> is_line pk \<Longrightarrow> NUL \<notin> set (media_text key pk fs port)"
  using showd_digits [of "unat port"] by (auto simp: media_text_def is_line_def)

lemma message_text_no_NUL:
  assumes "wf_message m"
  shows "NUL \<notin> set (message_text m)"
proof -
  have "\<forall>f \<in> set (strings (vec (m_audio_formats m))). is_line f"
    "\<forall>f \<in> set (strings (vec (m_video_formats m))). is_line f"
    using assms by (auto simp: wf_message_def strings_formats(2) [symmetric])
  then show ?thesis
    using assms media_text_no_NUL is_line_showd [of "unat (m_from_type m)"]
    by (auto simp: message_text_def wf_message_def is_line_def)
qed

lemma wf_message_no_junk: "wf_message m \<Longrightarrow> no_junk m"
  by (simp add: wf_message_def no_junk_def wf_formats_no_junk)

lemma length_message_header [bytes, simp]: "length (message_header m) = 8"
  by (simp add: message_header_def)

text \<open>What the buffer of \<open>sizeof(buf)\<close> bytes holds afterwards.\<close>

lemma tostring_buffer:
  assumes "8 < len" and "len \<le> length buf" and "wf_message m"
    and "LeelenMessage_tostring m buf len = (buf', cur)"
  shows "cur = 8 + length (message_text m)" and "take 8 buf' = message_header m"
    and "cstr (drop 8 buf') = take (len - 9) (message_text m)"
proof -
  note wr = tostring_written [OF assms(1,2) wf_message_no_junk [OF assms(3)], unfolded assms(4)]
  then have w: "cur = 8 + length (message_text m)"
      "take (min cur (len - 1)) buf' = take (len - 1) (message_header m @ message_text m)"
      "at buf' (min cur (len - 1)) = NUL"
    unfolding written_def closed_def by auto
  have l: "length buf' = length buf"
    using tostring_keeps [OF assms(2), of m] assms(4) by simp
  show "cur = 8 + length (message_text m)" by (rule w)
  let ?k = "min cur (len - 1)"
  let ?t = "take (len - 9) (message_text m)"
  have k: "8 \<le> ?k" using w(1) assms(1) by simp
  have t: "take ?k buf' = message_header m @ ?t"
    unfolding w(2) using assms(1) by simp
  show "take 8 buf' = message_header m"
    using arg_cong [OF t, of "take 8"] k by (simp add: min_def split: if_splits)
  have d: "drop 8 (take ?k buf') = ?t"
    unfolding t by simp
  have "drop 8 buf' = ?t @ drop ?k buf'"
    using d k append_take_drop_id [of "?k - 8" "drop 8 buf'"]
    by (simp add: drop_take)
  moreover have "cstr (drop ?k buf') = []"
    using w(3) l assms(1,2) by (auto simp: at_def cstr_def Cons_nth_drop_Suc [symmetric] split: if_splits)
  moreover have "NUL \<notin> set ?t"
    using message_text_no_NUL [OF assms(3)] by (auto dest: in_set_takeD)
  ultimately show "cstr (drop 8 buf') = ?t"
    by (simp add: cstr_append)
qed

section \<open>Lemmas on parsing\<close>

lemma byte_char:
  "word_of_nat (of_char (char_of (unat (take_bit 8 x)) :: char)) = take_bit 8 (x :: u32)"
proof -
  have "unat (take_bit 8 x) < 256"
    using take_bit_nat_less_exp [of 8 "unat x"] by (simp add: unsigned_take_bit_eq)
  then have "of_char (char_of (unat (take_bit 8 x)) :: char) = unat (take_bit 8 x)"
    by simp
  then show ?thesis by simp
qed

lemma join_bytes:
  "take_bit 8 x OR push_bit 8 (take_bit 8 (drop_bit 8 x)) OR push_bit 16 (take_bit 8 (drop_bit 16 x))
     OR push_bit 24 (take_bit 8 (drop_bit 24 x)) = (x :: u32)"
proof (rule bit_word_eqI)
  fix n assume "n < LENGTH(32)"
  then show "bit (take_bit 8 x OR push_bit 8 (take_bit 8 (drop_bit 8 x)) OR
      push_bit 16 (take_bit 8 (drop_bit 16 x)) OR push_bit 24 (take_bit 8 (drop_bit 24 x))) n = bit x n"
    by (cases rule: byte_cases32) (auto simp: bit_simps)
qed

lemma at_le32:
  "at (le32 x @ ys) 0 = char_of (unat (take_bit 8 x))"
  "at (le32 x @ ys) 1 = char_of (unat (take_bit 8 (drop_bit 8 x)))"
  "at (le32 x @ ys) 2 = char_of (unat (take_bit 8 (drop_bit 16 x)))"
  "at (le32 x @ ys) 3 = char_of (unat (take_bit 8 (drop_bit 24 x)))"
  by (simp_all add: le32_def at_def nth_append)

lemma at_skip4: "at (le32 x @ ys) (k + 4) = at ys k"
  by (simp add: at_def nth_append)

lemma get32_le32:
  "get32 (le32 a @ ys) 0 = a" "get32 (le32 a @ le32 b @ ys) 4 = b"
proof -
  show *: "get32 (le32 a @ ys) 0 = a" for a ys
    unfolding get32_def add_0 at_le32 byte_char by (rule join_bytes)
  show "get32 (le32 a @ le32 b @ ys) 4 = b"
    using * [of b ys] at_skip4 [of a "le32 b @ ys" 0] at_skip4 [of a "le32 b @ ys" 1]
      at_skip4 [of a "le32 b @ ys" 2] at_skip4 [of a "le32 b @ ys" 3]
    by (simp add: get32_def numeral_2_eq_2)
qed

text \<open>The lines of a message and how \<open>strtok_r\<close> finds them.\<close>

definition media_lines :: "char list \<Rightarrow> char list \<Rightarrow> char list list \<Rightarrow> u16 \<Rightarrow> char list list" where
  "media_lines key pk fs port = (if fs = [] then [] else map ((@) key) fs @ [pk @ showd (unat port)])"

definition message_lines :: "LeelenMessage \<Rightarrow> char list list" where
  "message_lines m =
     [''From='' @ number_str (m_from m) @ ''?'' @ showd (unat (m_from_type m)),
      ''To='' @ number_str (m_to m)] @
     media_lines ''Audio='' ''AudioPort='' (strings (vec (m_audio_formats m))) (m_audio_port m) @
     media_lines ''Video='' ''VideoPort='' (strings (vec (m_video_formats m))) (m_video_port m)"

lemma media_text_lines: "media_text key pk fs port = concat (map (\<lambda>l. l @ [NL]) (media_lines key pk fs port))"
  by (simp add: media_text_def media_lines_def comp_def)

lemma message_text_lines: "message_text m = concat (map (\<lambda>l. l @ [NL]) (message_lines m))"
  by (simp add: message_text_def message_lines_def media_text_lines)

lemma strtok_lines: "\<forall>l \<in> set ls. is_line l \<and> l \<noteq> [] \<Longrightarrow> strtok NL (concat (map (\<lambda>l. l @ [NL]) ls)) = ls"
  by (induction ls) (auto simp: strtok_line is_line_def)

lemma media_lines_are_lines:
  "\<forall>f \<in> set fs. is_line f \<Longrightarrow> is_line key \<Longrightarrow> is_line pk \<Longrightarrow> key \<noteq> [] \<Longrightarrow> pk \<noteq> [] \<Longrightarrow>
   \<forall>l \<in> set (media_lines key pk fs port). is_line l \<and> l \<noteq> []"
  by (auto simp: media_lines_def)

lemma strtok_message:
  assumes "wf_message m"
  shows "strtok NL (message_text m) = message_lines m"
  unfolding message_text_lines
proof (rule strtok_lines)
  have "\<forall>f \<in> set (strings (vec (m_audio_formats m))). is_line f"
    "\<forall>f \<in> set (strings (vec (m_video_formats m))). is_line f"
    using assms by (auto simp: wf_message_def strings_formats(2) [symmetric])
  then have "\<forall>l \<in> set (media_lines ''Audio='' ''AudioPort='' (strings (vec (m_audio_formats m)))
        (m_audio_port m)). is_line l \<and> l \<noteq> []"
    "\<forall>l \<in> set (media_lines ''Video='' ''VideoPort='' (strings (vec (m_video_formats m)))
        (m_video_port m)). is_line l \<and> l \<noteq> []"
    by - (erule media_lines_are_lines, simp, simp, simp, simp)+
  moreover have "\<forall>l \<in> set [''From='' @ number_str (m_from m) @ ''?'' @ showd (unat (m_from_type m)),
      ''To='' @ number_str (m_to m)]. is_line l \<and> l \<noteq> []"
    using assms by (simp add: wf_message_def)
  ultimately show "\<forall>l \<in> set (message_lines m). is_line l \<and> l \<noteq> []"
    unfolding message_lines_def set_append ball_Un by blast
qed

lemma parse_lines_append:
  "parse_lines na nv (xs @ ys) self w =
     (let (ok, self, w) = parse_lines na nv xs self w
      in if ok then parse_lines na nv ys self w else (False, self, w))"
  by (induction na nv xs self w rule: parse_lines.induct) (auto split: prod.splits)

lemma parse_line_env [world]:
  "parse_line na nv l m w = (ok, m', w') \<Longrightarrow> same_env w w' \<and> w_sent w' = w_sent w"
  by (auto simp: parse_line_def Let_def dest: strvpush_env split: if_splits prod.splits)

lemma parse_lines_env [world]:
  "parse_lines na nv ls m w = (ok, m', w') \<Longrightarrow> same_env w w' \<and> w_sent w' = w_sent w"
proof (induction na nv ls m w rule: parse_lines.induct)
  case (2 na nv l ls m w)
  obtain ok1 m1 w1 where p: "parse_line na nv l m w = (ok1, m1, w1)" by (metis prod_cases3)
  with parse_line_env [OF p] 2 show ?case by (auto split: if_splits intro: same_env_trans)
qed simp

lemma LeelenMessage_init_env [world]:
  "LeelenMessage_init m msg na nv w = (r, m', w') \<Longrightarrow>
   same_env w w' \<and> w_sent w' = w_sent w \<and> (r = 0 \<or> r = - 1)"
  by (auto simp: LeelenMessage_init_def dest: parse_lines_env split: prod.splits if_splits)

text \<open>A run of \<open>Audio=\<close> or \<open>Video=\<close> lines pushes the formats in order, or stops at a failed
  allocation.\<close>

lemma strvpush_spec:
  assumes "wf_formats v" and "strvpush v s w = (i, v', w')"
  shows "w_ok w' = w_ok w \<and> wf_formats v' \<and>
    (i = - 1 \<or> 0 \<le> i \<and> slots v' = slots v @ [Ptr s]) \<and> ((\<forall>k. w_ok w k) \<longrightarrow> 0 \<le> i)"
proof (cases "w_ok w (w_tick w)")
  case False
  with assms show ?thesis by (auto simp: strvpush_def sys_def)
next
  case True
  with assms(2) have "ptrvpush v s (step w) = (i, v', w')"
    by (simp add: strvpush_def sys_def)
  from ptrvpush_spec [OF _ this] assms(1) show ?thesis
    by (auto simp: wf_formats_def split: if_splits)
qed

lemma push_formats:
  assumes "wf_formats v" and "insert_all strvpush v fs w = (ok, v', w')"
  shows "wf_formats v' \<and> (ok \<longrightarrow> slots v' = slots v @ map Ptr fs) \<and> w_ok w' = w_ok w \<and>
    ((\<forall>k. w_ok w k) \<longrightarrow> ok)"
  using assms
proof (induction fs arbitrary: v w)
  case (Cons f fs)
  obtain i v1 w1 where p: "strvpush v f w = (i, v1, w1)" by (metis prod_cases3)
  note s = strvpush_spec [OF Cons.prems(1) p]
  show ?case
  proof (cases "0 \<le> i")
    case False
    with Cons.prems p s show ?thesis by auto
  next
    case True
    with Cons.prems(2) p have "insert_all strvpush v1 fs w1 = (ok, v', w')" by simp
    from Cons.IH [OF _ this] s True show ?thesis by auto
  qed
qed auto

lemma parse_audio_lines:
  "parse_lines False False (map ((@) ''Audio='') fs) m w =
     (let (ok, v, w) = insert_all strvpush (m_audio_formats m) fs w in (ok, m\<lparr>m_audio_formats := v\<rparr>, w))"
  by (induction fs arbitrary: m w)
    (auto simp: parse_line_def has_prefix_def Let_def not_le split: prod.splits)

lemma parse_video_lines:
  "parse_lines False False (map ((@) ''Video='') fs) m w =
     (let (ok, v, w) = insert_all strvpush (m_video_formats m) fs w in (ok, m\<lparr>m_video_formats := v\<rparr>, w))"
  by (induction fs arbitrary: m w)
    (auto simp: parse_line_def has_prefix_def Let_def not_le split: prod.splits)

lemma parse_port_showd [decimal, simp]: "parse_port (showd (unat (p :: u16))) = p"
proof -
  have "int (unat p) \<le> LONG_MAX"
    using unsigned_less [of p, where ?'a = int] by (simp add: LONG_MAX_def)
  then show ?thesis by (simp add: parse_port_def strtol_showd_end)
qed

text \<open>Parsing the lines of a message, one group after the other.\<close>

lemma parse_media_audio:
  assumes "vec (m_audio_formats m) = []" and "wf_formats (m_audio_formats m)" and "m_audio_port m = 0"
    and "parse_lines False False (media_lines ''Audio='' ''AudioPort='' fs port) m w = (ok, m', w')"
  shows "w_ok w' = w_ok w \<and> ((\<forall>k. w_ok w k) \<longrightarrow> ok) \<and>
    (ok \<longrightarrow> (\<exists>v. m' = m\<lparr>m_audio_formats := v, m_audio_port := if fs = [] then 0 else port\<rparr> \<and>
      wf_formats v \<and> slots v = map Ptr fs))"
proof (cases "fs = []")
  case True
  with assms have "ok" "m' = m" "w' = w" by (auto simp: media_lines_def)
  moreover have "slots (m_audio_formats m) = []" using assms(1) by (simp add: slots_def)
  ultimately show ?thesis using True assms(2,3) by (auto intro!: exI [of _ "m_audio_formats m"])
next
  case False
  obtain ok1 v w1 where p: "insert_all strvpush (m_audio_formats m) fs w = (ok1, v, w1)"
    by (metis prod_cases3)
  have "slots (m_audio_formats m) = []" using assms(1) by (simp add: slots_def)
  then show ?thesis
    using False assms(4) p push_formats [OF assms(2) p]
    by (auto simp: media_lines_def parse_lines_append parse_audio_lines parse_line_def has_prefix_def
        split: if_splits)
qed

lemma parse_media_video:
  assumes "vec (m_video_formats m) = []" and "wf_formats (m_video_formats m)" and "m_video_port m = 0"
    and "parse_lines False False (media_lines ''Video='' ''VideoPort='' fs port) m w = (ok, m', w')"
  shows "w_ok w' = w_ok w \<and> ((\<forall>k. w_ok w k) \<longrightarrow> ok) \<and>
    (ok \<longrightarrow> (\<exists>v. m' = m\<lparr>m_video_formats := v, m_video_port := if fs = [] then 0 else port\<rparr> \<and>
      wf_formats v \<and> slots v = map Ptr fs))"
proof (cases "fs = []")
  case True
  with assms have "ok" "m' = m" "w' = w" by (auto simp: media_lines_def)
  moreover have "slots (m_video_formats m) = []" using assms(1) by (simp add: slots_def)
  ultimately show ?thesis using True assms(2,3) by (auto intro!: exI [of _ "m_video_formats m"])
next
  case False
  obtain ok1 v w1 where p: "insert_all strvpush (m_video_formats m) fs w = (ok1, v, w1)"
    by (metis prod_cases3)
  have "slots (m_video_formats m) = []" using assms(1) by (simp add: slots_def)
  then show ?thesis
    using False assms(4) p push_formats [OF assms(2) p]
    by (auto simp: media_lines_def parse_lines_append parse_video_lines parse_line_def has_prefix_def
        split: if_splits)
qed

text \<open>The two address lines.\<close>

definition header_parsed :: "LeelenMessage \<Rightarrow> LeelenMessage \<Rightarrow> LeelenMessage" where
  "header_parsed m self =
     self\<lparr>m_from := number_set_str (m_from self) (number_str (m_from m)),
          m_from_type := m_from_type m,
          m_to := number_set_str (m_to self) (number_str (m_to m))\<rparr>"

lemma after_chr_type:
  assumes "CHR ''?'' \<notin> set n"
  shows "before_chr (CHR ''?'') (n @ ''?'' @ t) = n" and "after_chr (CHR ''?'') (n @ ''?'' @ t) = Some t"
  using assms by (simp_all add: before_chr_append after_chr_append)

lemma parse_type_showd:
  assumes "CHR ''?'' \<notin> set n"
  shows "parse_from_type (n @ ''?'' @ showd (unat (t :: u8))) self = self\<lparr>m_from_type := t\<rparr>"
proof -
  have "int (unat t) \<le> LONG_MAX"
    using unsigned_less [of t, where ?'a = int] by (simp add: LONG_MAX_def)
  then have s: "strtol (showd (unat t)) = (int (unat t), [])" by (rule strtol_showd_end)
  obtain c cs where c: "showd (unat t) = c # cs" by (cases "showd (unat t)") auto
  show ?thesis
    using after_chr_type(2) [OF assms, of "showd (unat t)"] s
    unfolding parse_from_type_def c by simp
qed

lemma parse_header_lines:
  assumes "wf_message m"
  shows "parse_lines na nv [''From='' @ number_str (m_from m) @ ''?'' @ showd (unat (m_from_type m)),
      ''To='' @ number_str (m_to m)] self w = (True, header_parsed m self, w)"
proof -
  let ?l = "number_str (m_from m) @ ''?'' @ showd (unat (m_from_type m))"
  have q: "CHR ''?'' \<notin> set (number_str (m_from m))"
    "length (number_str (m_from m)) < LEELEN_NUMBER_STRLEN" "length (number_str (m_to m)) < LEELEN_NUMBER_STRLEN"
    using assms by (simp_all add: wf_message_def)
  have n: "parse_from_number ?l self = self\<lparr>m_from := number_set_str (m_from self) (number_str (m_from m))\<rparr>"
    using q after_chr_type(1) [OF q(1), of "showd (unat (m_from_type m))"] by (simp add: parse_from_number_def)
  have "parse_line na nv (''From='' @ ?l) self w =
      (True, (self\<lparr>m_from := number_set_str (m_from self) (number_str (m_from m))\<rparr>)\<lparr>m_from_type := m_from_type m\<rparr>, w)"
    using n parse_type_showd [OF q(1), of "m_from_type m"] unfolding parse_line_def by (simp add: has_prefix_def)
  moreover have "parse_line na nv (''To='' @ number_str (m_to m)) s w =
      (True, s\<lparr>m_to := number_set_str (m_to s) (number_str (m_to m))\<rparr>, w)" for s
    using q(3) by (simp add: parse_line_def has_prefix_def parse_to_def)
  ultimately show ?thesis
    by (simp add: header_parsed_def)
qed

text \<open>A raw message that holds the header and the text of \<open>m\<close> parses as \<open>m\<close>.\<close>

definition layout_ok :: "LeelenMessage \<Rightarrow> bool" where
  "layout_ok m \<longleftrightarrow> wf_layout (m_from m) \<and> wf_layout (m_to m)"

lemma init_message:
  assumes "wf_message m" and "take 8 buf' = message_header m"
    and "cstr (drop 8 buf') = message_text m" and "layout_ok self"
    and "LeelenMessage_init self buf' False False w = (r, m', w')"
  shows "((\<forall>k. w_ok w k) \<longrightarrow> r = 0) \<and> (r = - 1 \<or> r = 0 \<and>
    m_id m' = m_id m \<and> m_code m' = m_code m \<and>
    number_str (m_from m') = number_str (m_from m) \<and> m_from_type m' = m_from_type m \<and>
    number_str (m_to m') = number_str (m_to m) \<and>
    slots (m_audio_formats m') = slots (m_audio_formats m) \<and>
    slots (m_video_formats m') = slots (m_video_formats m) \<and>
    m_audio_port m' = (if slots (m_audio_formats m) = [] then 0 else m_audio_port m) \<and>
    m_video_port m' = (if slots (m_video_formats m) = [] then 0 else m_video_port m))"
proof -
  let ?fa = "strings (vec (m_audio_formats m))" and ?fv = "strings (vec (m_video_formats m))"
  have lines: "strtok NL (cstr (drop LEELEN_MESSAGE_HEADER_SIZE buf')) = message_lines m"
    using strtok_message [OF assms(1)] assms(3) by (simp add: LEELEN_MESSAGE_HEADER_SIZE_def)
  have "buf' = le32 (m_code m) @ le32 (m_id m) @ drop 8 buf'"
    using assms(2) append_take_drop_id [of 8 buf'] by (simp add: message_header_def)
  then have head: "LEELEN_MESSAGE_CODE buf' = m_code m" "LEELEN_MESSAGE_ID buf' = m_id m"
    unfolding LEELEN_MESSAGE_CODE_def LEELEN_MESSAGE_ID_def by (metis get32_le32)+
  let ?m1 = "header_parsed m (init_fields self buf')"
  have m1: "vec (m_audio_formats ?m1) = []" "wf_formats (m_audio_formats ?m1)" "m_audio_port ?m1 = 0"
    by (simp_all add: header_parsed_def init_fields_def)
  obtain ok2 m2 w2 where p2: "parse_lines False False
      (media_lines ''Audio='' ''AudioPort='' ?fa (m_audio_port m)) ?m1 w = (ok2, m2, w2)"
    by (metis prod_cases3)
  note a = parse_media_audio [OF m1 p2]
  have run: "parse_lines False False (message_lines m) (init_fields self buf') w =
      (if ok2 then parse_lines False False (media_lines ''Video='' ''VideoPort='' ?fv (m_video_port m)) m2 w2
       else (False, m2, w2))"
    using p2 by (simp only: message_lines_def parse_lines_append parse_header_lines [OF assms(1)] Let_def
        prod.case if_True)
  show ?thesis
  proof (cases ok2)
    case False
    then show ?thesis
      using a assms(5) by (auto simp: LeelenMessage_init_def lines run)
  next
    case True
    with a obtain va where va: "m2 = ?m1\<lparr>m_audio_formats := va,
        m_audio_port := if ?fa = [] then 0 else m_audio_port m\<rparr>" "slots va = map Ptr ?fa"
      "w_ok w2 = w_ok w"
      by auto
    have m2: "vec (m_video_formats m2) = []" "wf_formats (m_video_formats m2)" "m_video_port m2 = 0"
      unfolding va(1) by (simp_all add: header_parsed_def init_fields_def)
    obtain ok3 m3 w3 where p3: "parse_lines False False
        (media_lines ''Video='' ''VideoPort='' ?fv (m_video_port m)) m2 w2 = (ok3, m3, w3)"
      by (metis prod_cases3)
    note v = parse_media_video [OF m2 p3]
    have res: "r = (if ok3 then 0 else - 1)" "m' = m3"
      using assms(5) True by (simp_all add: LeelenMessage_init_def lines run p3)
    have sa: "map Ptr ?fa = slots (m_audio_formats m)" and sv: "map Ptr ?fv = slots (m_video_formats m)"
      using assms(1) strings_formats(1) by (simp_all add: wf_message_def)
    then have e: "?fa = [] \<longleftrightarrow> slots (m_audio_formats m) = []" "?fv = [] \<longleftrightarrow> slots (m_video_formats m) = []"
      by (metis map_is_Nil_conv)+
    show ?thesis
    proof (cases ok3)
      case False
      then show ?thesis using v va(3) res by auto
    next
      case True
      with v obtain vv where vv: "m3 = m2\<lparr>m_video_formats := vv,
          m_video_port := if ?fv = [] then 0 else m_video_port m\<rparr>" "slots vv = map Ptr ?fv"
        by auto
      have "number_str (m_from m3) = number_str (m_from m)" "number_str (m_to m3) = number_str (m_to m)"
        using assms(1,4) unfolding vv(1) va(1)
        by (simp_all add: header_parsed_def init_fields_def number_str_set wf_message_def
            LEELEN_NUMBER_STRLEN_def is_line_def)
      then show ?thesis
        using True res vv va sa sv e head
        by (simp add: header_parsed_def init_fields_def)
    qed
  qed
qed

lemma LeelenMessage_tostring_code:
  assumes "8 < len" and "len \<le> length buf" and "wf_message m"
    and "LeelenMessage_tostring m buf len = (buf', cur)"
  shows "LEELEN_MESSAGE_CODE buf' = m_code m" and "LEELEN_MESSAGE_ID buf' = m_id m"
proof -
  have "buf' = le32 (m_code m) @ le32 (m_id m) @ drop 8 buf'"
    using tostring_buffer(2) [OF assms] append_take_drop_id [of 8 buf'] by (simp add: message_header_def)
  then show "LEELEN_MESSAGE_CODE buf' = m_code m" "LEELEN_MESSAGE_ID buf' = m_id m"
    unfolding LEELEN_MESSAGE_CODE_def LEELEN_MESSAGE_ID_def by (metis get32_le32)+
qed

section \<open>Properties\<close>

text \<open>\<open>LeelenMessage_tostring\<close> never writes behind the \<open>len\<close> bytes it was given, returns the
  length of the complete message, and leaves a NUL-terminated prefix of it: the whole text when
  it fits, the first \<open>len - 9\<close> characters of it otherwise.\<close>

theorem LeelenMessage_tostring_bounded:
  assumes "8 < len" and "len \<le> length buf" and "wf_message m"
    and "LeelenMessage_tostring m buf len = (buf', cur)"
  shows "cur = LEELEN_MESSAGE_HEADER_SIZE + length (message_text m) \<and>
    length buf' = length buf \<and> drop len buf' = drop len buf \<and>
    LEELEN_MESSAGE_CODE buf' = m_code m \<and> LEELEN_MESSAGE_ID buf' = m_id m \<and>
    cstr (drop LEELEN_MESSAGE_HEADER_SIZE buf') = take (len - 9) (message_text m)"
proof -
  note b = tostring_buffer [OF assms] LeelenMessage_tostring_code [OF assms]
  then show ?thesis
    using tostring_keeps [OF assms(2), of m] assms(4) by (simp add: LEELEN_MESSAGE_HEADER_SIZE_def)
qed

definition sample_message :: LeelenMessage where
  "sample_message =
     \<lparr>m_id = 0x01020304, m_code = LEELEN_CODE_CALL, m_from = sample_base, m_from_type = 1,
      m_to = sample_base, m_audio_port = 7078, m_video_port = 0,
      m_audio_formats = \<lparr>vec = [Ptr ''PCMU'', Null], plen = 1\<rparr>, m_video_formats = ptrv_empty\<rparr>"

lemma number_str_sample: "number_str sample_base = ''9999-0001''"
  by code_simp

lemma sample_message_wf: "wf_message sample_message"
  by (simp add: wf_message_def sample_message_def number_str_sample LEELEN_NUMBER_STRLEN_def
      wf_formats_def wf_ptrv_def members_def slots_def)

theorem LeelenMessage_tostring_bounded_witness:
  "let (buf', cur) = LeelenMessage_tostring sample_message (replicate 20 NUL) 16
   in length buf' = 20 \<and> drop 16 buf' = replicate 4 NUL \<and> LEELEN_MESSAGE_CODE buf' = LEELEN_CODE_CALL"
  using LeelenMessage_tostring_bounded [of 16 "replicate 20 NUL" sample_message] sample_message_wf
  by (cases "LeelenMessage_tostring sample_message (replicate 20 NUL) 16")
    (simp add: sample_message_def)

lemma message_init_tostring:
  assumes "wf_message m" and "LeelenMessage_tostring m buf len = (buf', cur)"
    and "cur < len" and "len \<le> length buf" and "layout_ok self"
    and "LeelenMessage_init self buf' False False w = (r, m', w')"
  shows "((\<forall>k. w_ok w k) \<longrightarrow> r = 0) \<and> (r = - 1 \<or> r = 0 \<and>
    m_id m' = m_id m \<and> m_code m' = m_code m \<and>
    number_str (m_from m') = number_str (m_from m) \<and> m_from_type m' = m_from_type m \<and>
    number_str (m_to m') = number_str (m_to m) \<and>
    slots (m_audio_formats m') = slots (m_audio_formats m) \<and>
    slots (m_video_formats m') = slots (m_video_formats m) \<and>
    m_audio_port m' = (if slots (m_audio_formats m) = [] then 0 else m_audio_port m) \<and>
    m_video_port m' = (if slots (m_video_formats m) = [] then 0 else m_video_port m))"
proof -
  from tostring_cur [of m buf len] assms(2,3) have len: "8 < len" by simp
  note b = tostring_buffer [OF len assms(4,1,2)]
  then have "cstr (drop 8 buf') = message_text m"
    using assms(3) by simp
  then show ?thesis
    by (rule init_message [OF assms(1) b(2) _ assms(5,6)])
qed

lemma sample_message_text: "length (message_text sample_message) \<le> 60"
proof -
  have "length (showd 1) \<le> 1" "length (showd 7078) \<le> 4"
    by (rule length_showd_le; simp)+
  then show ?thesis
    by (simp add: message_text_def sample_message_def number_str_sample media_text_def)
qed

text \<open>What a receiver can see of a message.\<close>

definition message_fields :: "LeelenMessage \<Rightarrow> (u32 \<times> u32 \<times> char list \<times> u8 \<times> char list) \<times> (char list slot list \<times> u16) \<times> (char list slot list \<times> u16)" where
  "message_fields m =
     ((m_id m, m_code m, number_str (m_from m), m_from_type m, number_str (m_to m)),
      (slots (m_audio_formats m), if slots (m_audio_formats m) = [] then 0 else m_audio_port m),
      (slots (m_video_formats m), if slots (m_video_formats m) = [] then 0 else m_video_port m))"

definition message_packet :: "LeelenMessage \<Rightarrow> char list" where
  "message_packet m = fst (LeelenMessage_tostring m (replicate 1200 NUL) 1200)"

interpretation wire: codec "\<lambda>m. wf_message m \<and> length (message_text m) < 1192" message_packet
  "\<lambda>buf m. \<exists>self w w'. layout_ok self \<and> LeelenMessage_init self buf False False (w :: unit world) = (0, m, w')" message_fields
proof unfold_locales
  fix x assume x: "wf_message x \<and> length (message_text x) < 1192"
  obtain buf cur where t: "LeelenMessage_tostring x (replicate 1200 NUL) 1200 = (buf, cur)" by fastforce
  have cur: "cur < 1200" using tostring_buffer(1) [OF _ _ _ t] x by simp
  have p: "message_packet x = buf" by (simp add: message_packet_def t)
  note init = message_init_tostring [OF conjunct1 [OF x] t cur]
  show "\<exists>y self w w'. layout_ok self \<and> LeelenMessage_init self (message_packet x) False False (w :: unit world) = (0, y, w')"
  proof -
    obtain r m' w' where i: "LeelenMessage_init sample_message buf False False (calm :: unit world) = (r, m', w')" by (metis prod_cases3)
    have "layout_ok sample_message" by (simp add: layout_ok_def sample_message_def sample_base_valid)
    with init [OF _ _ i] have "r = 0" by simp
    with i p \<open>layout_ok sample_message\<close> show ?thesis by blast
  qed
  fix y assume "\<exists>self w w'. layout_ok self \<and> LeelenMessage_init self (message_packet x) False False (w :: unit world) = (0, y, w')"
  then obtain self w and w' :: "unit world" where "layout_ok self" "LeelenMessage_init self buf False False w = (0, y, w')"
    unfolding p by blast
  from init [OF _ this] show "message_fields y = message_fields x" by (simp add: message_fields_def)
qed

text \<open>C13. Printing a message into a buffer that is large enough and parsing the buffer gives the
  message back: the ID, the code, both numbers as strings, the type of the sender and the formats
  in order; a port survives when its medium has formats and is 0 otherwise. The parser fails
  only when an allocation fails.\<close>

theorem LeelenMessage_roundtrip:
  assumes "wf_message m" and "LeelenMessage_tostring m buf len = (buf', cur)"
    and "cur < len" and "len \<le> length buf" and "layout_ok self"
    and "LeelenMessage_init self buf' False False w = (r, m', w')"
  shows "((\<forall>k. w_ok w k) \<longrightarrow> r = 0) \<and> (r = - 1 \<or> r = 0 \<and>
    m_id m' = m_id m \<and> m_code m' = m_code m \<and>
    number_str (m_from m') = number_str (m_from m) \<and> m_from_type m' = m_from_type m \<and>
    number_str (m_to m') = number_str (m_to m) \<and>
    slots (m_audio_formats m') = slots (m_audio_formats m) \<and>
    slots (m_video_formats m') = slots (m_video_formats m) \<and>
    m_audio_port m' = (if slots (m_audio_formats m) = [] then 0 else m_audio_port m) \<and>
    m_video_port m' = (if slots (m_video_formats m) = [] then 0 else m_video_port m))"
  using assms by (rule message_init_tostring)

theorem LeelenMessage_roundtrip_witness:
  "let (buf', cur) = LeelenMessage_tostring sample_message (replicate 80 NUL) 80;
       (r, m', w') = LeelenMessage_init sample_message buf' False False (calm :: unit world)
   in r = 0 \<and> slots (m_audio_formats m') = [Ptr ''PCMU''] \<and> m_audio_port m' = 7078"
proof -
  obtain buf' cur where t: "LeelenMessage_tostring sample_message (replicate 80 NUL) 80 = (buf', cur)"
    by fastforce
  obtain r m' and w' :: "unit world" where
    i: "LeelenMessage_init sample_message buf' False False calm = (r, m', w')"
    by (metis prod_cases3)
  have "cur < 80"
    using tostring_buffer(1) [OF _ _ sample_message_wf t] sample_message_text by simp
  moreover have "layout_ok sample_message"
    by (simp add: layout_ok_def sample_message_def sample_base_valid)
  ultimately show ?thesis
    using LeelenMessage_roundtrip [OF sample_message_wf t _ _ _ i] i t
    by (auto simp: slots_def sample_message_def [THEN arg_cong, of m_audio_formats]
        sample_message_def [THEN arg_cong, of m_audio_port])
qed

text \<open>No two messages share a datagram: when their packets are equal, everything a receiver can see of them is.\<close>

theorem message_packet_distinguishes:
  assumes "wf_message m" and "length (message_text m) < 1192" and "wf_message m'" and "length (message_text m') < 1192"
    and "message_packet m = message_packet m'"
  shows "message_fields m = message_fields m'"
  using wire.enc_distinguishes assms by blast

end
