(* ===== verification/Dialog.thy ===== *)
theory Dialog
  imports Message
begin

text \<open>
  \<^verbatim>\<open>leelen/voip/dialog.h\<close>, \<^verbatim>\<open>leelen/voip/dialog.c\<close> and \<^verbatim>\<open>utils/timeval.h\<close>:
  one VoIP dialog, its state machine, the messages it sends and the ones it receives.

  A datagram is the socket, the destination and the bytes that \<open>sendto\<close> was given. Times are
  pairs of seconds and nanoseconds. A function of the source that calls \<open>sendto\<close>, \<open>time\<close> or
  \<open>malloc\<close> threads the world. The buffers on the stack start as NUL bytes; \<open>stack\<close> is the
  indeterminate content of the local \<open>struct LeelenMessage\<close> of \<open>LeelenDialog_receive\<close>. An
  output pointer \<open>char ***formats\<close> is a flag (is it non-NULL?) and an optional result, which is
  \<open>None\<close> where the function returns without storing through the pointer.
\<close>

type_synonym datagram = "int \<times> sockaddr_in46 \<times> char list"
type_synonym net = "datagram world"

section \<open>timeval.h\<close>

definition timeout_reached :: "int \<Rightarrow> int \<Rightarrow> int \<Rightarrow> int \<Rightarrow> int \<Rightarrow> int \<Rightarrow> bool" where
  "timeout_reached sec_end nsec_end sec_beg nsec_beg sec_timeout nsec_timeout =
     (let sec_interval = sec_end - sec_beg;
          nsec_interval = nsec_end - nsec_beg;
          (sec_interval, nsec_interval) =
            (if nsec_interval < 0 then (sec_interval - 1, nsec_interval + 1000000000)
             else (sec_interval, nsec_interval))
      in sec_timeout < sec_interval \<or>
         (sec_interval = sec_timeout \<and> nsec_timeout \<le> nsec_interval))"

section \<open>The state of a dialog\<close>

datatype LeelenDialogState = DISCONNECTED | CONNECTING | CONNECTED | DISCONNECTING

record LeelenDialog =
  d_id :: u32
  d_our :: LeelenNumber
  d_our_type :: u8
  d_their :: LeelenNumber
  d_their_type :: u8
  d_timeout :: u32
  d_duration :: u32
  d_ours :: sockaddr_in46
  d_theirs :: sockaddr_in46
  d_our_audio_port :: u16
  d_our_video_port :: u16
  d_their_audio_port :: u16
  d_their_video_port :: u16
  d_mtu :: u16
  d_state :: LeelenDialogState
  d_last_sent :: "int \<times> int"
  d_last_activity :: int
  d_userdata :: "nat option"

definition invites :: "u32 \<Rightarrow> bool" where
  "invites code \<longleftrightarrow>
     code \<in> {LEELEN_CODE_CALL, LEELEN_CODE_VIEW, LEELEN_CODE_VOICE_MESSAGE, LEELEN_CODE_ACCEPTED}"

definition LeelenDialogState_receive :: "LeelenDialogState \<Rightarrow> u32 \<Rightarrow> LeelenDialogState" where
  "LeelenDialogState_receive state code =
     (if code = LEELEN_CODE_CALL \<or> code = LEELEN_CODE_VIEW \<or> code = LEELEN_CODE_VOICE_MESSAGE \<or>
         code = LEELEN_CODE_ACCEPTED then CONNECTED
      else if code = LEELEN_CODE_BYE then DISCONNECTED
      else state)"

definition LeelenDialogState_send :: "LeelenDialogState \<Rightarrow> u32 \<Rightarrow> LeelenDialogState" where
  "LeelenDialogState_send state code =
     (if code = LEELEN_CODE_CALL \<or> code = LEELEN_CODE_VIEW \<or> code = LEELEN_CODE_VOICE_MESSAGE \<or>
         code = LEELEN_CODE_ACCEPTED then CONNECTING
      else if code = LEELEN_CODE_BYE then DISCONNECTING
      else state)"

fun LeelenDialogState_ack :: "LeelenDialogState \<Rightarrow> LeelenDialogState" where
  "LeelenDialogState_ack CONNECTING = CONNECTED"
| "LeelenDialogState_ack DISCONNECTING = DISCONNECTED"
| "LeelenDialogState_ack state = state"

fun LeelenDialogState_nak :: "LeelenDialogState \<Rightarrow> LeelenDialogState" where
  "LeelenDialogState_nak CONNECTING = DISCONNECTED"
| "LeelenDialogState_nak DISCONNECTING = CONNECTED"
| "LeelenDialogState_nak state = state"

section \<open>Operations\<close>

definition LeelenDialog_ack_timeout :: "LeelenDialog \<Rightarrow> 'p world \<Rightarrow> bool \<times> LeelenDialog \<times> 'p world" where
  "LeelenDialog_ack_timeout self w =
     (if fst (d_last_sent self) = 0 then (True, self, w)
      else let (now, w) = sys_time w in
        if \<not> timeout_reached (fst now) (snd now) (fst (d_last_sent self)) (snd (d_last_sent self))
               (int (unat (d_timeout self) div 1000)) (int ((unat (d_timeout self) mod 1000) * 1000000))
        then (False, self, w)
        else (True, self\<lparr>d_last_sent := (0, snd (d_last_sent self)),
                         d_state := LeelenDialogState_nak (d_state self)\<rparr>, w))"

definition LeelenDialog_dialog_timeout :: "LeelenDialog \<Rightarrow> int \<Rightarrow> bool" where
  "LeelenDialog_dialog_timeout self now \<longleftrightarrow> d_last_activity self + int (unat (d_duration self)) < now"

definition LeelenDialog_sendmsg ::
  "LeelenDialog \<Rightarrow> char list \<Rightarrow> nat \<Rightarrow> int \<Rightarrow> net \<Rightarrow> int \<times> LeelenDialog \<times> net" where
  "LeelenDialog_sendmsg self buf n sockfd w =
     (let (ok, w) = sys_send (sockfd, d_theirs self, rd buf 0 n) w in
      if \<not> ok then (- 1, self, w)
      else let code = LEELEN_MESSAGE_CODE buf in
        if code \<noteq> LEELEN_CODE_OK then
          let (now, w) = sys_time w in
          (0, self\<lparr>d_state := LeelenDialogState_send (d_state self) code, d_last_sent := now,
                   d_last_activity := fst now + 1\<rparr>, w)
        else (0, self, w))"

definition dialog_message :: "LeelenDialog \<Rightarrow> u32 \<Rightarrow> LeelenMessage" where
  "dialog_message self code =
     \<lparr>m_id = d_id self, m_code = code, m_from = d_our self, m_from_type = d_our_type self,
      m_to = d_their self, m_audio_port = 0, m_video_port = 0,
      m_audio_formats = ptrv_empty, m_video_formats = ptrv_empty\<rparr>"

definition LeelenDialog_sendcode ::
  "LeelenDialog \<Rightarrow> u32 \<Rightarrow> int \<Rightarrow> net \<Rightarrow> int \<times> LeelenDialog \<times> net" where
  "LeelenDialog_sendcode self code sockfd w =
     (let (buf, cur) = LeelenMessage_tostring (dialog_message self code)
            (replicate LEELEN_MESSAGE_MIN_SIZE NUL) LEELEN_MESSAGE_MIN_SIZE
      in LeelenDialog_sendmsg self buf (cur + 1) sockfd w)"

definition LeelenDialog_may_bye :: "LeelenDialog \<Rightarrow> int \<Rightarrow> net \<Rightarrow> int \<times> LeelenDialog \<times> net" where
  "LeelenDialog_may_bye self sockfd w =
     (if d_id self = 0 then (1, self, w)
      else if d_state self = DISCONNECTED \<or> d_state self = DISCONNECTING then (1, self, w)
      else LeelenDialog_sendcode self LEELEN_CODE_BYE sockfd w)"

definition LeelenDialog_ack :: "LeelenDialog \<Rightarrow> int \<Rightarrow> net \<Rightarrow> int \<times> LeelenDialog \<times> net" where
  "LeelenDialog_ack self sockfd w = LeelenDialog_sendcode self LEELEN_CODE_OK sockfd w"

definition LeelenDialog_send ::
  "LeelenDialog \<Rightarrow> u32 \<Rightarrow> int \<Rightarrow> char list ptrv \<Rightarrow> char list ptrv \<Rightarrow> net \<Rightarrow> int \<times> LeelenDialog \<times> net"
where
  "LeelenDialog_send self code sockfd audio_formats video_formats w =
     (if d_id self = 0 then (255, self, w)
      else if unat (d_mtu self) < LEELEN_MESSAGE_MIN_SIZE then (255, self, w)
      else
        let mtu = unat (d_mtu self);
            message = (dialog_message self code)\<lparr>m_audio_formats := audio_formats,
              m_video_formats := video_formats, m_audio_port := d_our_audio_port self,
              m_video_port := d_our_video_port self\<rparr>;
            (buf, cur) = LeelenMessage_tostring message (replicate mtu NUL) mtu;
            len = cur + 1;
            (buf, len) = (if len \<le> mtu then (buf, len) else (buf[mtu - 1 := NUL], mtu))
        in LeelenDialog_sendmsg self buf len sockfd w)"

text \<open>The five checks of \<open>LeelenDialog_receive\<close> on a parsed message.\<close>

definition verify_from :: "LeelenMessage \<Rightarrow> LeelenDialog \<Rightarrow> LeelenDialog" where
  "verify_from message self =
     (if number_str (m_from message) = [] then self
      else if number_str (d_their self) = [] then self\<lparr>d_their := m_from message\<rparr>
      else if number_str (d_their self) = number_str (m_from message) then self
      else self\<lparr>d_their := m_from message\<rparr>)"

definition verify_type :: "LeelenMessage \<Rightarrow> LeelenDialog \<Rightarrow> LeelenDialog" where
  "verify_type message self =
     (if m_from_type message = 0 then self
      else if d_their_type self = 0 then self\<lparr>d_their_type := m_from_type message\<rparr>
      else if d_their_type self = m_from_type message then self
      else self\<lparr>d_their_type := m_from_type message\<rparr>)"

definition verify_audio_port :: "LeelenMessage \<Rightarrow> LeelenDialog \<Rightarrow> LeelenDialog" where
  "verify_audio_port message self =
     (if m_audio_port message \<noteq> 0 then
        (if d_their_audio_port self = 0 then self\<lparr>d_their_audio_port := m_audio_port message\<rparr>
         else if d_their_audio_port self = m_audio_port message then self
         else self\<lparr>d_their_audio_port := m_audio_port message\<rparr>)
      else self)"

definition verify_video_port :: "LeelenMessage \<Rightarrow> LeelenDialog \<Rightarrow> LeelenDialog" where
  "verify_video_port message self =
     (if m_video_port message \<noteq> 0 then
        (if d_their_video_port self = 0 then self\<lparr>d_their_video_port := m_video_port message\<rparr>
         else if d_their_video_port self = m_video_port message then self
         else self\<lparr>d_their_video_port := m_video_port message\<rparr>)
      else self)"

definition verify_message :: "LeelenMessage \<Rightarrow> LeelenDialog \<Rightarrow> LeelenDialog" where
  "verify_message message self =
     verify_video_port message (verify_audio_port message (verify_type message (verify_from message self)))"

type_synonym formats_out = "char list ptrv option"

definition receive_parsed ::
  "LeelenDialog \<Rightarrow> LeelenMessage \<Rightarrow> u32 \<Rightarrow> int \<Rightarrow> bool \<Rightarrow> bool \<Rightarrow> net \<Rightarrow>
     int \<times> LeelenDialog \<times> formats_out \<times> formats_out \<times> net"
where
  "receive_parsed self message code sockfd want_audio want_video w =
     (let self = verify_message message self;
          (ret, self, w) =
            (if code \<noteq> LEELEN_CODE_OK then
               (case LeelenDialog_sendcode self LEELEN_CODE_OK sockfd w of (ret, self, w) \<Rightarrow>
                  if ret \<noteq> 0 then (ret, self, w)
                  else (0, self\<lparr>d_state := LeelenDialogState_receive (d_state self) code\<rparr>, w))
             else (0, self, w))
      in if ret \<noteq> 0 then (ret, self, None, None, w)
         else let (now, w) = sys_time w
              in (0, self\<lparr>d_last_activity := fst now\<rparr>,
                  (if want_audio then Some (m_audio_formats message) else None),
                  (if want_video then Some (m_video_formats message) else None), w))"

definition receive_rest ::
  "LeelenDialog \<Rightarrow> LeelenMessage \<Rightarrow> char list \<Rightarrow> int \<Rightarrow> bool \<Rightarrow> bool \<Rightarrow> net \<Rightarrow>
     int \<times> LeelenDialog \<times> formats_out \<times> formats_out \<times> net"
where
  "receive_rest self stack msg sockfd want_audio want_video w =
     (let (ret, message, w) = LeelenMessage_init stack msg (\<not> want_audio) (\<not> want_video) w
      in if ret \<noteq> 0 then (ret, self, None, None, w)
         else receive_parsed self message (LEELEN_MESSAGE_CODE msg) sockfd want_audio want_video w)"

definition LeelenDialog_receive ::
  "LeelenDialog \<Rightarrow> LeelenMessage \<Rightarrow> char list \<Rightarrow> int \<Rightarrow> bool \<Rightarrow> bool \<Rightarrow> net \<Rightarrow>
     int \<times> LeelenDialog \<times> formats_out \<times> formats_out \<times> net"
where
  "LeelenDialog_receive self stack msg sockfd want_audio want_video w =
     (if LEELEN_MESSAGE_ID msg \<noteq> d_id self then (255, self, None, None, w)
      else if LEELEN_MESSAGE_CODE msg = LEELEN_CODE_OK then
        (case LeelenDialog_ack_timeout self w of (timeout, self, w) \<Rightarrow>
           if timeout then (254, self, None, None, w)
           else let self = self\<lparr>d_state := LeelenDialogState_ack (d_state self)\<rparr>
                in if \<not> want_audio \<and> \<not> want_video then
                     let (now, w) = sys_time w
                     in (0, self\<lparr>d_last_activity := fst now\<rparr>, None, None, w)
                   else receive_rest self stack msg sockfd want_audio want_video w)
      else receive_rest self stack msg sockfd want_audio want_video w)"

definition LeelenDialog_destroy :: "LeelenDialog \<Rightarrow> LeelenDialog" where
  "LeelenDialog_destroy self = self\<lparr>d_id := 0\<rparr>"

text \<open>\<open>while (self->id == 0) self->id = rand()\<close> for at most \<open>fuel\<close> draws: \<open>None\<close> says that all of
  them were 0. \<open>rand\<close> returns a non-negative \<open>int\<close>.\<close>

fun draw_id :: "nat \<Rightarrow> u32 \<Rightarrow> 'p world \<Rightarrow> (u32 \<times> 'p world) option" where
  "draw_id 0 i w = (if i \<noteq> 0 then Some (i, w) else None)"
| "draw_id (Suc fuel) i w =
     (if i \<noteq> 0 then Some (i, w)
      else let (r, w) = sys_rand w in draw_id fuel (take_bit 31 r) w)"

definition LeelenDialog_init ::
  "nat \<Rightarrow> LeelenDialog \<Rightarrow> LeelenConfig \<Rightarrow> sockaddr_in46 \<Rightarrow> LeelenNumber option \<Rightarrow> u32 \<Rightarrow> 'p world \<Rightarrow>
     (int \<times> LeelenDialog \<times> 'p world) option"
where
  "LeelenDialog_init fuel self config theirs their i w =
     (case draw_id fuel i w of
        None \<Rightarrow> None
      | Some (i, w) \<Rightarrow>
          Some (0, self\<lparr>d_id := i, d_our := c_number config, d_our_type := c_type config,
            d_their := (case their of None \<Rightarrow> number_set_str (d_their self) [] | Some n \<Rightarrow> n),
            d_their_type := device_byte LEELEN_DEVICE_UNKNOWN,
            d_timeout := c_voip_timeout config, d_duration := c_duration config,
            d_ours := c_addr config, d_theirs := theirs\<lparr>sa_port := htons (c_voip config)\<rparr>,
            d_our_audio_port := c_audio config, d_our_video_port := c_video config,
            d_their_audio_port := 0, d_their_video_port := 0, d_mtu := c_mtu config,
            d_state := DISCONNECTED, d_userdata := None\<rparr>, w))"

section \<open>Lemmas: what is sent\<close>

definition packet_of :: "LeelenMessage \<Rightarrow> char list" where
  "packet_of m = message_header m @ message_text m @ [NUL]"

lemma rd_written:
  assumes "take n buf = xs" and "length xs = n" and "at buf n = NUL"
  shows "rd buf 0 (n + 1) = xs @ [NUL]"
proof -
  have "rd buf 0 n = xs"
    using assms(1,2) by (intro nth_equalityI) (auto simp: nth_rd at_def)
  moreover have "rd buf 0 (n + 1) = rd buf 0 n @ [at buf n]"
    by (simp add: rd_def)
  ultimately show ?thesis using assms(3) by simp
qed

lemma tostring_packet:
  assumes "wf_message m" and "8 + length (message_text m) < len" and "len \<le> length buf"
    and "LeelenMessage_tostring m buf len = (buf', cur)"
  shows "cur + 1 = length (packet_of m)" and "rd buf' 0 (cur + 1) = packet_of m"
proof -
  from assms(2) have len: "8 < len" by simp
  note t = tostring_written [OF len assms(3) wf_message_no_junk [OF assms(1)], unfolded assms(4)]
  have c: "cur = 8 + length (message_text m)"
    using t by (simp add: written_def)
  then show "cur + 1 = length (packet_of m)"
    by (simp add: packet_of_def)
  have "min cur (len - 1) = cur" using c assms(2) by simp
  then have "take cur buf' = message_header m @ message_text m" "at buf' cur = NUL"
    using t by (auto simp: written_def closed_def)
  then show "rd buf' 0 (cur + 1) = packet_of m"
    using rd_written [of cur buf' "message_header m @ message_text m"] c by (simp add: packet_of_def)
qed

lemma packet_fields [simp]:
  "LEELEN_MESSAGE_CODE (packet_of m) = m_code m" "LEELEN_MESSAGE_ID (packet_of m) = m_id m"
  "take 8 (packet_of m) = message_header m"
  by (simp_all add: packet_of_def message_header_def LEELEN_MESSAGE_CODE_def LEELEN_MESSAGE_ID_def get32_le32)

lemma packet_text: "wf_message m \<Longrightarrow> cstr (drop 8 (packet_of m)) = message_text m"
  by (simp add: packet_of_def cstr_append message_text_no_NUL)

text \<open>The numbers of a dialog are strings of at most eleven characters that fit on a line.\<close>

definition wf_dialog :: "LeelenDialog \<Rightarrow> bool" where
  "wf_dialog d \<longleftrightarrow>
     is_line (number_str (d_our d)) \<and> CHR ''?'' \<notin> set (number_str (d_our d)) \<and>
     length (number_str (d_our d)) < LEELEN_NUMBER_STRLEN \<and>
     is_line (number_str (d_their d)) \<and> length (number_str (d_their d)) < LEELEN_NUMBER_STRLEN"

lemma strings_empty [simp]: "strings (vec ptrv_empty) = []"
  by simp

lemma wf_dialog_message: "wf_dialog d \<Longrightarrow> wf_message (dialog_message d code)"
  by (simp add: wf_dialog_def wf_message_def dialog_message_def)

lemma dialog_message_fields [simp]:
  "m_id (dialog_message d code) = d_id d" "m_code (dialog_message d code) = code"
  "m_from (dialog_message d code) = d_our d" "m_to (dialog_message d code) = d_their d"
  "m_from_type (dialog_message d code) = d_our_type d"
  "m_audio_formats (dialog_message d code) = ptrv_empty" "m_video_formats (dialog_message d code) = ptrv_empty"
  by (simp_all add: dialog_message_def)

lemma length_showd_u8: "length (showd (unat (x :: u8))) \<le> 3"
  using unsigned_less [of x, where ?'a = nat] by (intro length_showd_le) auto

lemma dialog_message_fits:
  assumes "wf_dialog d"
  shows "8 + length (message_text (dialog_message d code)) < LEELEN_MESSAGE_MIN_SIZE"
  using assms length_showd_u8 [of "d_our_type d"]
  by (simp add: message_text_def media_text_def wf_dialog_def LEELEN_MESSAGE_MIN_SIZE_def
      LEELEN_MESSAGE_HEADER_SIZE_def LEELEN_NUMBER_STRLEN_def)

text \<open>What the dialog becomes after a successful \<open>sendto\<close> of a message with the given code.\<close>

definition after_send :: "u32 \<Rightarrow> LeelenDialog \<Rightarrow> net \<Rightarrow> LeelenDialog \<times> net" where
  "after_send code d w =
     (if code = LEELEN_CODE_OK then (d, w)
      else let (now, w) = sys_time w in
        (d\<lparr>d_state := LeelenDialogState_send (d_state d) code, d_last_sent := now,
           d_last_activity := fst now + 1\<rparr>, w))"

lemma sendcode_packet:
  assumes "wf_dialog d"
  shows "LeelenDialog_sendcode d code fd w =
    (let (ok, w) = sys_send (fd, d_theirs d, packet_of (dialog_message d code)) w in
     if \<not> ok then (- 1, d, w) else (0, after_send code d w))"
proof -
  obtain buf cur where t: "LeelenMessage_tostring (dialog_message d code)
      (replicate LEELEN_MESSAGE_MIN_SIZE NUL) LEELEN_MESSAGE_MIN_SIZE = (buf, cur)"
    by fastforce
  note p = tostring_packet [OF wf_dialog_message [OF assms] dialog_message_fits [OF assms] _ t]
  have "8 < LEELEN_MESSAGE_MIN_SIZE"
    by (simp add: LEELEN_MESSAGE_MIN_SIZE_def LEELEN_MESSAGE_HEADER_SIZE_def)
  from LeelenMessage_tostring_code [OF this _ wf_dialog_message [OF assms] t]
  have "LEELEN_MESSAGE_CODE buf = code" by simp
  then show ?thesis
    using p by (simp add: LeelenDialog_sendcode_def t LeelenDialog_sendmsg_def after_send_def
        split: prod.splits)
qed

section \<open>Lemmas: what is received\<close>

text \<open>Whatever bytes arrive, the numbers of a parsed message fit on a line.\<close>

definition good_from :: "LeelenNumber \<Rightarrow> bool" where
  "good_from n \<longleftrightarrow> wf_layout n \<and> is_line (number_str n) \<and> CHR ''?'' \<notin> set (number_str n) \<and>
     length (number_str n) < LEELEN_NUMBER_STRLEN"

lemma good_from_set:
  "wf_layout n \<Longrightarrow> is_line s \<Longrightarrow> CHR ''?'' \<notin> set s \<Longrightarrow> length s < LEELEN_NUMBER_STRLEN \<Longrightarrow>
   good_from (number_set_str n s)"
  by (simp add: good_from_def number_str_set is_line_def LEELEN_NUMBER_STRLEN_def)

lemma is_line_drop: "is_line l \<Longrightarrow> is_line (drop k l)"
  by (auto simp: is_line_def dest: in_set_dropD)

lemma is_line_take: "is_line l \<Longrightarrow> is_line (take k l)"
  by (auto simp: is_line_def dest: in_set_takeD)

lemma take_before_chr: "take (length (before_chr c l)) l = before_chr c l"
  by (simp add: before_chr_def takeWhile_eq_take [symmetric])

lemma before_chr_notin: "c \<notin> set (before_chr c l)"
  by (auto simp: before_chr_def dest: set_takeWhileD)

lemma parse_from_number_good:
  assumes "is_line l" and "good_from (m_from m)"
  shows "good_from (m_from (parse_from_number l m))"
proof -
  have "is_line (before_chr CHR ''?'' l)"
    using is_line_take [OF assms(1), of "length (before_chr CHR ''?'' l)"] by (simp add: take_before_chr)
  moreover have "wf_layout (m_from m)" using assms(2) by (simp add: good_from_def)
  ultimately show ?thesis
    using before_chr_notin [of "CHR ''?''" l] good_from_set [of "m_from m" "[]"]
      good_from_set [of "m_from m" "before_chr CHR ''?'' l"]
    by (simp add: parse_from_number_def take_before_chr Let_def LEELEN_NUMBER_STRLEN_def)
qed

lemma parse_from_type_from: "m_from (parse_from_type l m) = m_from m"
  by (simp add: parse_from_type_def split: option.splits list.splits prod.splits)

lemma parse_to_from: "m_from (parse_to l m) = m_from m"
  by (simp add: parse_to_def)

lemma parse_line_good:
  assumes "is_line l" and "good_from (m_from m)" and "parse_line na nv l m w = (ok, m', w')"
  shows "good_from (m_from m')"
  using assms parse_from_number_good [OF is_line_drop [OF assms(1), of "length ''From=''"] assms(2)]
  by (auto simp: parse_line_def parse_from_type_from parse_to_from Let_def split: if_splits prod.splits)

lemma parse_lines_good:
  "\<forall>l \<in> set ls. is_line l \<Longrightarrow> good_from (m_from m) \<Longrightarrow> parse_lines na nv ls m w = (ok, m', w') \<Longrightarrow>
   good_from (m_from m')"
proof (induction na nv ls m w rule: parse_lines.induct)
  case (2 na nv l ls m w)
  obtain ok1 m1 w1 where p: "parse_line na nv l m w = (ok1, m1, w1)" by (metis prod_cases3)
  from parse_line_good [OF _ 2(3) p] 2(2) have "good_from (m_from m1)" by simp
  with 2 p show ?case by (auto split: if_splits)
qed simp

lemma split_on_subset: "l \<in> set (split_on c s) \<Longrightarrow> set l \<subseteq> set s - {c}"
proof (induction s arbitrary: l)
  case (Cons x xs)
  obtain y ys where y: "split_on c xs = y # ys" by (cases "split_on c xs") auto
  with Cons.IH have "set y \<subseteq> set xs - {c}" "\<And>l. l \<in> set ys \<Longrightarrow> set l \<subseteq> set xs - {c}" by simp_all
  then show ?case using Cons.prems y by (fastforce split: if_splits)
qed simp

lemma strtok_are_lines: "NUL \<notin> set s \<Longrightarrow> l \<in> set (strtok NL s) \<Longrightarrow> is_line l"
  using split_on_subset [of l NL s] by (auto simp: strtok_def is_line_def)

lemma message_from_good:
  assumes "layout_ok stack" and "LeelenMessage_init stack msg na nv w = (r, m, w')"
  shows "good_from (m_from m)"
proof -
  have "good_from (m_from (init_fields stack msg))"
    using assms(1) by (simp add: init_fields_def layout_ok_def good_from_set LEELEN_NUMBER_STRLEN_def)
  moreover have "\<forall>l \<in> set (strtok NL (cstr (drop LEELEN_MESSAGE_HEADER_SIZE msg))). is_line l"
    using strtok_are_lines NUL_notin_cstr by blast
  ultimately show ?thesis
    using assms(2) parse_lines_good by (auto simp: LeelenMessage_init_def split: prod.splits)
qed

section \<open>Invariant\<close>

text \<open>A dialog that waits for an acknowledgement has a running timer, and its numbers can be
  printed. The clock is set: no time has 0 seconds.\<close>

definition pending :: "LeelenDialogState \<Rightarrow> bool" where
  "pending s \<longleftrightarrow> s = CONNECTING \<or> s = DISCONNECTING"

definition dialog_inv :: "LeelenDialog \<Rightarrow> bool" where
  "dialog_inv d \<longleftrightarrow> wf_dialog d \<and> wf_layout (d_our d) \<and> wf_layout (d_their d) \<and>
     (pending (d_state d) \<longrightarrow> fst (d_last_sent d) \<noteq> 0)"

definition clock_set :: "'p world \<Rightarrow> bool" where
  "clock_set w \<longleftrightarrow> (\<forall>i. fst (w_now w i) \<noteq> 0)"

lemma clock_set_env: "same_env w w' \<Longrightarrow> clock_set w' = clock_set w"
  by (simp add: clock_set_def same_env_def)

lemma not_pending [simp]: "\<not> pending DISCONNECTED" "\<not> pending CONNECTED"
  by (simp_all add: pending_def)

lemma ack_not_pending [simp]: "\<not> pending (LeelenDialogState_ack s)"
  by (cases s) simp_all

lemma nak_not_pending [simp]: "\<not> pending (LeelenDialogState_nak s)"
  by (cases s) simp_all

lemma verify_forms:
  "verify_from m d = d\<lparr>d_their := if number_str (m_from m) = [] \<or> number_str (d_their d) = number_str (m_from m)
     then d_their d else m_from m\<rparr>"
  "verify_type m d = d\<lparr>d_their_type := if m_from_type m = 0 then d_their_type d else m_from_type m\<rparr>"
  "verify_audio_port m d =
     d\<lparr>d_their_audio_port := if m_audio_port m = 0 then d_their_audio_port d else m_audio_port m\<rparr>"
  "verify_video_port m d =
     d\<lparr>d_their_video_port := if m_video_port m = 0 then d_their_video_port d else m_video_port m\<rparr>"
  by (simp_all add: verify_from_def verify_type_def verify_audio_port_def verify_video_port_def)

lemma verify_message_form:
  "verify_message m d =
     d\<lparr>d_their := if number_str (m_from m) = [] \<or> number_str (d_their d) = number_str (m_from m)
          then d_their d else m_from m,
       d_their_type := if m_from_type m = 0 then d_their_type d else m_from_type m,
       d_their_audio_port := if m_audio_port m = 0 then d_their_audio_port d else m_audio_port m,
       d_their_video_port := if m_video_port m = 0 then d_their_video_port d else m_video_port m\<rparr>"
  by (simp add: verify_message_def verify_forms del: if_split)

lemma verify_message_fields [simp]:
  "d_id (verify_message m d) = d_id d" "d_our (verify_message m d) = d_our d"
  "d_our_type (verify_message m d) = d_our_type d"
  "d_state (verify_message m d) = d_state d" "d_theirs (verify_message m d) = d_theirs d"
  "d_last_sent (verify_message m d) = d_last_sent d" "d_last_activity (verify_message m d) = d_last_activity d"
  "d_mtu (verify_message m d) = d_mtu d" "d_duration (verify_message m d) = d_duration d"
  "d_timeout (verify_message m d) = d_timeout d" "d_userdata (verify_message m d) = d_userdata d"
  by (simp_all add: verify_message_form del: if_split)

lemma verify_message_their:
  "d_their (verify_message m d) = d_their d \<or> d_their (verify_message m d) = m_from m"
  by (simp add: verify_message_form)

lemma verify_message_inv:
  "dialog_inv d \<Longrightarrow> good_from (m_from m) \<Longrightarrow> dialog_inv (verify_message m d)"
  using verify_message_their [of m d] by (auto simp: dialog_inv_def wf_dialog_def good_from_def)

lemma sendmsg_env: "LeelenDialog_sendmsg d buf n fd w = (r, d', w') \<Longrightarrow> same_env w w'"
  by (auto simp: LeelenDialog_sendmsg_def Let_def split: prod.splits if_splits
      dest!: sys_send_env intro: same_env_trans)

lemma sendmsg_inv:
  "dialog_inv d \<Longrightarrow> clock_set w \<Longrightarrow> LeelenDialog_sendmsg d buf n fd w = (r, d', w') \<Longrightarrow> dialog_inv d'"
  by (auto simp: LeelenDialog_sendmsg_def Let_def dialog_inv_def wf_dialog_def clock_set_def same_env_def
      split: prod.splits if_splits dest!: sys_send_env)

lemma sendcode_inv:
  "dialog_inv d \<Longrightarrow> clock_set w \<Longrightarrow> LeelenDialog_sendcode d code fd w = (r, d', w') \<Longrightarrow>
   dialog_inv d' \<and> same_env w w'"
  by (auto simp: LeelenDialog_sendcode_def dest: sendmsg_inv sendmsg_env split: prod.splits)

lemma ack_timeout_inv:
  "dialog_inv d \<Longrightarrow> LeelenDialog_ack_timeout d w = (b, d', w') \<Longrightarrow> dialog_inv d' \<and> same_env w w'"
  by (auto simp: LeelenDialog_ack_timeout_def dialog_inv_def wf_dialog_def split: if_splits)

lemma receive_parsed_inv:
  assumes "dialog_inv d" and "clock_set w" and "good_from (m_from m)"
    and "receive_parsed d m code fd wa wv w = (r, d', fa, fv, w')"
  shows "dialog_inv d' \<and> same_env w w'"
proof -
  obtain r1 d1 w1 where s: "LeelenDialog_sendcode (verify_message m d) LEELEN_CODE_OK fd w = (r1, d1, w1)"
    by (metis prod_cases3)
  have v: "dialog_inv (verify_message m d)" by (rule verify_message_inv [OF assms(1,3)])
  note i = sendcode_inv [OF v assms(2) s]
  have st: "dialog_inv (d1\<lparr>d_state := LeelenDialogState_receive (d_state d1) code, d_last_activity := t\<rparr>)" for t
    using i by (auto simp: dialog_inv_def wf_dialog_def LeelenDialogState_receive_def)
  have v2: "dialog_inv ((verify_message m d)\<lparr>d_last_activity := t\<rparr>)" for t
    using v by (simp add: dialog_inv_def wf_dialog_def)
  consider "code = LEELEN_CODE_OK" | "code \<noteq> LEELEN_CODE_OK" "r1 = 0" | "code \<noteq> LEELEN_CODE_OK" "r1 \<noteq> 0"
    by blast
  then show ?thesis
  proof cases
    case 1
    then show ?thesis using assms(4) v2 by (auto simp: receive_parsed_def Let_def)
  next
    case 2
    then show ?thesis
      using assms(4) s i st by (auto simp: receive_parsed_def Let_def intro: same_env_trans)
  next
    case 3
    then show ?thesis using assms(4) s i by (auto simp: receive_parsed_def Let_def)
  qed
qed

lemma receive_rest_inv:
  assumes "dialog_inv d" and "clock_set w" and "layout_ok stack"
    and "receive_rest d stack msg fd wa wv w = (r, d', fa, fv, w')"
  shows "dialog_inv d' \<and> same_env w w'"
proof -
  obtain r1 m w1 where p: "LeelenMessage_init stack msg (\<not> wa) (\<not> wv) w = (r1, m, w1)"
    by (metis prod_cases3)
  note e = LeelenMessage_init_env [OF p] and g = message_from_good [OF assms(3) p]
  have c: "clock_set w1" using e assms(2) clock_set_env [of w w1] by simp
  show ?thesis
    using assms(1,4) e receive_parsed_inv [OF assms(1) c g, of "LEELEN_MESSAGE_CODE msg" fd wa wv r d' fa fv w']
    by (auto simp: receive_rest_def p split: if_splits intro: same_env_trans)
qed

lemma receive_inv:
  assumes "dialog_inv d" and "clock_set w" and "layout_ok stack"
    and "LeelenDialog_receive d stack msg fd wa wv w = (r, d', fa, fv, w')"
  shows "dialog_inv d' \<and> same_env w w'"
proof -
  obtain b d1 w1 where t: "LeelenDialog_ack_timeout d w = (b, d1, w1)" by (metis prod_cases3)
  note a = ack_timeout_inv [OF assms(1) t]
  have c: "clock_set w1" using a assms(2) clock_set_env [of w w1] by simp
  let ?d2 = "d1\<lparr>d_state := LeelenDialogState_ack (d_state d1)\<rparr>"
  have d2: "dialog_inv (?d2\<lparr>d_last_activity := x\<rparr>)" "dialog_inv ?d2" for x
    using a by (simp_all add: dialog_inv_def wf_dialog_def)
  show ?thesis
    using assms(1,4) a t d2 receive_rest_inv [OF d2(2) c assms(3), of msg fd wa wv r d' fa fv w']
      receive_rest_inv [OF assms(1,2,3), of msg fd wa wv r d' fa fv w']
    by (auto simp: LeelenDialog_receive_def Let_def split: if_splits intro: same_env_trans)
qed

lemma send_inv:
  "dialog_inv d \<Longrightarrow> clock_set w \<Longrightarrow> LeelenDialog_send d code fd fa fv w = (r, d', w') \<Longrightarrow>
   dialog_inv d' \<and> same_env w w'"
  by (auto simp: LeelenDialog_send_def Let_def dest: sendmsg_inv sendmsg_env split: prod.splits if_splits)

lemma may_bye_inv:
  "dialog_inv d \<Longrightarrow> clock_set w \<Longrightarrow> LeelenDialog_may_bye d fd w = (r, d', w') \<Longrightarrow>
   dialog_inv d' \<and> same_env w w'"
  by (auto simp: LeelenDialog_may_bye_def dest: sendcode_inv split: if_splits)

section \<open>The dialog as a transition system\<close>

datatype dialog_op =
    Send u32 int "char list ptrv" "char list ptrv"
  | SendCode u32 int
  | Bye int
  | Receive LeelenMessage "char list" int bool bool
  | CheckAck

inductive dialog_step :: "LeelenDialog \<times> net \<Rightarrow> dialog_op \<Rightarrow> LeelenDialog \<times> net \<Rightarrow> bool" where
  send: "LeelenDialog_send d code fd fa fv w = (r, d', w') \<Longrightarrow>
    dialog_step (d, w) (Send code fd fa fv) (d', w')"
| sendcode: "LeelenDialog_sendcode d code fd w = (r, d', w') \<Longrightarrow>
    dialog_step (d, w) (SendCode code fd) (d', w')"
| bye: "LeelenDialog_may_bye d fd w = (r, d', w') \<Longrightarrow> dialog_step (d, w) (Bye fd) (d', w')"
| receive: "LeelenDialog_receive d stack msg fd wa wv w = (r, d', oa, ov, w') \<Longrightarrow> layout_ok stack \<Longrightarrow>
    dialog_step (d, w) (Receive stack msg fd wa wv) (d', w')"
| check: "LeelenDialog_ack_timeout d w = (b, d', w') \<Longrightarrow> dialog_step (d, w) CheckAck (d', w')"

inductive_cases dialog_stepE: "dialog_step s l s'"
inductive_simps dialog_step_bye: "dialog_step (d, w) (Bye fd) s"

definition dialog_initial :: "LeelenDialog \<times> net \<Rightarrow> bool" where
  "dialog_initial = (\<lambda>(d, w). clock_set w \<and> wf_dialog d \<and> wf_layout (d_our d) \<and> wf_layout (d_their d) \<and>
     d_state d = DISCONNECTED)"

definition dialog_world_inv :: "LeelenDialog \<times> net \<Rightarrow> bool" where
  "dialog_world_inv = (\<lambda>(d, w). dialog_inv d \<and> clock_set w)"

interpretation dialog: invariant_system dialog_initial dialog_step dialog_world_inv
proof unfold_locales
  fix s assume "dialog_initial s"
  then show "dialog_world_inv s"
    by (cases s) (simp add: dialog_initial_def dialog_world_inv_def dialog_inv_def)
next
  fix s l s' assume i: "dialog_world_inv s" and st: "dialog_step s l s'"
  obtain d w where s: "s = (d, w)" by fastforce
  with i have d: "dialog_inv d" "clock_set w" by (simp_all add: dialog_world_inv_def)
  have "\<exists>d' w'. s' = (d', w') \<and> dialog_inv d' \<and> same_env w w'"
    using st s d
    by (auto elim!: dialog_stepE dest: send_inv sendcode_inv may_bye_inv receive_inv ack_timeout_inv)
  then show "dialog_world_inv s'"
    using d(2) clock_set_env by (auto simp: dialog_world_inv_def)
qed

lemma draw_id_spec: "draw_id f i w = Some (j, v) \<Longrightarrow> j \<noteq> 0 \<and> same_env w v"
proof (induction f i w rule: draw_id.induct)
  case (2 fuel i w)
  then show ?case
    by (auto simp: sys_rand_def split: if_splits intro: same_env_trans [OF same_env_step])
qed (auto split: if_splits)

lemma init_initial:
  assumes "LeelenDialog_init fuel self config theirs their i w = Some (r, d, w')"
    and "good_from (c_number config)" and "clock_set w" and "wf_layout (d_their self)"
    and "case their of None \<Rightarrow> True | Some n \<Rightarrow> good_from n"
  shows "dialog_initial (d, w') \<and> d_id d \<noteq> 0"
proof -
  show ?thesis
    using assms clock_set_env [of w w'] draw_id_spec [of fuel i w _ w']
    by (auto simp: LeelenDialog_init_def dialog_initial_def wf_dialog_def good_from_def number_str_set
        LEELEN_NUMBER_STRLEN_def split: option.splits)
qed

section \<open>Lemmas on the three functions that advance a dialog\<close>

definition send_message :: "LeelenDialog \<Rightarrow> u32 \<Rightarrow> char list ptrv \<Rightarrow> char list ptrv \<Rightarrow> LeelenMessage" where
  "send_message d code fa fv =
     (dialog_message d code)\<lparr>m_audio_formats := fa, m_video_formats := fv,
       m_audio_port := d_our_audio_port d, m_video_port := d_our_video_port d\<rparr>"

lemma send_message_fields [simp]:
  "m_id (send_message d code fa fv) = d_id d" "m_code (send_message d code fa fv) = code"
  "m_from (send_message d code fa fv) = d_our d" "m_to (send_message d code fa fv) = d_their d"
  "m_from_type (send_message d code fa fv) = d_our_type d"
  "m_audio_formats (send_message d code fa fv) = fa" "m_video_formats (send_message d code fa fv) = fv"
  "m_audio_port (send_message d code fa fv) = d_our_audio_port d"
  "m_video_port (send_message d code fa fv) = d_our_video_port d"
  by (simp_all add: send_message_def)

lemma wf_send_message:
  "wf_dialog d \<Longrightarrow> wf_formats fa \<Longrightarrow> wf_formats fv \<Longrightarrow> \<forall>f \<in> members fa \<union> members fv. is_line f \<Longrightarrow>
   wf_message (send_message d code fa fv)"
  by (simp add: wf_dialog_def wf_message_def)

text \<open>\<open>LeelenDialog_send\<close> sends the packet of its message when it fits into the MTU.\<close>

lemma send_packet:
  assumes "wf_message (send_message d code fa fv)" and "d_id d \<noteq> 0"
    and "8 + length (message_text (send_message d code fa fv)) < unat (d_mtu d)"
  shows "LeelenDialog_send d code fd fa fv w =
    (if unat (d_mtu d) < LEELEN_MESSAGE_MIN_SIZE then (255, d, w)
     else let (ok, w) = sys_send (fd, d_theirs d, packet_of (send_message d code fa fv)) w in
       if \<not> ok then (- 1, d, w) else (0, after_send code d w))"
proof (cases "unat (d_mtu d) < LEELEN_MESSAGE_MIN_SIZE")
  case True
  then show ?thesis using assms(2) by (simp add: LeelenDialog_send_def)
next
  case False
  obtain buf cur where t: "LeelenMessage_tostring (send_message d code fa fv)
      (replicate (unat (d_mtu d)) NUL) (unat (d_mtu d)) = (buf, cur)"
    by fastforce
  note p = tostring_packet [OF assms(1,3) _ t]
  have "8 < unat (d_mtu d)" using assms(3) by simp
  from LeelenMessage_tostring_code [OF this _ assms(1) t]
  have c: "LEELEN_MESSAGE_CODE buf = code" by simp
  have "cur + 1 \<le> unat (d_mtu d)" using p(1) assms(3) by (simp add: packet_of_def)
  then show ?thesis
    using False p t [unfolded send_message_def] c assms(2)
    by (simp add: LeelenDialog_send_def LeelenDialog_sendmsg_def after_send_def Let_def
        split: prod.splits)
qed

lemma verify_message_numbers:
  "number_str (d_their (verify_message m d)) =
     (if number_str (m_from m) = [] then number_str (d_their d) else number_str (m_from m))"
  "d_their_audio_port (verify_message m d) =
     (if m_audio_port m = 0 then d_their_audio_port d else m_audio_port m)"
  "d_their_video_port (verify_message m d) =
     (if m_video_port m = 0 then d_their_video_port d else m_video_port m)"
  by (auto simp: verify_message_form)

lemma wf_dialog_verify:
  "wf_dialog d \<Longrightarrow> good_from (m_from m) \<Longrightarrow> wf_dialog (verify_message m d)"
  using verify_message_their [of m d] by (auto simp: wf_dialog_def good_from_def)

text \<open>An invitation that arrives intact: it is acknowledged and the dialog is connected.\<close>

lemma receive_packet:
  assumes "wf_message m" and "m_code m \<noteq> LEELEN_CODE_OK" and "m_id m = d_id d" and "wf_dialog d"
    and "layout_ok stack" and "\<forall>k. w_ok w k"
  obtains d' oa ov w' v where
    "LeelenDialog_receive d stack (packet_of m) fd True True w = (0, d', Some oa, Some ov, w')"
    "d_state d' = LeelenDialogState_receive (d_state d) (m_code m)" "d_id d' = d_id d"
    "w_sent w' = w_sent w @ [(fd, d_theirs d, packet_of (dialog_message v LEELEN_CODE_OK))]" "d_id v = d_id d"
    "wf_dialog v"
    "same_env w w'" "slots oa = slots (m_audio_formats m)" "slots ov = slots (m_video_formats m)"
    "number_str (d_their d') =
      (if number_str (m_from m) = [] then number_str (d_their d) else number_str (m_from m))"
    "d_their_audio_port d' = (if m_audio_port m = 0 \<or> slots (m_audio_formats m) = []
      then d_their_audio_port d else m_audio_port m)"
proof -
  obtain r m1 w1 where p: "LeelenMessage_init stack (packet_of m) False False w = (r, m1, w1)"
    by (metis prod_cases3)
  note i = init_message [OF assms(1) packet_fields(3) packet_text [OF assms(1)] assms(5) p]
  note e = LeelenMessage_init_env [OF p]
  have r: "r = 0" using i assms(6) by simp
  note g = message_from_good [OF assms(5) p]
  let ?v = "verify_message m1 d"
  have ok1: "w_ok w1 (w_tick w1)" using e assms(6) by (simp add: same_env_def)
  define q where "q = (fd, d_theirs d, packet_of (dialog_message ?v LEELEN_CODE_OK))"
  have s: "LeelenDialog_sendcode ?v LEELEN_CODE_OK fd w1 =
      (0, ?v, (step w1)\<lparr>w_sent := w_sent w1 @ [q]\<rparr>)"
    using sendcode_packet [OF wf_dialog_verify [OF assms(4) g], of LEELEN_CODE_OK fd w1] ok1
    by (simp add: sys_send_def after_send_def q_def)
  let ?w2 = "(step w1)\<lparr>w_sent := w_sent w1 @ [q]\<rparr>"
  let ?d' = "?v\<lparr>d_state := LeelenDialogState_receive (d_state d) (m_code m),
      d_last_activity := fst (w_now ?w2 (w_tick ?w2))\<rparr>"
  have "LeelenDialog_receive d stack (packet_of m) fd True True w =
      (0, ?d', Some (m_audio_formats m1), Some (m_video_formats m1), step ?w2)"
    using assms(2,3) p r s by (simp add: LeelenDialog_receive_def receive_rest_def receive_parsed_def Let_def)
  moreover have "same_env w (step ?w2)"
    using e by (simp add: same_env_def)
  ultimately show ?thesis
    using that [of ?d' "m_audio_formats m1" "m_video_formats m1" "step ?w2" ?v] i r e
      wf_dialog_verify [OF assms(4) g]
    by (simp add: verify_message_numbers q_def)
qed

section \<open>Properties\<close>

text \<open>\<open>timeout_reached\<close> compares elapsed times exactly: with nanoseconds below one second, it holds
  when the elapsed nanoseconds are at least those of the timeout.\<close>

theorem timeout_reached_exact:
  assumes "0 \<le> nsec_end" and "nsec_end < 1000000000" and "0 \<le> nsec_beg" and "nsec_beg < 1000000000"
    and "0 \<le> nsec_timeout" and "nsec_timeout < 1000000000"
  shows "timeout_reached sec_end nsec_end sec_beg nsec_beg sec_timeout nsec_timeout \<longleftrightarrow>
    sec_timeout * 1000000000 + nsec_timeout \<le>
      (sec_end * 1000000000 + nsec_end) - (sec_beg * 1000000000 + nsec_beg)"
  using assms unfolding timeout_reached_def Let_def by (auto split: if_splits)

theorem timeout_reached_exact_witness:
  "timeout_reached 11 100 10 600000100 0 400000000 \<and> \<not> timeout_reached 11 99 10 600000100 0 400000000"
  using timeout_reached_exact [of 100 600000100 400000000 11 10 0]
    timeout_reached_exact [of 99 600000100 400000000 11 10 0]
  by simp

text \<open>C12. In every state that a dialog reaches, whatever messages it received, the message built by
  \<open>LeelenDialog_sendcode\<close> fits with its NUL into the fixed buffer of \<open>LEELEN_MESSAGE_MIN_SIZE\<close> bytes,
  so the datagram never contains bytes behind the buffer; and a dialog that waits for an
  acknowledgement has a send time, so \<open>LeelenDialog_ack_timeout\<close> measures it.\<close>

theorem dialog_reachable_safe:
  assumes "reach dialog_initial dialog_step (d, w)"
  shows "(case LeelenMessage_tostring (dialog_message d code) (replicate LEELEN_MESSAGE_MIN_SIZE NUL)
        LEELEN_MESSAGE_MIN_SIZE of (buf, cur) \<Rightarrow> cur + 1 \<le> LEELEN_MESSAGE_MIN_SIZE) \<and>
    (d_state d = CONNECTING \<or> d_state d = DISCONNECTING \<longrightarrow> fst (d_last_sent d) \<noteq> 0)"
proof -
  have i: "dialog_inv d"
    using dialog.reach_inv [OF assms] by (simp add: dialog_world_inv_def)
  then have wf: "wf_dialog d" by (simp add: dialog_inv_def)
  obtain buf cur where t: "LeelenMessage_tostring (dialog_message d code)
      (replicate LEELEN_MESSAGE_MIN_SIZE NUL) LEELEN_MESSAGE_MIN_SIZE = (buf, cur)"
    by fastforce
  have "cur + 1 = length (packet_of (dialog_message d code))"
    by (rule tostring_packet(1) [OF wf_dialog_message [OF wf] dialog_message_fits [OF wf] _ t]) simp
  then show ?thesis
    using i t dialog_message_fits [OF wf, of code] by (simp add: packet_of_def dialog_inv_def pending_def)
qed

definition sample_dialog :: LeelenDialog where
  "sample_dialog =
     \<lparr>d_id = 9, d_our = sample_base, d_our_type = 1, d_their = sample_base, d_their_type = 0,
      d_timeout = 500, d_duration = 10, d_ours = sockaddr_zero, d_theirs = sockaddr_zero,
      d_our_audio_port = 7078, d_our_video_port = 9078, d_their_audio_port = 0,
      d_their_video_port = 0, d_mtu = 1200, d_state = DISCONNECTED, d_last_sent = (0, 0),
      d_last_activity = 0, d_userdata = None\<rparr>"

definition calm1 :: net where
  "calm1 = calm\<lparr>w_now := \<lambda>i. (1, 0)\<rparr>"

lemma calm1_fields [simp]: "w_ok calm1 k" "w_now calm1 i = (1, 0)" "w_sent calm1 = []" "clock_set calm1"
  by (simp_all add: calm1_def clock_set_def)

lemma wf_sample_dialog: "wf_dialog sample_dialog" "dialog_initial (sample_dialog, calm1)"
  by (simp_all add: wf_dialog_def sample_dialog_def number_str_sample LEELEN_NUMBER_STRLEN_def
      dialog_initial_def sample_base_valid)

theorem dialog_reachable_safe_witness:
  "snd (LeelenMessage_tostring (dialog_message sample_dialog LEELEN_CODE_BYE)
     (replicate LEELEN_MESSAGE_MIN_SIZE NUL) LEELEN_MESSAGE_MIN_SIZE) + 1 \<le> LEELEN_MESSAGE_MIN_SIZE"
  using dialog_reachable_safe [OF reach.start [where initial = dialog_initial and transition = dialog_step,
      OF wf_sample_dialog(2)], of LEELEN_CODE_BYE]
  by (simp split: prod.splits)

text \<open>\<open>LeelenDialog_sendcode\<close> hands exactly one datagram to the kernel or fails: the header, the
  text of the two address lines and a NUL, at most \<open>LEELEN_MESSAGE_MIN_SIZE\<close> bytes; the dialog changes
  its state only when the datagram was sent and was no acknowledgement.\<close>

theorem LeelenDialog_sendcode_datagram:
  assumes "wf_dialog d" and "LeelenDialog_sendcode d code fd w = (r, d', w')"
  shows "r = 0 \<and>
      w_sent w' = w_sent w @ [(fd, d_theirs d, packet_of (dialog_message d code))] \<and>
      length (packet_of (dialog_message d code)) \<le> LEELEN_MESSAGE_MIN_SIZE \<and>
      d_state d' = LeelenDialogState_send (d_state d) code \<and> (code = LEELEN_CODE_OK \<longrightarrow> d' = d)
    \<or> r = - 1 \<and> d' = d \<and> w_sent w' = w_sent w"
  using assms(2) dialog_message_fits [OF assms(1), of code]
  by (auto simp: sendcode_packet [OF assms(1)] packet_of_def sys_send_def after_send_def
      LeelenDialogState_send_def leelen_codes split: if_splits)

theorem LeelenDialog_sendcode_datagram_witness:
  "let (r, d', w') = LeelenDialog_sendcode sample_dialog LEELEN_CODE_BYE 3 calm1
   in r = 0 \<or> r = - 1 \<and> d' = sample_dialog"
  using LeelenDialog_sendcode_datagram [OF wf_sample_dialog(1), of LEELEN_CODE_BYE 3 calm1]
  by (auto split: prod.splits)



text \<open>C1. The three-way exchange of an invitation. When no call of the environment fails and the
  acknowledgement is read before the timeout, a dialog that sends \<open>CALL\<close>, \<open>VIEW\<close>, \<open>VOICE_MESSAGE\<close> or
  \<open>ACCEPTED\<close> and the dialog with the same ID that receives the datagram are both connected after the
  receiver's acknowledgement came back; the formats arrive in order, and the receiver knows the
  sender's number and audio port.\<close>

theorem dialog_handshake:
  assumes "wf_dialog a" and "wf_dialog b" and "d_id a = d_id b" and "d_id a \<noteq> 0"
    and "invites code" and "\<forall>k. w_ok w k" and "clock_set w" and "layout_ok stack"
    and "wf_message (send_message a code fa fv)"
    and "8 + length (message_text (send_message a code fa fv)) < unat (d_mtu a)"
    and "LEELEN_MESSAGE_MIN_SIZE \<le> unat (d_mtu a)"
    and "LeelenDialog_send a code fd fa fv w = (r1, a1, w1)"
    and "LeelenDialog_receive b stack (snd (snd (last (w_sent w1)))) fd' True True w1 = (r2, b2, oa, ov, w2)"
    and "LeelenDialog_receive a1 stack (snd (snd (last (w_sent w2)))) fd False False w2 = (r3, a2, oa', ov', w3)"
    and "\<not> fst (LeelenDialog_ack_timeout a1 w2)"
  shows "r1 = 0 \<and> r2 = 0 \<and> r3 = 0 \<and> d_state a1 = CONNECTING \<and>
    d_state a2 = CONNECTED \<and> d_state b2 = CONNECTED \<and>
    (\<exists>va vv. oa = Some va \<and> ov = Some vv \<and> slots va = slots fa \<and> slots vv = slots fv) \<and>
    (number_str (d_our a) \<noteq> [] \<longrightarrow> number_str (d_their b2) = number_str (d_our a)) \<and>
    (slots fa \<noteq> [] \<and> d_our_audio_port a \<noteq> 0 \<longrightarrow> d_their_audio_port b2 = d_our_audio_port a)"
proof -
  let ?m = "send_message a code fa fv"
  have nok: "code \<noteq> LEELEN_CODE_OK"
    using assms(5) by (auto simp: invites_def leelen_codes)
  have s1: "r1 = 0" "(a1, w1) = after_send code a ((step w)\<lparr>w_sent := w_sent w @ [(fd, d_theirs a, packet_of ?m)]\<rparr>)"
    using assms(12) send_packet [OF assms(9,4,10), of fd w] assms(6,11)
    by (auto simp: sys_send_def not_less [symmetric])
  then have w1: "w_sent w1 = w_sent w @ [(fd, d_theirs a, packet_of ?m)]" "\<forall>k. w_ok w1 k" "same_env w w1"
    using nok assms(6) by (auto simp: after_send_def same_env_def)
  have a1: "d_id a1 = d_id a" "d_state a1 = CONNECTING" "fst (d_last_sent a1) \<noteq> 0"
    using s1 nok assms(5,7)
    by (auto simp: after_send_def LeelenDialogState_send_def invites_def clock_set_def)
  obtain d' oa1 ov1 w' v where rc:
    "LeelenDialog_receive b stack (packet_of ?m) fd' True True w1 = (0, d', Some oa1, Some ov1, w')"
    "d_state d' = LeelenDialogState_receive (d_state b) code"
    "w_sent w' = w_sent w1 @ [(fd', d_theirs b, packet_of (dialog_message v LEELEN_CODE_OK))]" "d_id v = d_id b"
    "slots oa1 = slots fa" "slots ov1 = slots fv"
    "number_str (d_their d') = (if number_str (d_our a) = [] then number_str (d_their b) else number_str (d_our a))"
    "d_their_audio_port d' = (if d_our_audio_port a = 0 \<or> slots fa = [] then d_their_audio_port b
      else d_our_audio_port a)"
    by (rule receive_packet [OF assms(9) _ _ assms(2,8) w1(2), of fd']) (use nok assms(3) in auto)
  have b2: "r2 = 0" "b2 = d'" "oa = Some oa1" "ov = Some ov1" "w2 = w'"
    using assms(13) rc(1) w1(1) by simp_all
  have q: "snd (snd (last (w_sent w2))) = packet_of (dialog_message v LEELEN_CODE_OK)"
    using rc(3) b2(5) by simp
  obtain x a1' w2' where t: "LeelenDialog_ack_timeout a1 w2 = (x, a1', w2')" by (metis prod_cases3)
  with assms(15) a1(3) have t2: "\<not> x" "a1' = a1"
    by (auto simp: LeelenDialog_ack_timeout_def Let_def split: if_splits)
  have "r3 = 0 \<and> d_state a2 = CONNECTED"
    using assms(14) q t t2 a1 rc(4) assms(3) by (auto simp: LeelenDialog_receive_def)
  moreover have "d_state d' = CONNECTED"
    using rc(2) assms(5) by (auto simp: LeelenDialogState_receive_def invites_def)
  ultimately show ?thesis
    using s1(1) a1(2) b2 rc by auto
qed

lemma fits_empty:
  assumes "wf_dialog d"
  shows "8 + length (message_text (send_message d code ptrv_empty ptrv_empty)) < LEELEN_MESSAGE_MIN_SIZE"
  using dialog_message_fits [OF assms, of code] by (simp add: message_text_def media_text_def)

theorem dialog_handshake_witness:
  "let a = sample_dialog; st = sample_message;
       (r1, a1, w1) = LeelenDialog_send a LEELEN_CODE_CALL 3 ptrv_empty ptrv_empty calm1;
       (r2, b2, oa, ov, w2) = LeelenDialog_receive a st (snd (snd (last (w_sent w1)))) 4 True True w1;
       (r3, a2, oa', ov', w3) = LeelenDialog_receive a1 st (snd (snd (last (w_sent w2)))) 3 False False w2
   in r3 = 0 \<and> d_state a2 = CONNECTED \<and> d_state b2 = CONNECTED"
proof -
  let ?a = "sample_dialog" and ?st = "sample_message"
  have wf: "wf_message (send_message ?a LEELEN_CODE_CALL ptrv_empty ptrv_empty)"
    by (rule wf_send_message) (simp_all add: wf_sample_dialog members_def slots_def)
  have mtu: "unat (d_mtu ?a) = 1200" "LEELEN_MESSAGE_MIN_SIZE = 45" "d_id ?a = 9"
    by (simp_all add: sample_dialog_def LEELEN_MESSAGE_MIN_SIZE_def LEELEN_MESSAGE_HEADER_SIZE_def
        LEELEN_NUMBER_STRLEN_def)
  have fits: "8 + length (message_text (send_message ?a LEELEN_CODE_CALL ptrv_empty ptrv_empty)) < unat (d_mtu ?a)"
    using fits_empty [OF wf_sample_dialog(1), of LEELEN_CODE_CALL] mtu by simp
  have lay: "layout_ok ?st"
    by (simp add: layout_ok_def sample_message_def sample_base_valid)
  obtain r1 a1 w1 where s: "LeelenDialog_send ?a LEELEN_CODE_CALL 3 ptrv_empty ptrv_empty calm1 = (r1, a1, w1)"
    by (metis prod_cases3)
  obtain r2 b2 oa ov w2 where r: "LeelenDialog_receive ?a ?st (snd (snd (last (w_sent w1)))) 4 True True w1
      = (r2, b2, oa, ov, w2)"
    by (metis prod_cases5)
  obtain r3 a2 oa' ov' w3 where k: "LeelenDialog_receive a1 ?st (snd (snd (last (w_sent w2)))) 3 False False w2
      = (r3, a2, oa', ov', w3)"
    by (metis prod_cases5)
  have inv: "dialog_inv ?a"
    using dialog.initial_inv [OF wf_sample_dialog(2)] by (simp add: dialog_world_inv_def)
  have e1: "same_env calm1 w1"
    using send_inv [OF inv _ s] by simp
  have inv1: "clock_set w1" using clock_set_env [OF e1] by simp
  have "same_env w1 w2"
    using receive_inv [OF inv inv1 lay r] by simp
  then have e2: "w_now w2 i = (1, 0)" for i
    using e1 by (simp add: same_env_def)
  have a1: "d_last_sent a1 = (1, 0)" "d_timeout a1 = 500"
    using s send_packet [OF wf _ fits, of 3 calm1] mtu
    by (auto simp: sys_send_def after_send_def leelen_codes sample_dialog_def [THEN arg_cong, of d_timeout])
  have to: "\<not> fst (LeelenDialog_ack_timeout a1 w2)"
    by (simp add: LeelenDialog_ack_timeout_def a1 e2 timeout_reached_def)
  have "LEELEN_MESSAGE_MIN_SIZE \<le> unat (d_mtu ?a)" "d_id ?a \<noteq> 0" "invites LEELEN_CODE_CALL"
    using mtu by (simp_all add: invites_def)
  then show ?thesis
    using dialog_handshake [OF wf_sample_dialog(1) wf_sample_dialog(1) refl _ _ _ _ lay wf fits _ s r k to]
    by (simp add: s r k)
qed

lemma sendcode_result:
  "LeelenDialog_sendcode d code fd w = (r, d', w') \<Longrightarrow> r = 0 \<or> r = - 1"
  by (auto simp: LeelenDialog_sendcode_def LeelenDialog_sendmsg_def Let_def split: prod.splits if_splits)

lemma receive_rest_cases:
  assumes "receive_rest d stack msg fd wa wv w = (r, d', oa, ov, w')" and "dialog_inv d" and "layout_ok stack"
  shows "(r = 0 \<or> r = - 1) \<and> (r = - 1 \<longrightarrow> oa = None \<and> ov = None) \<and>
    (r = 0 \<longrightarrow> (oa = None) = (\<not> wa) \<and> (ov = None) = (\<not> wv) \<and>
      d_state d' = (if LEELEN_MESSAGE_CODE msg = LEELEN_CODE_OK then d_state d
        else LeelenDialogState_receive (d_state d) (LEELEN_MESSAGE_CODE msg)) \<and>
      length (w_sent w') = length (w_sent w) + (if LEELEN_MESSAGE_CODE msg = LEELEN_CODE_OK then 0 else 1))"
proof -
  obtain r1 m w1 where p: "LeelenMessage_init stack msg (\<not> wa) (\<not> wv) w = (r1, m, w1)" by (metis prod_cases3)
  note e = LeelenMessage_init_env [OF p]
  show ?thesis
  proof (cases "r1 = 0")
    case False
    then show ?thesis using assms(1) e by (auto simp: receive_rest_def p)
  next
    case True
    have wf: "wf_dialog (verify_message m d)"
      using assms(2) wf_dialog_verify message_from_good [OF assms(3) p] by (simp add: dialog_inv_def)
    show ?thesis
      using assms(1) True e
      by (auto simp: receive_rest_def p receive_parsed_def Let_def sendcode_packet [OF wf] sys_send_def
          after_send_def split: if_splits)
  qed
qed


lemma sample_dialog_inv: "dialog_inv sample_dialog"
  using dialog.initial_inv [OF wf_sample_dialog(2)] by (simp add: dialog_world_inv_def)

lemma sample_message_layout: "layout_ok sample_message"
  by (simp add: layout_ok_def sample_message_def sample_base_valid)


text \<open>C40. The loop that draws a random dialog ID ends with the first non-zero draw: a requested ID is
  kept without drawing, and otherwise \<open>fuel\<close> draws are enough when one of them is not 0. The dialog
  starts disconnected with a non-zero ID; \<open>last_sent\<close> and \<open>last_activity\<close> keep what was in the memory
  before.\<close>

theorem LeelenDialog_init_terminates:
  assumes "i \<noteq> 0 \<or> (\<exists>k < fuel. take_bit 31 (w_rnd w (w_tick w + k)) \<noteq> 0)"
  shows "\<exists>d w'. LeelenDialog_init fuel self config theirs their i w = Some (0, d, w') \<and>
    d_id d \<noteq> 0 \<and> (i \<noteq> 0 \<longrightarrow> d_id d = i \<and> w' = w) \<and> d_state d = DISCONNECTED \<and>
    d_theirs d = theirs\<lparr>sa_port := htons (c_voip config)\<rparr> \<and>
    d_last_sent d = d_last_sent self \<and> d_last_activity d = d_last_activity self"
proof -
  have "\<exists>j v. draw_id fuel i w = Some (j, v) \<and> j \<noteq> 0 \<and> (i \<noteq> 0 \<longrightarrow> j = i \<and> v = w)"
    using assms
  proof (induction fuel arbitrary: i w)
    case (Suc fuel)
    show ?case
    proof (cases "i = 0")
      case True
      let ?j = "take_bit 31 (w_rnd w (w_tick w))"
      have "?j \<noteq> 0 \<or> (\<exists>k < fuel. take_bit 31 (w_rnd (step w) (w_tick (step w) + k)) \<noteq> 0)"
        using Suc.prems True by (auto simp: less_Suc_eq_0_disj)
      from Suc.IH [OF this] True show ?thesis by (auto simp: sys_rand_def)
    qed simp
  qed simp
  then show ?thesis
    by (auto simp: LeelenDialog_init_def)
qed

theorem LeelenDialog_init_terminates_witness:
  "\<exists>d w'. LeelenDialog_init 1 sample_dialog sample_config sockaddr_zero None 5 calm1 = Some (0, d, w') \<and> d_id d = 5"
  using LeelenDialog_init_terminates [of 5 1 calm1 sample_dialog sample_config sockaddr_zero None] by auto

end
