(* ===== verification/VoIP.thy ===== *)
theory VoIP
  imports Dialog
begin

text \<open>
  \<^verbatim>\<open>leelen/voip/voip.h\<close> and \<^verbatim>\<open>leelen/voip/voip.c\<close>: the controller that keeps one
  dialog per dialog ID.

  \<open>v_dialogs\<close> is the allocated array and \<open>v_n\<close> the field \<open>n_dialog\<close>; a slot is a dialog object,
  the null pointer or, where \<open>realloc\<close> added it, \<open>Junk\<close>. A dialog pointer is the index of its
  slot, which never moves. The result \<open>None\<close> of an operation stands for undefined behaviour: it
  dereferences a null pointer or uses an indeterminate one (or the ID loop runs out of its
  \<open>fuel\<close>). The read-write lock is held by one call at a time here.
\<close>

record LeelenVoIP =
  v_dialogs :: "LeelenDialog slot list"
  v_n :: nat
  v_config :: LeelenConfig

definition LeelenVoIP_init :: "LeelenVoIP \<Rightarrow> LeelenConfig \<Rightarrow> 'p world \<Rightarrow> int \<times> LeelenVoIP \<times> 'p world" where
  "LeelenVoIP_init self config w =
     (let (ok, w) = sys w in
      if \<not> ok then (- 1, self, w)
      else (0, self\<lparr>v_dialogs := [], v_n := 0, v_config := config\<rparr>, w))"

fun shrink_loop ::
  "LeelenDialog slot list \<Rightarrow> nat \<Rightarrow> nat \<Rightarrow> nat \<Rightarrow> (LeelenDialog slot list \<times> nat) option"
where
  "shrink_loop dialogs i 0 n_dialog = Some (dialogs, n_dialog)"
| "shrink_loop dialogs i (Suc k) n_dialog =
     (case slot_at dialogs i of
        Junk \<Rightarrow> None
      | Null \<Rightarrow> shrink_loop dialogs (Suc i) k n_dialog
      | Ptr dialog \<Rightarrow>
          if d_id dialog \<noteq> 0 then shrink_loop dialogs (Suc i) k i
          else shrink_loop (dialogs[i := Null]) (Suc i) k n_dialog)"

definition resize :: "nat \<Rightarrow> 'a slot list \<Rightarrow> 'a slot list" where
  "resize n xs = take n xs @ replicate (n - length xs) Junk"

definition LeelenVoIP_shrink :: "LeelenVoIP \<Rightarrow> 'p world \<Rightarrow> (LeelenVoIP \<times> 'p world) option" where
  "LeelenVoIP_shrink self w =
     (case shrink_loop (v_dialogs self) 0 (v_n self) 0 of
        None \<Rightarrow> None
      | Some (dialogs, n_dialog) \<Rightarrow>
          let self = self\<lparr>v_dialogs := dialogs\<rparr>; n_dialog = n_dialog + 1 in
          if v_n self \<noteq> n_dialog then
            let (ok, w) = sys w in
            if ok then Some (self\<lparr>v_n := n_dialog, v_dialogs := resize n_dialog dialogs\<rparr>, w)
            else Some (self, w)
          else Some (self, w))"

text \<open>The loop of \<open>LeelenVoIP_connect\<close>: the first free slot below \<open>n\<close>, or \<open>n\<close>.\<close>

fun free_slot :: "'a slot list \<Rightarrow> nat \<Rightarrow> nat \<Rightarrow> nat option" where
  "free_slot dialogs i 0 = Some i"
| "free_slot dialogs i (Suc k) =
     (case slot_at dialogs i of Junk \<Rightarrow> None | Null \<Rightarrow> Some i | Ptr _ \<Rightarrow> free_slot dialogs (Suc i) k)"

definition connect_init ::
  "nat \<Rightarrow> LeelenDialog \<Rightarrow> LeelenVoIP \<Rightarrow> nat \<Rightarrow> sockaddr_in46 \<Rightarrow> LeelenNumber option \<Rightarrow> u32 \<Rightarrow> 'p world \<Rightarrow>
     (nat option \<times> LeelenVoIP \<times> 'p world) option"
where
  "connect_init fuel heap self i dst to did w =
     (let (ok, w) = sys w in
      if \<not> ok then Some (None, self\<lparr>v_dialogs := (v_dialogs self)[i := Null]\<rparr>, w)
      else (case LeelenDialog_init fuel heap (v_config self) dst to did w of
              None \<Rightarrow> None
            | Some (_, dialog, w) \<Rightarrow>
                Some (Some i, self\<lparr>v_dialogs := (v_dialogs self)[i := Ptr dialog]\<rparr>, w)))"

text \<open>\<open>heap\<close> is the indeterminate content of the object that \<open>malloc\<close> returns.\<close>

definition LeelenVoIP_connect ::
  "nat \<Rightarrow> LeelenDialog \<Rightarrow> LeelenVoIP \<Rightarrow> sockaddr_in46 \<Rightarrow> LeelenNumber option \<Rightarrow> u32 \<Rightarrow> 'p world \<Rightarrow>
     (nat option \<times> LeelenVoIP \<times> 'p world) option"
where
  "LeelenVoIP_connect fuel heap self dst to did w =
     (case LeelenVoIP_shrink self w of
        None \<Rightarrow> None
      | Some (self, w) \<Rightarrow>
          (case free_slot (v_dialogs self) 0 (v_n self) of
             None \<Rightarrow> None
           | Some i \<Rightarrow>
               if i < v_n self then connect_init fuel heap self i dst to did w
               else
                 let (ok, w) = sys w in
                 if \<not> ok then Some (None, self, w)
                 else connect_init fuel heap
                        (self\<lparr>v_n := v_n self + 1, v_dialogs := resize (v_n self + 1) (v_dialogs self)\<rparr>)
                        i dst to did w))"

fun find_dialog :: "LeelenDialog slot list \<Rightarrow> nat \<Rightarrow> nat \<Rightarrow> u32 \<Rightarrow> nat option option" where
  "find_dialog dialogs i 0 did = Some None"
| "find_dialog dialogs i (Suc k) did =
     (case slot_at dialogs i of
        Ptr dialog \<Rightarrow> if d_id dialog = did then Some (Some i) else find_dialog dialogs (Suc i) k did
      | _ \<Rightarrow> None)"

definition voip_receive_at ::
  "LeelenVoIP \<Rightarrow> nat \<Rightarrow> LeelenMessage \<Rightarrow> char list \<Rightarrow> int \<Rightarrow> bool \<Rightarrow> bool \<Rightarrow> net \<Rightarrow>
     (int \<times> LeelenVoIP \<times> formats_out \<times> formats_out \<times> net) option"
where
  "voip_receive_at self i stack msg sockfd want_audio want_video w =
     (case slot_at (v_dialogs self) i of
        Ptr dialog \<Rightarrow>
          (case LeelenDialog_receive dialog stack msg sockfd want_audio want_video w of
             (r, dialog, oa, ov, w) \<Rightarrow>
               Some (r, self\<lparr>v_dialogs := (v_dialogs self)[i := Ptr dialog]\<rparr>, oa, ov, w))
      | _ \<Rightarrow> None)"

definition LeelenVoIP_receive ::
  "nat \<Rightarrow> LeelenDialog \<Rightarrow> LeelenVoIP \<Rightarrow> LeelenMessage \<Rightarrow> char list \<Rightarrow> int \<Rightarrow> bool \<Rightarrow> bool \<Rightarrow> sockaddr_in46 \<Rightarrow> net \<Rightarrow>
     (int \<times> LeelenVoIP \<times> formats_out \<times> formats_out \<times> net) option"
where
  "LeelenVoIP_receive fuel heap self stack msg sockfd want_audio want_video src w =
     (case find_dialog (v_dialogs self) 0 (v_n self) (LEELEN_MESSAGE_ID msg) of
        None \<Rightarrow> None
      | Some (Some i) \<Rightarrow> voip_receive_at self i stack msg sockfd want_audio want_video w
      | Some None \<Rightarrow>
          (case LeelenVoIP_connect fuel heap self src None (LEELEN_MESSAGE_ID msg) w of
             None \<Rightarrow> None
           | Some (None, self, w) \<Rightarrow> Some (- 1, self, None, None, w)
           | Some (Some i, self, w) \<Rightarrow>
               voip_receive_at self i stack msg sockfd want_audio want_video w))"

text \<open>The slots whose dialog \<open>LeelenVoIP_destroy\<close> invalidates and frees.\<close>

definition LeelenVoIP_destroy :: "LeelenVoIP \<Rightarrow> LeelenDialog slot list" where
  "LeelenVoIP_destroy self =
     map (\<lambda>s. case s of Ptr d \<Rightarrow> Ptr (LeelenDialog_destroy d) | s \<Rightarrow> s)
       (filter (\<lambda>s. s \<noteq> Null) (map (slot_at (v_dialogs self)) [0..<v_n self]))"

section \<open>Lemmas\<close>

definition voip_of :: "LeelenDialog list \<Rightarrow> LeelenConfig \<Rightarrow> LeelenVoIP" where
  "voip_of ds config = \<lparr>v_dialogs = map Ptr ds, v_n = length ds, v_config = config\<rparr>"

definition live_dialogs :: "LeelenDialog list \<Rightarrow> bool" where
  "live_dialogs ds \<longleftrightarrow> (\<forall>d \<in> set ds. d_id d \<noteq> 0) \<and> distinct (map d_id ds)"

lemma slot_at_map [simp]: "i < length ds \<Longrightarrow> slot_at (map Ptr ds @ xs) i = Ptr (ds ! i)"
  "i < length ds \<Longrightarrow> slot_at (map Ptr ds) i = Ptr (ds ! i)"
  by (simp_all add: slot_at_def nth_append)

lemma shrink_loop_live:
  "i + k = length ds \<Longrightarrow> (\<forall>d \<in> set ds. d_id d \<noteq> 0) \<Longrightarrow>
   shrink_loop (map Ptr ds) i k n = Some (map Ptr ds, if k = 0 then n else length ds - 1)"
proof (induction k arbitrary: i n)
  case (Suc k)
  then have "i < length ds" "d_id (ds ! i) \<noteq> 0" by (auto intro: nth_mem)
  with Suc show ?case by auto
qed simp

lemma shrink_live:
  assumes "ds \<noteq> []" and "\<forall>d \<in> set ds. d_id d \<noteq> 0"
  shows "LeelenVoIP_shrink (voip_of ds config) w = Some (voip_of ds config, w)"
  using assms shrink_loop_live [of 0 "length ds" ds 0]
  by (simp add: LeelenVoIP_shrink_def voip_of_def Suc_diff_le le_Suc_eq Suc_le_eq)

lemma free_slot_live: "i + k = length ds \<Longrightarrow> free_slot (map Ptr ds) i k = Some (length ds)"
  by (induction k arbitrary: i) (auto simp: slot_at_map)

lemma find_dialog_live:
  "i + k = length ds \<Longrightarrow>
   (case find_dialog (map Ptr ds) i k did of
      Some None \<Rightarrow> \<forall>j. i \<le> j \<and> j < length ds \<longrightarrow> d_id (ds ! j) \<noteq> did
    | Some (Some j) \<Rightarrow> i \<le> j \<and> j < length ds \<and> d_id (ds ! j) = did
    | None \<Rightarrow> False)"
proof (induction k arbitrary: i)
  case (Suc k)
  show ?case
  proof (cases "d_id (ds ! i) = did")
    case True
    with Suc show ?thesis by simp
  next
    case False
    have ih: "case find_dialog (map Ptr ds) (Suc i) k did of
        Some None \<Rightarrow> \<forall>j. Suc i \<le> j \<and> j < length ds \<longrightarrow> d_id (ds ! j) \<noteq> did
      | Some (Some j) \<Rightarrow> Suc i \<le> j \<and> j < length ds \<and> d_id (ds ! j) = did
      | None \<Rightarrow> False"
      using Suc by simp
    have st: "find_dialog (map Ptr ds) i (Suc k) did = find_dialog (map Ptr ds) (Suc i) k did"
      using False Suc.prems by simp
    show ?thesis
      unfolding st using ih False by (auto dest: Suc_leD split: option.splits) (metis Suc_leI le_neq_implies_less)
  qed
qed auto

lemma connect_live:
  assumes "ds \<noteq> []" and "\<forall>d \<in> set ds. d_id d \<noteq> 0" and "\<forall>k. w_ok w k" and "i \<noteq> 0"
    and "LeelenDialog_init fuel heap config dst to i (step (step w)) = Some (0, d, w')"
  shows "LeelenVoIP_connect fuel heap (voip_of ds config) dst to i w =
    Some (Some (length ds), voip_of (ds @ [d]) config, w')"
  using assms shrink_live [OF assms(1,2), of config w] free_slot_live [of 0 "length ds" ds]
  by (simp add: LeelenVoIP_connect_def connect_init_def sys_def voip_of_def resize_def
      list_update_append)

section \<open>Properties\<close>

text \<open>The first connection of a controller goes wrong: \<open>LeelenVoIP_shrink\<close> on the empty table
  reallocates it to one slot that nobody writes, and \<open>LeelenVoIP_connect\<close> then compares that
  indeterminate pointer with NULL. Only when this \<open>realloc\<close> fails does the controller get its first
  dialog.\<close>

theorem LeelenVoIP_first_connect:
  assumes "LeelenVoIP_init self config w0 = (0, v, w)" and "w_ok w (w_tick w)"
  shows "LeelenVoIP_connect fuel heap v dst to did w = None"
  using assms
  by (auto simp: LeelenVoIP_init_def sys_def LeelenVoIP_connect_def LeelenVoIP_shrink_def resize_def
      slot_at_def split: if_splits)

theorem LeelenVoIP_first_connect_witness:
  "LeelenVoIP_connect 1 sample_dialog \<lparr>v_dialogs = [], v_n = 0, v_config = sample_config\<rparr>
     sockaddr_zero None 5 (step calm1) = None"
proof -
  let ?v = "\<lparr>v_dialogs = [], v_n = 0, v_config = sample_config\<rparr>"
  have "LeelenVoIP_init ?v sample_config calm1 = (0, ?v, step calm1)"
    by (simp add: LeelenVoIP_init_def sys_def)
  then show ?thesis
    by (rule LeelenVoIP_first_connect) simp
qed


lemma sample_live: "live_dialogs [sample_dialog]"
  by (simp add: live_dialogs_def sample_dialog_def)


end
