(* ===== verification/Inet46.thy ===== *)
theory Inet46
  imports Address
begin

text \<open>
  \<^verbatim>\<open>inet46i/inet46.h\<close>, \<^verbatim>\<open>inet46i/inet46.c\<close> and the parser of \<^verbatim>\<open>inet46i/sockaddr46.c\<close>:
  addresses from strings, with brackets and interface scopes.

  The C library is a parameter: \<open>pton4\<close> and \<open>pton6\<close> are \<open>inet_pton\<close> for the two families, \<open>ifindex\<close> is
  \<open>if_nametoindex\<close>. A string has no NUL. The result is \<open>None\<close> for the empty string, in front of
  which the source reads.
\<close>

definition INET6_ADDRSTRLEN :: nat where "INET6_ADDRSTRLEN = 46"
definition IF_NAMESIZE :: nat where "IF_NAMESIZE = 16"

record inet_lib =
  pton4 :: "char list \<Rightarrow> u32 option"
  pton6 :: "char list \<Rightarrow> in6_addr option"
  ifindex :: "char list \<Rightarrow> u32"

text \<open>\<open>inet_pton\<close> for IPv4 and then IPv6, each only when there is a destination for it.\<close>

datatype address = NoAddr | Addr4 u32 | Addr6 in6_addr

definition try_pton :: "inet_lib \<Rightarrow> bool \<Rightarrow> bool \<Rightarrow> char list \<Rightarrow> address" where
  "try_pton lib want4 want6 src =
     (case (if want4 then pton4 lib src else None) of
        Some a \<Rightarrow> Addr4 a
      | None \<Rightarrow>
          (case (if want6 then pton6 lib src else None) of
             Some a \<Rightarrow> Addr6 a
           | None \<Rightarrow> NoAddr))"

text \<open>The number or name of an interface behind the percent sign.\<close>

definition parse_scope :: "inet_lib \<Rightarrow> char list \<Rightarrow> u32" where
  "parse_scope lib ifname =
     (if 0 < length ifname \<and> length ifname < IF_NAMESIZE then
        (if isdigit (at ifname 0) then
           (let (n, rest) = strtol ifname in if rest \<noteq> [] then 0 else word_of_int n)
         else ifindex lib ifname)
      else 0)"

definition inet_atonz_p :: "inet_lib \<Rightarrow> char list \<Rightarrow> bool \<Rightarrow> bool \<Rightarrow> (address \<times> u32) option" where
  "inet_atonz_p lib src0 want4 want6 =
     (if src0 = [] then None
      else
        let src = (if hd src0 = CHR ''['' then tl src0 else src0)
        in if last src0 \<noteq> CHR '']'' \<and> CHR ''%'' \<notin> set src then Some (try_pton lib want4 want6 src, 0)
           else
             let body = (if last src0 = CHR '']'' then butlast src else src);
                 addr = before_chr (CHR ''%'') body;
                 scope = (case after_chr (CHR ''%'') body of None \<Rightarrow> 0 | Some ifname \<Rightarrow> parse_scope lib ifname)
             in if \<not> length addr < INET6_ADDRSTRLEN then Some (NoAddr, scope)
                else Some (try_pton lib want4 want6 addr, scope))"

definition inet_ptonz :: "inet_lib \<Rightarrow> af \<Rightarrow> char list \<Rightarrow> (int \<times> address \<times> u32) option" where
  "inet_ptonz lib f src =
     (case f of
        AF_INET \<Rightarrow> map_option (\<lambda>(a, sc). (if a \<noteq> NoAddr then 1 else 0, a, sc)) (inet_atonz_p lib src True False)
      | AF_INET6 \<Rightarrow> map_option (\<lambda>(a, sc). (if a \<noteq> NoAddr then 1 else 0, a, sc)) (inet_atonz_p lib src False True)
      | _ \<Rightarrow> Some (0, NoAddr, 0))"

definition inet_aton46 :: "inet_lib \<Rightarrow> char list \<Rightarrow> address" where
  "inet_aton46 lib src =
     (case pton4 lib src of
        Some a \<Rightarrow> Addr4 a
      | None \<Rightarrow> (case pton6 lib src of Some a \<Rightarrow> Addr6 a | None \<Rightarrow> NoAddr))"

text \<open>An interface index or an address.\<close>

definition inet_aton46i :: "inet_lib \<Rightarrow> char list \<Rightarrow> u32 + address" where
  "inet_aton46i lib src = (if ifindex lib src \<noteq> 0 then Inl (ifindex lib src) else Inr (inet_aton46 lib src))"

text \<open>Into a \<open>struct in64_addr\<close>, where an IPv4 address is the last word of a mapped one.\<close>

definition inet_aton64 :: "inet_lib \<Rightarrow> char list \<Rightarrow> in6_addr \<Rightarrow> af \<times> in6_addr" where
  "inet_aton64 lib src dst =
     (case pton4 lib src of
        Some a \<Rightarrow> (AF_INET, IN6_SET_ADDR_V4MAPPED (In6 (s6_0 dst) (s6_1 dst) (s6_2 dst) a))
      | None \<Rightarrow> (case pton6 lib src of Some a \<Rightarrow> (AF_INET6, a) | None \<Rightarrow> (AF_UNSPEC, dst)))"

definition inet_atonz64 :: "inet_lib \<Rightarrow> char list \<Rightarrow> in64_addr \<Rightarrow> (af \<times> in64_addr) option" where
  "inet_atonz64 lib src dst =
     (case inet_atonz_p lib src True True of
        None \<Rightarrow> None
      | Some (NoAddr, sc) \<Rightarrow> Some (AF_UNSPEC, dst\<lparr>scope_id := sc\<rparr>)
      | Some (Addr4 a, sc) \<Rightarrow>
          Some (AF_INET, dst\<lparr>addr6 := IN6_SET_ADDR_V4MAPPED
            (In6 (s6_0 (addr6 dst)) (s6_1 (addr6 dst)) (s6_2 (addr6 dst)) a), scope_id := sc\<rparr>)
      | Some (Addr6 a, sc) \<Rightarrow> Some (AF_INET6, dst\<lparr>addr6 := a, scope_id := sc\<rparr>))"

definition inet_atonz64i :: "inet_lib \<Rightarrow> char list \<Rightarrow> in64_addr \<Rightarrow> (af \<times> in64_addr) option" where
  "inet_atonz64i lib src dst =
     (let dst = dst\<lparr>scope_id := ifindex lib src\<rparr> in
      if scope_id dst \<noteq> 0 then Some (AF_LOCAL, dst\<lparr>addr6 := in6addr_any\<rparr>)
      else inet_atonz64 lib src dst)"

definition sockaddr46_aton :: "inet_lib \<Rightarrow> char list \<Rightarrow> sockaddr_in46 \<Rightarrow> (af \<times> sockaddr_in46) option" where
  "sockaddr46_aton lib src dst =
     (case inet_atonz64i lib src \<lparr>addr6 = in6addr_any, scope_id = 0\<rparr> of
        None \<Rightarrow> None
      | Some (domain, host) \<Rightarrow>
          if domain = AF_UNSPEC then Some (AF_UNSPEC, dst)
          else let addr = dst\<lparr>sa_family := domain, sa_scope_id := scope_id host\<rparr> in
            Some (domain,
              if domain = AF_LOCAL then addr\<lparr>sa_family := AF_INET6, sin6_addr := in6addr_any\<rparr>
              else if domain = AF_INET then addr\<lparr>sin_addr := s6_3 (addr6 host)\<rparr>
              else if domain = AF_INET6 then addr\<lparr>sin6_addr := addr6 host, sin_addr := 0\<rparr>
              else addr))"

section \<open>Properties\<close>

text \<open>Every string but the empty one is parsed.\<close>

lemma sockaddr46_aton_total:
  assumes "src \<noteq> []"
  shows "\<exists>f addr. sockaddr46_aton lib src dst = Some (f, addr)"
proof -
  have "inet_atonz_p lib src True True \<noteq> None"
    using assms by (simp add: inet_atonz_p_def Let_def)
  then have "inet_atonz64 lib src d \<noteq> None" for d
    by (auto simp: inet_atonz64_def split: option.splits prod.splits address.splits)
  then have "inet_atonz64i lib src d \<noteq> None" for d
    by (simp add: inet_atonz64i_def Let_def)
  then obtain f h where "inet_atonz64i lib src \<lparr>addr6 = in6addr_any, scope_id = 0\<rparr> = Some (f, h)" by fastforce
  then show ?thesis by (simp add: sockaddr46_aton_def Let_def)
qed

text \<open>A scoped address in brackets, as in \<open>[fe80::1%2]\<close>, is parsed to the address without decoration and
  the interface number behind the percent sign; without brackets and scope the string goes to
  \<open>inet_pton\<close> as it is.\<close>

theorem inet_atonz_scoped:
  assumes "a \<noteq> []" and "CHR ''%'' \<notin> set a" and "CHR ''['' \<notin> set a" and "CHR '']'' \<notin> set a"
    and "length a < INET6_ADDRSTRLEN" and "n < 2 ^ 32"
  shows "inet_atonz_p lib (''['' @ a @ ''%'' @ showd n @ '']'') want4 want6 =
      Some (try_pton lib want4 want6 a, word_of_nat n) \<and>
    inet_atonz_p lib (''['' @ a @ '']'') want4 want6 = Some (try_pton lib want4 want6 a, 0) \<and>
    inet_atonz_p lib a want4 want6 = Some (try_pton lib want4 want6 a, 0)"
proof -
  have n: "int n \<le> LONG_MAX" using assms(6) by (simp add: LONG_MAX_def)
  have len: "length (showd n) < IF_NAMESIZE"
    using length_showd_le [of n 10] assms(6) by (simp add: IF_NAMESIZE_def)
  have d: "isdigit (at (showd n) 0)"
    using showd_digits [of n] by (cases "showd n") auto
  have scope: "parse_scope lib (showd n) = word_of_nat n"
    using len d strtol_showd_end [OF n] by (simp add: parse_scope_def)
  have hd: "hd a \<noteq> CHR ''[''" and last: "last a \<noteq> CHR '']''"
    using assms(1,3,4) by (metis list.set_sel(1), metis last_in_set)
  have "before_chr CHR ''%'' a = a" "after_chr CHR ''%'' a = None"
    using assms(2) by (auto simp: before_chr_def after_chr_None takeWhile_eq_all_conv)
  with hd last assms(1,2,5) scope before_chr_append [OF assms(2), of "showd n"] after_chr_append [OF assms(2), of "showd n"]
  show ?thesis
    by (simp add: inet_atonz_p_def butlast_append)
qed

definition sample_inet_lib :: inet_lib where
  "sample_inet_lib = \<lparr>pton4 = (\<lambda>_. None), pton6 = (\<lambda>s. if s = ''fe80::1'' then Some (In6 1 0 0 1) else None),
     ifindex = (\<lambda>_. 0)\<rparr>"

theorem inet_atonz_scoped_witness:
  "inet_atonz_p sample_inet_lib (''['' @ ''fe80::1'' @ ''%'' @ showd 2 @ '']'') True True =
     Some (Addr6 (In6 1 0 0 1), 2)"
  using inet_atonz_scoped [of "''fe80::1''" 2 sample_inet_lib True True]
  by (simp add: INET6_ADDRSTRLEN_def try_pton_def sample_inet_lib_def)

end
