(* ===== verification/Endpoint.thy ===== *)
theory Endpoint
  imports Inet46
begin

text \<open>
  The printer of \<^verbatim>\<open>inet46i/sockaddr46.c\<close> and \<^verbatim>\<open>inet46i/recvfromto.c\<close>: the two ends of a datagram, as
  text and as the kernel reports them.

  The C library is a parameter: \<open>ntop4\<close> and \<open>ntop6\<close> are \<open>inet_ntop\<close> for the two families, \<open>ifname\<close> is
  \<open>if_indextoname\<close>, \<open>None\<close> when there is no such interface. A result \<open>None\<close> is a use of memory that was not
  set or that lies outside of the buffer.
\<close>

section \<open>Printing socket addresses\<close>

record print_lib =
  ntop4 :: "u32 \<Rightarrow> char list"
  ntop6 :: "in6_addr \<Rightarrow> char list"
  ifname :: "u32 \<Rightarrow> char list option"

definition SOCKADDR_STRLEN :: nat where
  "SOCKADDR_STRLEN = INET6_ADDRSTRLEN + IF_NAMESIZE + 8"

text \<open>\<open>strncat(str, s, len)\<close> appends at most \<open>len\<close> characters, into the buffer of \<open>len\<close> bytes that already
  holds \<open>str\<close>.\<close>

definition strncat :: "nat \<Rightarrow> char list \<Rightarrow> char list \<Rightarrow> char list option" where
  "strncat len s str = (if length (str @ take len s) < len then Some (str @ take len s) else None)"

text \<open>\<open>inet_ntop\<close> into \<open>len\<close> bytes: it fails when the text does not fit, and the buffer stays as it was.\<close>

definition print_host :: "print_lib \<Rightarrow> sockaddr_in46 \<Rightarrow> nat \<Rightarrow> char list option" where
  "print_host lib addr len =
     (case sa_family addr of
        AF_INET6 \<Rightarrow> if length (ntop6 lib (sin6_addr addr)) < len - 1
                     then Some (CHR ''['' # ntop6 lib (sin6_addr addr)) else None
      | AF_INET \<Rightarrow> if length (ntop4 lib (sin_addr addr)) < len then Some (ntop4 lib (sin_addr addr)) else None
      | _ \<Rightarrow> None)"

definition print_scope :: "print_lib \<Rightarrow> nat \<Rightarrow> u32 \<Rightarrow> char list \<Rightarrow> char list option" where
  "print_scope lib len index str =
     (if index \<noteq> 0 then
        (case ifname lib index of
           None \<Rightarrow> None
         | Some name \<Rightarrow> strncat len (CHR ''%'' # name) str)
      else Some str)"

definition sockaddrz_toa :: "print_lib \<Rightarrow> sockaddr_in46 \<Rightarrow> nat \<Rightarrow> u32 \<Rightarrow> char list option" where
  "sockaddrz_toa lib addr len index =
     (if len = 0 then Some []
      else Option.bind (print_host lib addr len) (\<lambda>str.
           Option.bind (print_scope lib len index str) (\<lambda>str.
           Option.bind (if sa_family addr = AF_INET6 then strncat len '']'' str else Some str) (\<lambda>str.
           if sa_port addr \<noteq> 0 then strncat len ('':'' @ showd (unat (ntohs (sa_port addr)))) str
           else Some str))))"

definition sockaddr_toa :: "print_lib \<Rightarrow> sockaddr_in46 \<Rightarrow> nat \<Rightarrow> char list option" where
  "sockaddr_toa lib addr len =
     sockaddrz_toa lib addr len (if sa_family addr = AF_INET6 then sa_scope_id addr else 0)"

definition sockaddr46_toa :: "print_lib \<Rightarrow> sockaddr_in46 \<Rightarrow> nat \<Rightarrow> char list option" where
  "sockaddr46_toa lib addr len = sockaddrz_toa lib addr len (sa_scope_id addr)"

text \<open>What the manuals of \<open>inet_ntop\<close> and \<open>if_indextoname\<close> promise of the lengths of their results.\<close>

definition print_lib_ok :: "print_lib \<Rightarrow> bool" where
  "print_lib_ok lib \<longleftrightarrow> (\<forall>a. length (ntop4 lib a) < 16) \<and> (\<forall>a. length (ntop6 lib a) < INET6_ADDRSTRLEN) \<and>
     (\<forall>i s. ifname lib i = Some s \<longrightarrow> length s < IF_NAMESIZE)"

section \<open>Receiving with both addresses\<close>

text \<open>The control messages of \<open>recvmsg\<close> that the source looks at; every other one is \<open>CmOther\<close>.\<close>

datatype cmsg =
  CmPktinfo (spec_dst: u32) (ipi_addr: u32) (ipi_ifindex: u32)
| CmOrigdst af u16 u32
| Cm6Pktinfo in6_addr u32
| Cm6Origdst sockaddr_in46
| CmOther

text \<open>What \<open>recvmsg\<close> reports: the bytes, the source address and the control messages.\<close>

record arrival =
  r_buf :: "char list"
  r_src :: sockaddr_in46
  r_cmsgs :: "cmsg list"

text \<open>The loop over the control messages. Without a buffer for it an address is not written.\<close>

fun read_cmsgs :: "cmsg list \<Rightarrow> sockaddr_in46 option \<Rightarrow> u32 option \<Rightarrow> sockaddr_in46 option \<times> u32 option" where
  "read_cmsgs [] dst recv_dst = (dst, recv_dst)"
| "read_cmsgs (CmPktinfo spec a index # cs) dst recv_dst =
     (map_option (\<lambda>d. d\<lparr>sa_family := AF_INET, sin_addr := spec, sa_scope_id := index\<rparr>) dst,
      map_option (\<lambda>_. a) recv_dst)"
| "read_cmsgs (CmOrigdst f port a # cs) dst recv_dst =
     read_cmsgs cs (map_option (\<lambda>d. d\<lparr>sa_family := f, sa_port := port, sin_addr := a\<rparr>) dst) recv_dst"
| "read_cmsgs (Cm6Pktinfo a index # cs) dst recv_dst =
     (map_option (\<lambda>d. d\<lparr>sa_family := AF_INET6, sin_addr := 0, sin6_addr := a, sa_scope_id := index\<rparr>) dst, recv_dst)"
| "read_cmsgs (Cm6Origdst a # cs) dst recv_dst = (map_option (\<lambda>_. a) dst, recv_dst)"
| "read_cmsgs (CmOther # cs) dst recv_dst = read_cmsgs cs dst recv_dst"

text \<open>The source address is copied when there is a buffer for it. The results are the length or \<open>- 1\<close>, the
  bytes, and the three addresses.\<close>

definition recvfromto ::
  "arrival option \<Rightarrow> nat \<Rightarrow> sockaddr_in46 option \<Rightarrow> sockaddr_in46 option \<Rightarrow> u32 option \<Rightarrow>
   int \<times> char list \<times> sockaddr_in46 option \<times> sockaddr_in46 option \<times> u32 option" where
  "recvfromto message len src dst recv_dst =
     (case message of
        None \<Rightarrow> (- 1, [], src, dst, recv_dst)
      | Some m \<Rightarrow>
          let buf = take len (r_buf m);
              src = map_option (\<lambda>_. r_src m) src
          in if dst = None \<and> \<not> (sa_family (r_src m) = AF_INET \<and> recv_dst \<noteq> None)
             then (int (length buf), buf, src, dst, recv_dst)
             else let (dst, recv_dst) = read_cmsgs (r_cmsgs m) (map_option (\<lambda>d. d\<lparr>sa_port := 0\<rparr>) dst) recv_dst
                  in (int (length buf), buf, src, dst, recv_dst))"

section \<open>Lemmas\<close>

lemma length_port: "length (showd (unat (p :: u16))) \<le> 5"
  using length_showd_le [of "unat p" 5] unsigned_less [of p, where ?'a = nat] by simp

lemma strncat_fits: "length str + length s < len \<Longrightarrow> strncat len s str = Some (str @ s)"
  by (simp add: strncat_def)

section \<open>Properties\<close>

text \<open>C31. A buffer of \<open>SOCKADDR_STRLEN\<close> bytes is large enough for every address of either family: the limit that
  the source gives to \<open>strncat\<close> is the size of the whole buffer and stops nothing, but it is never needed.\<close>

theorem sockaddrz_toa_fits:
  assumes "print_lib_ok lib" and "sa_family addr \<in> {AF_INET, AF_INET6}" and "SOCKADDR_STRLEN \<le> len"
    and "index \<noteq> 0 \<Longrightarrow> ifname lib index \<noteq> None"
  shows "\<exists>str. sockaddrz_toa lib addr len index = Some str \<and> length str < SOCKADDR_STRLEN \<and>
    str = (if sa_family addr = AF_INET6 then ''['' @ ntop6 lib (sin6_addr addr) else ntop4 lib (sin_addr addr)) @
      (if index = 0 then [] else ''%'' @ the (ifname lib index)) @
      (if sa_family addr = AF_INET6 then '']'' else []) @
      (if sa_port addr = 0 then [] else '':'' @ showd (unat (ntohs (sa_port addr))))"
proof -
  have l: "length (ntop4 lib (sin_addr addr)) < 16" "length (ntop6 lib (sin6_addr addr)) < 46"
    using assms(1) by (auto simp: print_lib_ok_def INET6_ADDRSTRLEN_def)
  have n: "70 \<le> len" and p: "length (showd (unat (ntohs (sa_port addr)))) \<le> 5"
    using assms(3) length_port by (simp_all add: SOCKADDR_STRLEN_def INET6_ADDRSTRLEN_def IF_NAMESIZE_def)
  have scope: "print_scope lib len index str =
      Some (str @ (if index = 0 then [] else ''%'' @ the (ifname lib index))) \<and>
      length (if index = 0 then [] else ''%'' @ the (ifname lib index)) \<le> 16" if "length str < 50" for str
  proof (cases "index = 0")
    case False
    with assms(4) obtain name where name: "ifname lib index = Some name" by blast
    then have "length name < 16" using assms(1) by (auto simp: print_lib_ok_def IF_NAMESIZE_def)
    with False name that n strncat_fits [of str "CHR ''%'' # name" len] show ?thesis
      by (simp add: print_scope_def)
  qed (simp add: print_scope_def)
  show ?thesis
  proof (cases "sa_family addr = AF_INET6")
    case True
    then show ?thesis
      using l n p scope [of "CHR ''['' # ntop6 lib (sin6_addr addr)"]
      by (auto simp: sockaddrz_toa_def print_host_def strncat_fits SOCKADDR_STRLEN_def INET6_ADDRSTRLEN_def IF_NAMESIZE_def)
  next
    case False
    with assms(2) have "sa_family addr = AF_INET" by simp
    then show ?thesis
      using l n p scope [of "ntop4 lib (sin_addr addr)"]
      by (auto simp: sockaddrz_toa_def print_host_def strncat_fits SOCKADDR_STRLEN_def INET6_ADDRSTRLEN_def IF_NAMESIZE_def)
  qed
qed

definition sample_print_lib :: print_lib where
  "sample_print_lib = \<lparr>ntop4 = (\<lambda>_. ''10.0.0.1''), ntop6 = (\<lambda>_. ''fe80::1''),
     ifname = (\<lambda>i. if i = 2 then Some ''eth0'' else None)\<rparr>"

lemma sample_print_lib_ok [simp]: "print_lib_ok sample_print_lib"
  by (simp add: print_lib_ok_def sample_print_lib_def INET6_ADDRSTRLEN_def IF_NAMESIZE_def)

theorem sockaddrz_toa_fits_witness:
  "sockaddrz_toa sample_print_lib (sockaddr_zero\<lparr>sa_family := AF_INET6\<rparr>) 80 2 = Some ''[fe80::1%eth0]''"
  using sockaddrz_toa_fits [of sample_print_lib "sockaddr_zero\<lparr>sa_family := AF_INET6\<rparr>" 80 2, OF sample_print_lib_ok]
  by (simp add: SOCKADDR_STRLEN_def INET6_ADDRSTRLEN_def IF_NAMESIZE_def)
    (simp add: sample_print_lib_def sockaddr_zero_def)

text \<open>\<open>recvfromto\<close> reports the destination of the packet header and the local address behind it: with the
  options that the daemons set, one packet information follows, and the addresses come from it.\<close>

theorem recvfromto_pktinfo:
  assumes "\<forall>c \<in> set cs. c = CmOther" and "r_cmsgs m = cs @ info # cs'"
    and "recvfromto (Some m) len (Some s) (Some d) (Some r) = (n, buf, src, dst, recv_dst)"
  shows "n = int (length buf) \<and> buf = take len (r_buf m) \<and> src = Some (r_src m) \<and>
    (case info of
       CmPktinfo spec a index \<Rightarrow>
         dst = Some (d\<lparr>sa_port := 0, sa_family := AF_INET, sin_addr := spec, sa_scope_id := index\<rparr>) \<and> recv_dst = Some a
     | Cm6Pktinfo a index \<Rightarrow>
         dst = Some (d\<lparr>sa_port := 0, sa_family := AF_INET6, sin_addr := 0, sin6_addr := a, sa_scope_id := index\<rparr>) \<and>
         recv_dst = Some r
     | _ \<Rightarrow> True)"
proof -
  have skip: "read_cmsgs (cs @ info # cs') d r = read_cmsgs (info # cs') d r" for d r
    using assms(1) by (induction cs) auto
  show ?thesis
    using assms(2,3) by (auto simp: recvfromto_def skip Let_def split: prod.splits cmsg.splits)
qed

theorem recvfromto_pktinfo_witness:
  "fst (snd (recvfromto (Some \<lparr>r_buf = ''0101-0101'', r_src = sockaddr_zero, r_cmsgs = [CmOther, CmPktinfo 1 2 3]\<rparr>) 4
     (Some sockaddr_zero) (Some sockaddr_zero) (Some 0))) = ''0101''"
  using recvfromto_pktinfo [of "[CmOther]" "\<lparr>r_buf = ''0101-0101'', r_src = sockaddr_zero, r_cmsgs = [CmOther, CmPktinfo 1 2 3]\<rparr>"
      "CmPktinfo 1 2 3" "[]" 4 sockaddr_zero sockaddr_zero 0]
  by (cases "recvfromto (Some \<lparr>r_buf = ''0101-0101'', r_src = sockaddr_zero, r_cmsgs = [CmOther, CmPktinfo 1 2 3]\<rparr>) 4
     (Some sockaddr_zero) (Some sockaddr_zero) (Some 0)") auto

end
