(* ===== verification/Host.thy ===== *)
theory Host
  imports Endpoint Config Dialog
begin

text \<open>
  \<^verbatim>\<open>leelen/discovery/protocol.h\<close>, \<^verbatim>\<open>leelen/discovery/protocol.c\<close>, \<^verbatim>\<open>leelen/discovery/host.h\<close> and
  \<^verbatim>\<open>leelen/discovery/host.c\<close>: a host that answers a discovery, from the text it sends.

  \<open>None\<close> is a read outside of an object: \<open>sockaddr46_aton\<close> reads in front of an empty string. A
  null pointer \<open>desc\<close> is \<open>None\<close>. What arrives at a socket is a list of rounds of the receiving loop: whether
  \<open>poll\<close> reports something, and what \<open>recvfrom\<close> then gives, \<open>None\<close> for an error.
\<close>

section \<open>protocol.h\<close>

definition LEELEN_DISCOVERY_GROUPADDR :: u32 where "LEELEN_DISCOVERY_GROUPADDR = 0xe0000001"
definition LEELEN_DISCOVERY_TIMEOUT :: int where "LEELEN_DISCOVERY_TIMEOUT = 200"

definition leelen_discovery_groupaddr :: in6_addr where
  "leelen_discovery_groupaddr = In6 (lhtonl LEELEN_DISCOVERY_GROUPADDR) 0 0 0"

text \<open>The sixteen bytes of the initialiser, as the words of a little-endian machine.\<close>

definition leelen_discovery_groupaddr6 :: in6_addr where
  "leelen_discovery_groupaddr6 = In6 (lhtonl 0x0f0f0002) 0 0 (lhtonl 1)"

definition Leelen_discovery_is_advertisement :: "char list \<Rightarrow> bool" where
  "Leelen_discovery_is_advertisement msg \<longleftrightarrow> CHR ''?'' \<in> set msg"

text \<open>\<open>LEELEN_DISCOVERY_FORMAT\<close> is the format \<open>%s?%d*%s\<close>.\<close>

definition LEELEN_DISCOVERY_FORMAT :: "char list \<Rightarrow> u8 \<Rightarrow> char list \<Rightarrow> char list" where
  "LEELEN_DISCOVERY_FORMAT addr type desc = addr @ ''?'' @ showd (unat type) @ ''*'' @ desc"

section \<open>host.c\<close>

record LeelenHost =
  h_addr :: sockaddr_in46
  h_src :: sockaddr_in46
  h_desc :: "char list option"
  h_type :: u8

text \<open>The address in front of the question mark, or else the sender of the message.\<close>

definition host_address ::
  "inet_lib \<Rightarrow> char list \<Rightarrow> sockaddr_in46 option \<Rightarrow> LeelenHost \<Rightarrow> (int \<times> LeelenHost) option" where
  "host_address lib report src self =
     (let addrlen = (if Leelen_discovery_is_advertisement report then length (before_chr CHR ''?'' report)
                     else min (length report) SOCKADDR_STRLEN);
          parsed = (if addrlen < SOCKADDR_STRLEN then sockaddr46_aton lib (take addrlen report) (h_addr self)
                    else Some (AF_UNSPEC, h_addr self))
      in case parsed of
           None \<Rightarrow> None
         | Some (f, addr) \<Rightarrow>
             if f \<noteq> AF_UNSPEC then Some (0, self\<lparr>h_addr := addr\<lparr>sa_port := 0\<rparr>\<rparr>)
             else Some (1, self\<lparr>h_addr := (case src of Some a \<Rightarrow> a | None \<Rightarrow> addr\<lparr>sa_family := AF_UNSPEC\<rparr>)\<lparr>sa_port := 0\<rparr>\<rparr>))"

definition LeelenHost_init ::
  "inet_lib \<Rightarrow> char list \<Rightarrow> sockaddr_in46 option \<Rightarrow> LeelenHost \<Rightarrow> 'p world \<Rightarrow> (int \<times> LeelenHost \<times> 'p world) option" where
  "LeelenHost_init lib report src self w =
     (case host_address lib report src (self\<lparr>h_desc := None\<rparr>) of
        None \<Rightarrow> None
      | Some (ret, self) \<Rightarrow>
          (case after_chr CHR ''?'' report of
             None \<Rightarrow> Some (ret + 2 + 4, self, w)
           | Some rest \<Rightarrow>
               let self = (case src of Some a \<Rightarrow> self\<lparr>h_src := a\<rparr> | None \<Rightarrow> self);
                   (number, end) = strtol rest;
                   self = self\<lparr>h_type := word_of_int number\<rparr>;
                   ret = (if at end 0 = CHR ''*'' then ret else ret + 2)
               in case after_chr CHR ''*'' end of
                    None \<Rightarrow> Some (ret + 4, self, w)
                  | Some desc \<Rightarrow>
                      let (ok, w) = sys w in
                      if ok then Some (ret, self\<lparr>h_desc := Some desc\<rparr>, w) else Some (ret + 4, self, w)))"

text \<open>\<open>addr\<close> is what was on the stack in the place of the address.\<close>

definition LeelenHost__discovery ::
  "sockaddr_in46 \<Rightarrow> af \<Rightarrow> int \<Rightarrow> u16 \<Rightarrow> char list \<Rightarrow> net \<Rightarrow> int \<times> net" where
  "LeelenHost__discovery addr f sockfd port phone w =
     (if f \<noteq> AF_INET \<and> f \<noteq> AF_INET6 then (255, w)
      else case sockaddr46_set addr f
          (Some (if f = AF_INET6 then leelen_discovery_groupaddr6 else leelen_discovery_groupaddr))
          (if port = 0 then LEELEN_DISCOVERY_PORT else port) of
        None \<Rightarrow> (255, w)
      | Some addr \<Rightarrow> let (ok, w) = sys_send (sockfd, addr, phone) w in (if ok then 0 else - 1, w))"

type_synonym received = "(char list \<times> sockaddr_in46) option"

definition LeelenHost_init_read ::
  "inet_lib \<Rightarrow> received \<Rightarrow> LeelenHost \<Rightarrow> int option \<Rightarrow> 'p world \<Rightarrow> (int \<times> LeelenHost \<times> int option \<times> 'p world) option" where
  "LeelenHost_init_read lib received self initerr w =
     (case received of
        None \<Rightarrow> Some (1, self, initerr, w)
      | Some (bytes, addr) \<Rightarrow>
          if bytes = [] then Some (1, self, initerr, w)
          else
            let buf = cstr (take (unat LEELEN_MAX_MESSAGE_LENGTH) bytes) in
            if \<not> Leelen_discovery_is_advertisement buf then Some (255, self, initerr, w)
            else case LeelenHost_init lib buf (Some addr) self w of
                   None \<Rightarrow> None
                 | Some (res, self, w) \<Rightarrow> Some (0, self, map_option (\<lambda>_. res) initerr, w))"

text \<open>\<open>gettimeofday\<close> in milliseconds.\<close>

definition ms :: "int \<times> int \<Rightarrow> int" where
  "ms t = fst t * 1000 + snd t div 1000 div 1000"

definition timems :: "'p world \<Rightarrow> int \<times> 'p world" where
  "timems w = (let (t, w) = sys_time w in (ms t, w))"

text \<open>The loop; the recorded rounds are used up when it still waits (\<open>Inl ()\<close>).\<close>

fun init_recv_loop ::
  "inet_lib \<Rightarrow> int \<Rightarrow> int \<Rightarrow> (bool \<times> received) list \<Rightarrow> LeelenHost \<Rightarrow> int option \<Rightarrow> 'p world \<Rightarrow>
   (unit + int \<times> LeelenHost \<times> int option \<times> 'p world) option" where
  "init_recv_loop lib timeout start [] self initerr w = Some (Inl ())"
| "init_recv_loop lib timeout start ((ready, received) # rounds) self initerr w =
     (let (now, w) = timems w; elapsed = now - start in
      if \<not> (elapsed < timeout \<and> ready) then Some (Inr (2, self, initerr, w))
      else case LeelenHost_init_read lib received self initerr w of
             None \<Rightarrow> None
           | Some (res, self, initerr, w) \<Rightarrow>
               if res \<noteq> 255 then Some (Inr (res, self, initerr, w))
               else init_recv_loop lib timeout start rounds self initerr w)"

definition LeelenHost_init_recv ::
  "inet_lib \<Rightarrow> int \<Rightarrow> (bool \<times> received) list \<Rightarrow> LeelenHost \<Rightarrow> int option \<Rightarrow> 'p world \<Rightarrow>
   (unit + int \<times> LeelenHost \<times> int option \<times> 'p world) option" where
  "LeelenHost_init_recv lib timeout rounds self initerr w =
     (let timeout = (if timeout = 0 then LEELEN_DISCOVERY_TIMEOUT else timeout);
          (start, w) = timems w
      in init_recv_loop lib timeout start rounds self initerr w)"

definition LeelenHost_init_discovery ::
  "inet_lib \<Rightarrow> sockaddr_in46 \<Rightarrow> af \<Rightarrow> int \<Rightarrow> u16 \<Rightarrow> char list \<Rightarrow> int \<Rightarrow> (bool \<times> received) list \<Rightarrow> LeelenHost \<Rightarrow>
   int option \<Rightarrow> net \<Rightarrow> (unit + int \<times> LeelenHost \<times> int option \<times> net) option" where
  "LeelenHost_init_discovery lib addr f sockfd port phone timeout rounds self initerr w =
     (let (res, w) = LeelenHost__discovery addr f sockfd port phone w in
      if res \<noteq> 0 then Some (Inr (res, self, initerr, w))
      else LeelenHost_init_recv lib timeout rounds self initerr w)"

section \<open>Lemmas\<close>

lemma is_advertisement_after: "Leelen_discovery_is_advertisement s \<longleftrightarrow> after_chr CHR ''?'' s \<noteq> None"
  by (simp add: Leelen_discovery_is_advertisement_def after_chr_None)

lemma host_address_defined:
  assumes "report \<noteq> []" and "hd report \<noteq> CHR ''?''"
  shows "host_address lib report src self \<noteq> None"
proof -
  let ?n = "if Leelen_discovery_is_advertisement report then length (before_chr CHR ''?'' report)
    else min (length report) SOCKADDR_STRLEN"
  have "take ?n report \<noteq> []"
    using assms by (cases report) (simp_all add: before_chr_def SOCKADDR_STRLEN_def)
  then obtain f addr where "sockaddr46_aton lib (take ?n report) (h_addr self) = Some (f, addr)"
    using sockaddr46_aton_total by blast
  then show ?thesis
    by (cases "?n < SOCKADDR_STRLEN") (simp_all only: host_address_def Let_def if_True if_False option.case prod.case
        split: if_splits, simp_all)
qed

lemma host_address_result:
  "host_address lib report src self = Some (r, h) \<Longrightarrow> r \<in> {0, 1} \<and> h_desc h = h_desc self \<and> h_type h = h_type self"
  by (auto simp: host_address_def Let_def split: option.splits prod.splits if_splits)

lemma init_defined:
  "report \<noteq> [] \<Longrightarrow> hd report \<noteq> CHR ''?'' \<Longrightarrow> LeelenHost_init lib report src self w \<noteq> None"
  using host_address_defined [of report lib src "self\<lparr>h_desc := None\<rparr>"]
  by (auto simp: LeelenHost_init_def Let_def split: option.splits prod.splits)

lemma init_result:
  assumes "LeelenHost_init lib report src self w = Some (r, h, w')"
  shows "0 \<le> r \<and> r \<le> 7 \<and> same_env w w' \<and> w_sent w' = w_sent w"
  using assms
  by (auto simp: LeelenHost_init_def sys_def Let_def dest!: host_address_result
      split: option.splits prod.splits if_splits)

text \<open>A message whose text starts with a question mark makes the parser read in front of its buffer.\<close>

definition readable :: "received \<Rightarrow> bool" where
  "readable r \<longleftrightarrow> (\<forall>bytes addr. r = Some (bytes, addr) \<longrightarrow> at bytes 0 \<noteq> CHR ''?'')"

lemma init_read_defined:
  assumes "readable r"
  shows "LeelenHost_init_read lib r self initerr w \<noteq> None"
proof (cases r)
  case (Some m)
  obtain bytes addr where m: "m = (bytes, addr)" by (cases m)
  let ?buf = "cstr (take (unat LEELEN_MAX_MESSAGE_LENGTH) bytes)"
  have "hd ?buf \<noteq> CHR ''?''" if "?buf \<noteq> []"
    using that assms Some m
    by (cases bytes) (auto simp: readable_def cstr_def take_Cons' split: if_splits)
  then have "LeelenHost_init lib ?buf (Some addr) self w \<noteq> None" if "Leelen_discovery_is_advertisement ?buf"
    using that init_defined [of ?buf] by (cases "?buf = []") (simp_all add: Leelen_discovery_is_advertisement_def del: not_None_eq)
  then show ?thesis
    using Some m by (auto simp: LeelenHost_init_read_def Let_def split: option.splits)
qed (simp add: LeelenHost_init_read_def)

lemma init_read_noise:
  "LeelenHost_init_read lib r self initerr w = Some (255, h, e, w') \<Longrightarrow> h = self \<and> e = initerr \<and> w' = w"
  by (auto simp: LeelenHost_init_read_def Let_def split: option.splits prod.splits if_splits)

lemma init_recv_loop_returns:
  assumes "\<forall>x \<in> set rounds. readable (snd x)" and "\<And>i. ms (w_now w i) < ms (w_now w (Suc i))"
    and "start + timeout \<le> ms (w_now w (w_tick w)) + int n" and "n < length rounds"
  shows "\<exists>r h e w'. init_recv_loop lib timeout start rounds self initerr w = Some (Inr (r, h, e, w'))"
  using assms
proof (induction rounds arbitrary: w n)
  case (Cons x rounds)
  obtain ready received where x: "x = (ready, received)" by (cases x)
  let ?now = "ms (w_now w (w_tick w))"
  show ?case
  proof (cases "?now - start < timeout \<and> ready")
    case False
    then show ?thesis by (auto simp: x timems_def Let_def)
  next
    case True
    from Cons.prems(1) x have "readable received" by simp
    then obtain r h e w' where read: "LeelenHost_init_read lib received self initerr (step w) = Some (r, h, e, w')"
      using init_read_defined by (metis not_None_eq prod_cases4)
    show ?thesis
    proof (cases "r = 255")
      case False
      with True read show ?thesis by (simp add: x timems_def Let_def)
    next
      case noise: True
      with read have same: "h = self" "e = initerr" "w' = step w" using init_read_noise by blast+
      from True Cons.prems(3) have "0 < n" by linarith
      then obtain m where m: "n = Suc m" by (cases n) auto
      have "start + timeout \<le> ms (w_now (step w) (w_tick (step w))) + int m"
        using Cons.prems(2) [of "w_tick w"] Cons.prems(3) m by simp
      with Cons.IH [of "step w" m] Cons.prems m same True noise read show ?thesis
        by (auto simp: x timems_def Let_def)
    qed
  qed
qed simp

text \<open>A packet that the loop passes over.\<close>

definition noise_packet :: "bool \<times> received \<Rightarrow> bool" where
  "noise_packet x \<longleftrightarrow> fst x \<and>
     (case snd x of None \<Rightarrow> False | Some (bytes, _) \<Rightarrow> bytes \<noteq> [] \<and> CHR ''?'' \<notin> set bytes)"

lemma init_read_passes:
  assumes "noise_packet (b, r)"
  shows "b" and "LeelenHost_init_read lib r self initerr w = Some (255, self, initerr, w)"
proof -
  obtain bytes addr where r: "r = Some (bytes, addr)" "bytes \<noteq> []" "CHR ''?'' \<notin> set bytes" and b: b
    using assms by (auto simp: noise_packet_def split: option.splits)
  have "set (cstr (take n bytes)) \<subseteq> set bytes" for n
    unfolding cstr_def using set_takeWhileD in_set_takeD by fast
  then have "\<not> Leelen_discovery_is_advertisement (cstr (take n bytes))" for n
    using r(3) by (auto simp: Leelen_discovery_is_advertisement_def)
  then show "LeelenHost_init_read lib r self initerr w = Some (255, self, initerr, w)"
    by (simp only: r(1) LeelenHost_init_read_def option.case prod.case r(2) if_False if_True Let_def not_False_eq_True)
  show b by (fact b)
qed

lemma init_recv_loop_noise:
  assumes "\<forall>x \<in> set noise. noise_packet x" and "\<And>i. ms (w_now w i) < start + timeout"
  shows "init_recv_loop lib timeout start (noise @ rounds) self initerr w =
    init_recv_loop lib timeout start rounds self initerr (w\<lparr>w_tick := w_tick w + length noise\<rparr>)"
  using assms
proof (induction noise arbitrary: w)
  case (Cons x noise)
  obtain b r where x: "x = (b, r)" by (cases x)
  with Cons.prems have n: "noise_packet (b, r)" by simp
  note passes = init_read_passes(1) [OF n] init_read_passes(2) [OF n, of lib self initerr "step w"]
  have "ms (w_now w (w_tick w)) - start < timeout" using Cons.prems(2) [of "w_tick w"] by linarith
  with Cons.IH [of "step w"] Cons.prems passes show ?case
    by (simp add: x timems_def Let_def step_def)
qed simp

section \<open>Properties\<close>


definition blank_host :: LeelenHost where
  "blank_host = \<lparr>h_addr = sockaddr_zero, h_src = sockaddr_zero, h_desc = None, h_type = 0\<rparr>"


text \<open>What the wait gives: packets that are no advertisements are passed over, and the first advertisement
  that arrives in time is parsed and ends the wait with 0, the result of the parser going to
  \<open>initerr\<close>; when \<open>poll\<close> reports nothing it ends with 2. A negative timeout, documented as none, ends it with 2 at
  once.\<close>

theorem LeelenHost_init_recv_result:
  assumes "\<And>i. ms (w_now w i) < ms (w_now w (w_tick w)) + timeout" and "0 < timeout"
    and "\<forall>x \<in> set noise. noise_packet x"
    and "CHR ''?'' \<in> set report" and "NUL \<notin> set report" and "length report \<le> unat LEELEN_MAX_MESSAGE_LENGTH"
    and "timeout' < 0" and "ms (w_now w (w_tick w)) \<le> ms (w_now w (Suc (w_tick w)))"
    and "w' = w\<lparr>w_tick := w_tick w + length noise + 2\<rparr>"
  shows "LeelenHost_init_recv lib timeout (noise @ (True, Some (report, addr)) # rounds) self initerr w =
      map_option (\<lambda>(res, self, w). Inr (0, self, map_option (\<lambda>_. res) initerr, w))
        (LeelenHost_init lib report (Some addr) self w') \<and>
    LeelenHost_init_recv lib timeout (noise @ (False, r) # rounds) self initerr w = Some (Inr (2, self, initerr, w')) \<and>
    LeelenHost_init_recv lib timeout' (x # rounds) self initerr w =
      Some (Inr (2, self, initerr, w\<lparr>w_tick := w_tick w + 2\<rparr>))"
proof (intro conjI)
  let ?start = "ms (w_now w (w_tick w))"
  let ?w = "(step w)\<lparr>w_tick := w_tick (step w) + length noise\<rparr>"
  have w': "w' = step ?w" by (simp add: assms(9) step_def)
  have now: "ms (w_now ?w (w_tick ?w)) - ?start < timeout" using assms(1) [of "w_tick ?w"] by simp
  note skip = init_recv_loop_noise [OF assms(3), of "step w" ?start timeout lib]
  have buf: "cstr (take (unat LEELEN_MAX_MESSAGE_LENGTH) report) = report" "report \<noteq> []"
    using assms(4-6) by (auto simp: cstr_no_NUL)
  have read: "LeelenHost_init_read lib (Some (report, addr)) self initerr w' =
      map_option (\<lambda>(res, self, w). (0, self, map_option (\<lambda>_. res) initerr, w)) (LeelenHost_init lib report (Some addr) self w')"
    using buf assms(4)
    by (simp add: LeelenHost_init_read_def Leelen_discovery_is_advertisement_def split: option.split)
  show "LeelenHost_init_recv lib timeout (noise @ (True, Some (report, addr)) # rounds) self initerr w =
      map_option (\<lambda>(res, self, w). Inr (0, self, map_option (\<lambda>_. res) initerr, w))
        (LeelenHost_init lib report (Some addr) self w')"
    using skip [of "(True, Some (report, addr)) # rounds"] assms(1,2) now read [unfolded w']
    by (simp add: LeelenHost_init_recv_def timems_def Let_def w' split: option.split)
  show "LeelenHost_init_recv lib timeout (noise @ (False, r) # rounds) self initerr w = Some (Inr (2, self, initerr, w'))"
    using skip [of "(False, r) # rounds"] assms(1,2)
    by (simp add: LeelenHost_init_recv_def timems_def Let_def w')
  show "LeelenHost_init_recv lib timeout' (x # rounds) self initerr w = Some (Inr (2, self, initerr, w\<lparr>w_tick := w_tick w + 2\<rparr>))"
    using assms(7,8) by (cases x) (simp add: LeelenHost_init_recv_def timems_def Let_def step_def)
qed

theorem LeelenHost_init_recv_result_witness:
  "LeelenHost_init_recv sample_inet_lib 200 [(True, Some (''0101-0101'', sockaddr_zero)), (False, None)] blank_host None
     (calm\<lparr>w_now := \<lambda>_. (1, 0)\<rparr> :: net) = Some (Inr (2, blank_host, None, calm\<lparr>w_now := \<lambda>_. (1, 0), w_tick := 3\<rparr>))"
  using LeelenHost_init_recv_result [of "calm\<lparr>w_now := \<lambda>_. (1, 0)\<rparr> :: net" 200 "[(True, Some (''0101-0101'', sockaddr_zero))]"
      "''?''" "- 1" "calm\<lparr>w_now := \<lambda>_. (1, 0), w_tick := 3\<rparr>" sample_inet_lib sockaddr_zero "[]" blank_host None None "(False, None)"]
  by (simp add: noise_packet_def LEELEN_MAX_MESSAGE_LENGTH_def)

end
