(* ===== verification/Advertiser.thy ===== *)
theory Advertiser
  imports Host
begin

text \<open>
  \<^verbatim>\<open>leelen/discovery/advertiser.h\<close> and \<^verbatim>\<open>leelen/discovery/advertiser.c\<close>: answering the
  discoveries of other devices.

  A compiled regular expression is its pattern, and \<open>regexec\<close> a parameter. An address behind a
  pointer is the 16 bytes that it points to and the 16 bytes that follow. The result \<open>None\<close> is a use of
  memory that was not set or that lies outside of an object: an address of another family, a datagram
  longer than the buffer, a missing description.
\<close>

record LeelenAdvertiser =
  a_regex :: "char list option"
  a_report :: "char list"
  a_mtu :: u16

type_synonym pointed = "in6_addr \<times> in6_addr"
type_synonym regex = "char list \<Rightarrow> char list \<Rightarrow> bool"

definition LeelenAdvertiser_should_reply :: "regex \<Rightarrow> LeelenConfig \<Rightarrow> LeelenAdvertiser \<Rightarrow> char list \<Rightarrow> bool" where
  "LeelenAdvertiser_should_reply regexec config self number =
     (case a_regex self of
        Some pattern \<Rightarrow> regexec pattern number
      | None \<Rightarrow>
          if at (number_bytes (c_number config)) 0 \<noteq> NUL then LeelenNumber_should_reply (c_number config) number
          else False)"

text \<open>\<open>inet_ntop\<close> of our address. For a v4-mapped one the family stays that of IPv6, so sixteen bytes are read
  from the place of its last word.\<close>

definition our_address :: "print_lib \<Rightarrow> sockaddr_in46 \<Rightarrow> pointed \<Rightarrow> char list option" where
  "our_address lib addr ouraddr =
     (case sa_family addr of
        AF_INET6 \<Rightarrow>
          Some (ntop6 lib (if IN6_IS_ADDR_V4MAPPED (fst ouraddr)
                           then In6 (s6_3 (fst ouraddr)) (s6_0 (snd ouraddr)) (s6_1 (snd ouraddr)) (s6_2 (snd ouraddr))
                           else fst ouraddr))
      | AF_INET \<Rightarrow> Some (ntop4 lib (s6_0 (fst ouraddr)))
      | _ \<Rightarrow> None)"

definition LeelenAdvertiser_reply ::
  "print_lib \<Rightarrow> LeelenConfig \<Rightarrow> LeelenAdvertiser \<Rightarrow> int \<Rightarrow> sockaddr_in46 \<Rightarrow> pointed option \<Rightarrow> net \<Rightarrow> (int \<times> net) option" where
  "LeelenAdvertiser_reply lib config self sockfd addr ouraddr w =
     (if a_report self = [] \<and> ouraddr = None then Some (255, w)
      else case (if a_report self = [] then our_address lib addr (the ouraddr) else Some (a_report self), c_desc config) of
             (Some text, Some desc) \<Rightarrow>
               let buf = LEELEN_DISCOVERY_FORMAT text (c_type config) desc in
               if length buf < unat (a_mtu self) then
                 (let (ok, w) = sys_send (sockfd, addr, buf) w in Some (if ok then 0 else - 1, w))
               else None
           | _ \<Rightarrow> None)"

definition LeelenAdvertiser_receive ::
  "regex \<Rightarrow> print_lib \<Rightarrow> LeelenConfig \<Rightarrow> LeelenAdvertiser \<Rightarrow> char list \<Rightarrow> int \<Rightarrow> sockaddr_in46 \<Rightarrow> pointed option \<Rightarrow> net \<Rightarrow>
   (int \<times> net) option" where
  "LeelenAdvertiser_receive regexec lib config self msg sockfd src dst w =
     (if \<not> (\<not> Leelen_discovery_is_advertisement msg \<and> LeelenAdvertiser_should_reply regexec config self msg)
      then Some (254, w)
      else LeelenAdvertiser_reply lib config self sockfd src dst w)"

text \<open>The two labels of the source, with the address at the pointer \<open>addr\<close>.\<close>

definition set_report4 :: "print_lib \<Rightarrow> u32 \<Rightarrow> LeelenAdvertiser \<Rightarrow> int \<times> LeelenAdvertiser" where
  "set_report4 lib a self = (0, self\<lparr>a_report := (if a = 0 then [] else ntop4 lib a)\<rparr>)"

definition LeelenAdvertiser_set_report_addr ::
  "print_lib \<Rightarrow> af \<Rightarrow> in6_addr \<Rightarrow> LeelenAdvertiser \<Rightarrow> int \<times> LeelenAdvertiser" where
  "LeelenAdvertiser_set_report_addr lib f addr self =
     (case f of
        AF_INET6 \<Rightarrow>
          if IN6_IS_ADDR_LOOPBACK addr then (0, self\<lparr>a_report := ''127.0.0.1''\<rparr>)
          else if IN6_IS_ADDR_V4OK addr then set_report4 lib (s6_3 addr) self
          else if IN6_IS_ADDR_UNSPECIFIED addr then (0, self\<lparr>a_report := []\<rparr>)
          else (0, self\<lparr>a_report := ntop6 lib addr\<rparr>)
      | AF_INET \<Rightarrow> set_report4 lib (s6_0 addr) self
      | AF_UNSPEC \<Rightarrow> (0, self\<lparr>a_report := []\<rparr>)
      | _ \<Rightarrow> (255, self))"

definition LeelenAdvertiser_sync :: "print_lib \<Rightarrow> LeelenConfig \<Rightarrow> LeelenAdvertiser \<Rightarrow> int \<times> LeelenAdvertiser" where
  "LeelenAdvertiser_sync lib config self =
     LeelenAdvertiser_set_report_addr lib (sa_family (c_addr config)) (sockaddr_addr (c_addr config))
       (self\<lparr>a_mtu := c_mtu config\<rparr>)"

definition LeelenAdvertiser_init :: "print_lib \<Rightarrow> LeelenConfig \<Rightarrow> LeelenAdvertiser \<Rightarrow> int \<times> LeelenAdvertiser" where
  "LeelenAdvertiser_init lib config self = (0, snd (LeelenAdvertiser_sync lib config (self\<lparr>a_regex := None\<rparr>)))"

text \<open>\<open>LeelenAdvertiser_destroy\<close> releases the expression.\<close>

definition LeelenAdvertiser_destroy :: "LeelenAdvertiser \<Rightarrow> LeelenAdvertiser" where
  "LeelenAdvertiser_destroy self = self\<lparr>a_regex := None\<rparr>"

section \<open>Lemmas\<close>

lemma not_isdigit_marks [simp]: "\<not> isdigit CHR ''?''" "\<not> isdigit CHR ''*''"
  by (simp_all add: isdigit_def)

text \<open>The text of an address, as \<open>inet_ntop\<close> writes it and \<open>inet_pton\<close> reads it.\<close>

definition address_text :: "inet_lib \<Rightarrow> char list \<Rightarrow> bool" where
  "address_text lib s \<longleftrightarrow> s \<noteq> [] \<and> length s < INET6_ADDRSTRLEN \<and> ifindex lib s = 0 \<and>
     (\<forall>c \<in> set s. c \<noteq> NUL \<and> c \<noteq> CHR ''?'' \<and> c \<noteq> CHR ''%'' \<and> c \<noteq> CHR ''['' \<and> c \<noteq> CHR '']'')"

definition address_of :: "inet_lib \<Rightarrow> char list \<Rightarrow> sockaddr_in46 \<Rightarrow> sockaddr_in46 option" where
  "address_of lib s addr =
     (case (pton4 lib s, pton6 lib s) of
        (Some a, _) \<Rightarrow> Some (addr\<lparr>sa_family := AF_INET, sa_scope_id := 0, sin_addr := a\<rparr>)
      | (None, Some a) \<Rightarrow> Some (addr\<lparr>sa_family := AF_INET6, sa_scope_id := 0, sin_addr := 0, sin6_addr := a\<rparr>)
      | _ \<Rightarrow> None)"

lemma aton_text:
  assumes "address_text lib s" and "address_of lib s addr = Some addr'"
  shows "\<exists>f. f \<noteq> AF_UNSPEC \<and> sockaddr46_aton lib s addr = Some (f, addr')"
proof -
  have ne: "s \<noteq> []" and i: "ifindex lib s = 0"
    and c: "\<forall>c \<in> set s. c \<noteq> CHR ''%'' \<and> c \<noteq> CHR ''['' \<and> c \<noteq> CHR '']''"
    using assms(1) by (auto simp: address_text_def)
  have "hd s \<noteq> CHR ''[''" "last s \<noteq> CHR '']''" "CHR ''%'' \<notin> set s"
    using c ne hd_in_set [OF ne] last_in_set [OF ne] by metis+
  with ne have p: "inet_atonz_p lib s True True = Some (try_pton lib True True s, 0)"
    by (simp add: inet_atonz_p_def)
  show ?thesis
    using assms(2) i
    by (auto simp: sockaddr46_aton_def inet_atonz64i_def inet_atonz64_def p try_pton_def address_of_def Let_def
        IN6_SET_ADDR_V4MAPPED_def split: option.splits)
qed

lemma init_advertisement:
  assumes "address_text lib s" and "address_of lib s (h_addr self) = Some addr" and "w_ok w (w_tick w)"
  shows "LeelenHost_init lib (LEELEN_DISCOVERY_FORMAT s type desc) (Some src) self w =
    Some (0, self\<lparr>h_addr := addr\<lparr>sa_port := 0\<rparr>, h_src := src, h_desc := Some desc, h_type := type\<rparr>, step w)"
proof -
  let ?r = "LEELEN_DISCOVERY_FORMAT s type desc"
  have s: "CHR ''?'' \<notin> set s" "length s < SOCKADDR_STRLEN"
    using assms(1) by (auto simp: address_text_def SOCKADDR_STRLEN_def)
  then have b: "before_chr CHR ''?'' ?r = s" "after_chr CHR ''?'' ?r = Some (showd (unat type) @ ''*'' @ desc)"
    using before_chr_append after_chr_append by (simp_all add: LEELEN_DISCOVERY_FORMAT_def)
  obtain f where f: "f \<noteq> AF_UNSPEC" "sockaddr46_aton lib s (h_addr self) = Some (f, addr)"
    using aton_text [OF assms(1,2)] by blast
  have "take (length s) ?r = s" by (simp add: LEELEN_DISCOVERY_FORMAT_def)
  then have host: "host_address lib ?r (Some src) (self\<lparr>h_desc := None\<rparr>) =
      Some (0, self\<lparr>h_desc := None, h_addr := addr\<lparr>sa_port := 0\<rparr>\<rparr>)"
    using s f b by (simp add: host_address_def is_advertisement_after)
  have "unat type < 256" using unsigned_less [of type, where ?'a = nat] by simp
  then have "int (unat type) \<le> int 255" by (simp only: of_nat_le_iff)
  also have "\<dots> \<le> LONG_MAX" by (simp add: LONG_MAX_def)
  finally have "int (unat type) \<le> LONG_MAX" .
  from strtol_showd [OF this, of "''*'' @ desc"]
  have n: "strtol (showd (unat type) @ ''*'' @ desc) = (int (unat type), ''*'' @ desc)" by simp
  have "after_chr CHR ''*'' (''*'' @ desc) = Some desc" by (simp add: after_chr_def)
  with n host b assms(3) show ?thesis
    by (simp add: LeelenHost_init_def sys_def Let_def)
qed

lemma number_str_requests:
  assumes "valid_number n"
  shows "number_bytes n ! 0 \<noteq> NUL" and "rd (number_bytes n) 0 9 = rd (number_str n) 0 9"
    and "\<not> Leelen_discovery_is_advertisement (number_str n)"
proof -
  have d: "digits4 (n_block n)" "digits4 (n_room n)" "n_sep1 n = CHR ''-''"
    using assms by (simp_all add: valid_number_def)
  then obtain c cs where c: "n_block n = c # cs" "isdigit c" by (cases "n_block n") (auto simp: digits4_def)
  then show "number_bytes n ! 0 \<noteq> NUL" by (simp add: number_bytes_def)
  note str = number_str_valid [OF assms]
  have prefix: "take 9 (n_block n @ [n_sep1 n] @ n_room n @ xs) = n_block n @ [n_sep1 n] @ n_room n" for xs
    using d by (simp add: digits4_def)
  have "rd (n_block n @ [n_sep1 n] @ n_room n @ xs) 0 9 = n_block n @ [n_sep1 n] @ n_room n" for xs
    using rd_append [of "n_block n @ [n_sep1 n] @ n_room n" xs] d by (simp add: digits4_def)
  from this [of "[]"] this [of "[CHR ''-'', n_extension n]"] this [of "[n_sep2 n, n_extension n, n_sep3 n]"]
  show "rd (number_bytes n) 0 9 = rd (number_str n) 0 9"
    by (simp add: str number_bytes_def d(3))
  have no: "CHR ''?'' \<notin> set xs" if "\<forall>x \<in> set xs. isdigit x" for xs
    using that not_isdigit_marks(1) by blast
  have "CHR ''?'' \<notin> set (n_block n)" "CHR ''?'' \<notin> set (n_room n)"
    using no d(1,2) unfolding digits4_def by blast+
  moreover have "n_sep2 n \<noteq> NUL \<Longrightarrow> CHR ''?'' \<noteq> n_extension n"
    using assms not_isdigit_marks(1) unfolding valid_number_def by metis
  ultimately show "\<not> Leelen_discovery_is_advertisement (number_str n)"
    by (simp add: str Leelen_discovery_is_advertisement_def)
qed

section \<open>Properties\<close>


definition fixed_config :: LeelenConfig where
  "fixed_config = sample_config\<lparr>c_number := sample_base, c_desc := Some ''door'',
     c_addr := sockaddr_zero\<lparr>sa_family := AF_INET, sin_addr := 16777226\<rparr>\<rparr>"

definition text_lib :: inet_lib where
  "text_lib = \<lparr>pton4 = (\<lambda>s. if s = ''10.0.0.1'' then Some 16777226 else None), pton6 = (\<lambda>_. None), ifindex = (\<lambda>_. 0)\<rparr>"


end
