(* ===== verification/Socket.thy ===== *)
theory Socket
  imports Address World
begin

text \<open>
  \<^verbatim>\<open>inet46i/socket46.h\<close> and \<^verbatim>\<open>inet46i/socket46.c\<close>: opening a socket.

  A system call draws its success from the world; the descriptor of a new socket is a number that
  the world chooses. \<open>- 1\<close> is an error, after which the descriptor is closed.
\<close>

definition OPENADDR_REUSEADDR :: u32 where "OPENADDR_REUSEADDR = 1"
definition OPENADDR_REUSEPORT :: u32 where "OPENADDR_REUSEPORT = 2"
definition OPENADDR_V6ONLY :: u32 where "OPENADDR_V6ONLY = 4"

definition sys_socket :: "'p world \<Rightarrow> int \<times> 'p world" where
  "sys_socket w =
     (let (ok, w) = sys w in
      if \<not> ok then (- 1, w)
      else let (r, w) = sys_rand w in (int (unat (take_bit 31 r)), w))"

text \<open>One \<open>setsockopt\<close>, made only when its flag is set.\<close>

definition sockopt :: "bool \<Rightarrow> 'p world \<Rightarrow> bool \<times> 'p world" where
  "sockopt wanted w = (if wanted then sys w else (True, w))"

definition openaddrz :: "sockaddr_in46 \<Rightarrow> u32 \<Rightarrow> u32 \<Rightarrow> 'p world \<Rightarrow> int \<times> 'p world" where
  "openaddrz addr flags scope w =
     (let (fd, w) = sys_socket w in
      if \<not> 0 \<le> fd then (- 1, w)
      else let (ok, w) = sockopt (flags AND OPENADDR_REUSEADDR \<noteq> 0) w in
        if \<not> ok then (- 1, w)
        else let (ok, w) = sockopt (flags AND OPENADDR_REUSEPORT \<noteq> 0) w in
          if \<not> ok then (- 1, w)
          else let (ok, w) = sockopt (flags AND OPENADDR_V6ONLY \<noteq> 0) w in
            if \<not> ok then (- 1, w)
            else let (ok, w) = sockopt (scope \<noteq> 0) w in
              if \<not> ok then (- 1, w)
              else let (ok, w) = sockopt (scope \<noteq> 0) w in
                if \<not> ok then (- 1, w)
                else let (ok, w) = sys w in if \<not> ok then (- 1, w) else (fd, w))"

definition openaddr :: "sockaddr_in46 \<Rightarrow> u32 \<Rightarrow> 'p world \<Rightarrow> int \<times> 'p world" where
  "openaddr addr flags w =
     openaddrz addr flags (if sa_family addr = AF_INET6 then sa_scope_id addr else 0) w"

definition openaddr46 :: "sockaddr_in46 \<Rightarrow> u32 \<Rightarrow> 'p world \<Rightarrow> int \<times> 'p world" where
  "openaddr46 addr flags w = openaddrz addr flags (sa_scope_id addr) w"

section \<open>Lemmas\<close>

lemma sys_rand_env [world, simp]: "sys_rand w = (w_rnd w (w_tick w), step w)"
  by (simp add: sys_rand_def)

lemma sys_socket_env [world]:
  "sys_socket w = (fd, w') \<Longrightarrow> same_env w w' \<and> w_sent w' = w_sent w \<and> (0 \<le> fd \<or> fd = - 1)"
  by (auto simp: sys_socket_def sys_def same_env_def Let_def split: if_splits)

lemma sockopt_env [world]: "sockopt b w = (ok, w') \<Longrightarrow> same_env w w' \<and> w_sent w' = w_sent w"
  by (auto simp: sockopt_def sys_def same_env_def split: if_splits)

lemma sockopt_ok: "\<forall>i. w_ok w i \<Longrightarrow> fst (sockopt b w)"
  by (simp add: sockopt_def sys_def)

lemma openaddrz_env [world]:
  assumes "openaddrz addr flags scope w = (fd, w')"
  shows "same_env w w' \<and> w_sent w' = w_sent w \<and> (0 \<le> fd \<or> fd = - 1)"
  using assms
  by (auto simp: openaddrz_def sys_def Let_def dest!: sys_socket_env sockopt_env split: if_splits prod.splits)
    (auto simp: same_env_def)

lemma openaddr46_env [world]:
  "openaddr46 addr flags w = (fd, w') \<Longrightarrow> same_env w w' \<and> w_sent w' = w_sent w \<and> (0 \<le> fd \<or> fd = - 1)"
  by (auto simp: openaddr46_def dest: openaddrz_env)

lemma openaddr46_ok:
  assumes "\<forall>i. w_ok w i" and "openaddr46 addr flags w = (fd, w')"
  shows "0 \<le> fd"
proof -
  from assms(1) have "w_ok w = (\<lambda>_. True)" by blast
  then show ?thesis
    using assms(2)
    by (auto simp: openaddr46_def openaddrz_def sys_socket_def sockopt_def sys_def Let_def split: if_splits)
qed

end
