(* ===== verification/Sync.thy ===== *)
theory Sync
  imports World
begin

text \<open>
  \<^verbatim>\<open>utils/refcount.h\<close>, \<^verbatim>\<open>utils/refcount.c\<close>, \<^verbatim>\<open>utils/single.h\<close> and
  \<^verbatim>\<open>utils/single.c\<close>: reference counters and the flag that keeps a daemon single.

  The functions are atomic operations on a counter and on a flag. How they interleave is a
  step relation over the threads that call them: \<open>ref_step\<close> for the owners of an object,
  \<open>single_step\<close> for the callers of \<open>single_start\<close>, \<open>single_stop\<close> and the daemons. Each step is
  one atomic access of the source.
\<close>

section \<open>Reference counters\<close>

definition refcount_should_free :: "u32 \<Rightarrow> bool \<times> u32" where
  "refcount_should_free counter = (if counter = 0 then (True, 1) else (False, counter))"

definition refcount_dec :: "u32 \<Rightarrow> bool \<times> u32" where
  "refcount_dec counter =
     (let counter = counter - 1
      in if counter = 0 then refcount_should_free counter else (False, counter))"

definition refcount_inc_overflow :: int where
  "refcount_inc_overflow = 1"

definition refcount_inc :: "u32 \<Rightarrow> int \<times> u32" where
  "refcount_inc counter =
     (let counter = counter + 1 in (if 0 < counter then 0 else refcount_inc_overflow, counter))"

text \<open>An owner holds a reference, or has decremented the counter to 0 and will try to free,
  or is done, with or without having freed the object.\<close>

datatype owner = Holding | SawZero | Freed | Released

definition how_many :: "owner \<Rightarrow> owner list \<Rightarrow> nat" where
  "how_many o0 os = length (filter (\<lambda>x. x = o0) os)"

inductive ref_step :: "u32 \<times> owner list \<Rightarrow> nat \<Rightarrow> u32 \<times> owner list \<Rightarrow> bool" where
  inc: "os ! i = Holding \<Longrightarrow> i < length os \<Longrightarrow> refcount_inc c = (0, c') \<Longrightarrow>
    ref_step (c, os) i (c', os @ [Holding])"
| dec_zero: "os ! i = Holding \<Longrightarrow> i < length os \<Longrightarrow> c - 1 = 0 \<Longrightarrow>
    ref_step (c, os) i (c - 1, os[i := SawZero])"
| dec: "os ! i = Holding \<Longrightarrow> i < length os \<Longrightarrow> c - 1 \<noteq> 0 \<Longrightarrow>
    ref_step (c, os) i (c - 1, os[i := Released])"
| free: "os ! i = SawZero \<Longrightarrow> i < length os \<Longrightarrow> refcount_should_free c = (True, c') \<Longrightarrow>
    ref_step (c, os) i (c', os[i := Freed])"
| keep: "os ! i = SawZero \<Longrightarrow> i < length os \<Longrightarrow> refcount_should_free c = (False, c') \<Longrightarrow>
    ref_step (c, os) i (c', os[i := Released])"

inductive_cases ref_stepE: "ref_step s i s'"

definition ref_initial :: "u32 \<times> owner list \<Rightarrow> bool" where
  "ref_initial = (\<lambda>(c, os). c = 1 \<and> os = [Holding])"

definition ref_inv :: "u32 \<times> owner list \<Rightarrow> bool" where
  "ref_inv = (\<lambda>(c, os).
     how_many Freed os = 0 \<and> how_many SawZero os = 0 \<and> 0 < how_many Holding os \<and>
       unat c = how_many Holding os \<or>
     how_many Freed os = 0 \<and> how_many SawZero os = 1 \<and> how_many Holding os = 0 \<and> c = 0 \<or>
     how_many Freed os = 1 \<and> how_many SawZero os = 0 \<and> how_many Holding os = 0)"

lemma how_many_simps [simp]:
  "how_many p (os @ [q]) = how_many p os + (if q = p then 1 else 0)"
  "how_many p [] = 0" "how_many p (q # os) = (if q = p then 1 else 0) + how_many p os"
  by (simp_all add: how_many_def)

lemma how_many_update:
  "i < length os \<Longrightarrow> how_many p (os[i := q]) + (if os ! i = p then 1 else 0) =
    how_many p os + (if q = p then 1 else 0)"
proof (induction os arbitrary: i)
  case (Cons a os)
  then show ?case by (cases i) auto
qed simp

lemma how_many_pos: "i < length os \<Longrightarrow> os ! i = p \<Longrightarrow> 0 < how_many p os"
  using how_many_update [of i os p p] by (auto simp: how_many_def filter_empty_conv in_set_conv_nth)

lemma how_many_move:
  assumes "i < length os" and "os ! i = p" and "q \<noteq> p"
  shows "how_many p (os[i := q]) = how_many p os - 1" and "how_many q (os[i := q]) = how_many q os + 1"
    and "r \<noteq> p \<Longrightarrow> r \<noteq> q \<Longrightarrow> how_many r (os[i := q]) = how_many r os"
  using how_many_update [OF assms(1), of p q] how_many_update [OF assms(1), of q q]
    how_many_update [OF assms(1), of r q] assms(2,3)
  by auto

lemma unat_minus_one_owner: "unat (c :: u32) = Suc n \<Longrightarrow> unat (c - 1) = n"
  by (metis Suc_inject nat.distinct(1) unat_eq_0 unat_minus_one Suc_pred' add.commute plus_1_eq_Suc
      diff_Suc_1)

interpretation refcount: invariant_system ref_initial ref_step ref_inv
proof unfold_locales
  show "ref_initial s \<Longrightarrow> ref_inv s" for s
    by (cases s) (auto simp: ref_initial_def ref_inv_def)
next
  fix s i s' assume inv: "ref_inv s" and st: "ref_step s i s'"
  show "ref_inv s'"
    using st
  proof (cases rule: ref_step.cases)
    case (inc os c c')
    then have "0 < how_many Holding os" by (simp add: how_many_pos)
    with inv inc have h: "how_many Freed os = 0" "how_many SawZero os = 0" "unat c = how_many Holding os"
      by (auto simp: ref_inv_def)
    have "c' = c + 1" "0 < c + 1"
      using inc by (auto simp: refcount_inc_def refcount_inc_overflow_def Let_def split: if_splits)
    then have "unat c' = Suc (unat c)"
      by (metis Suc_eq_plus1 add.commute less_irrefl unatSuc)
    with h inc show ?thesis by (simp add: ref_inv_def)
  next
    case (dec_zero os c)
    note m = how_many_move [OF dec_zero(4,3), of SawZero]
    have "0 < how_many Holding os" using dec_zero by (simp add: how_many_pos)
    moreover have "c = 1" using dec_zero by (metis eq_iff_diff_eq_0)
    ultimately have "how_many Holding os = 1" "how_many Freed os = 0" "how_many SawZero os = 0"
      using inv dec_zero by (auto simp: ref_inv_def)
    with m(1,2) m(3) [of Freed] dec_zero show ?thesis by (simp add: ref_inv_def)
  next
    case (dec os c)
    note m = how_many_move [OF dec(4,3), of Released]
    have p: "0 < how_many Holding os" using dec by (simp add: how_many_pos)
    with inv dec have h: "how_many Freed os = 0" "how_many SawZero os = 0" "unat c = how_many Holding os"
      by (auto simp: ref_inv_def)
    from p obtain n where n: "how_many Holding os = Suc n" by (cases "how_many Holding os") auto
    with h have u: "unat (c - 1) = n" by (intro unat_minus_one_owner) simp
    with dec have "0 < n" by (metis gr0I unat_eq_0)
    with h n u m(1) m(3) [of Freed] m(3) [of SawZero] dec show ?thesis by (simp add: ref_inv_def)
  next
    case (free os c c')
    note m = how_many_move [OF free(4,3), of Freed]
    have "0 < how_many SawZero os" using free by (simp add: how_many_pos)
    with inv free have "how_many SawZero os = 1" "how_many Freed os = 0" "how_many Holding os = 0"
      by (auto simp: ref_inv_def)
    with m(1,2) m(3) [of Holding] free show ?thesis by (simp add: ref_inv_def)
  next
    case (keep os c c')
    have "0 < how_many SawZero os" using keep by (simp add: how_many_pos)
    with inv keep have "c = 0" by (auto simp: ref_inv_def)
    with keep show ?thesis by (simp add: refcount_should_free_def)
  qed
qed

section \<open>The flag of a daemon\<close>

definition SINGLE_STOPPING :: int where "SINGLE_STOPPING = - 1"
definition SINGLE_STOPPED :: int where "SINGLE_STOPPED = 0"
definition SINGLE_RUNNING :: int where "SINGLE_RUNNING = 1"
definition SINGLE_FLAG_INIT :: int where "SINGLE_FLAG_INIT = 0"

lemmas single_flags = SINGLE_STOPPING_def SINGLE_STOPPED_def SINGLE_RUNNING_def SINGLE_FLAG_INIT_def

definition single_still_running :: "int \<Rightarrow> bool" where
  "single_still_running flag \<longleftrightarrow> flag \<noteq> 0"

definition single_is_running :: "int \<Rightarrow> bool" where
  "single_is_running flag \<longleftrightarrow> 0 < flag"

definition single_finish :: "int \<Rightarrow> int" where
  "single_finish flag = SINGLE_STOPPED"

definition single_continue :: "int \<Rightarrow> bool \<times> int" where
  "single_continue flag = (if single_is_running flag then (True, flag) else (False, single_finish flag))"

definition single_stop :: "int \<Rightarrow> int" where
  "single_stop flag = (if flag = SINGLE_RUNNING then SINGLE_STOPPING else flag)"

text \<open>One round of the loop of \<open>single_acquire\<close>: \<open>None\<close> is the wait for a stopping daemon.\<close>

definition acquire_round :: "int \<Rightarrow> bool option \<times> int" where
  "acquire_round flag =
     (if flag = SINGLE_STOPPED then (Some True, SINGLE_RUNNING)
      else if single_is_running flag then (Some False, flag)
      else (None, flag))"

text \<open>\<open>single_acquire\<close> against a daemon that leaves the flag as \<open>seen\<close> says, round by round.
  \<open>None\<close>: the rounds are used up while it waits.\<close>

fun single_acquire :: "int list \<Rightarrow> (bool \<times> int) option" where
  "single_acquire [] = None"
| "single_acquire (flag # seen) =
     (case acquire_round flag of
        (Some b, flag') \<Rightarrow> Some (b, flag')
      | (None, _) \<Rightarrow> single_acquire seen)"

text \<open>\<open>_single_join\<close> returns at the first value 0; \<open>single_join\<close> calls it only for a positive
  flag. \<open>None\<close>: it still waits at the end of the values seen.\<close>

fun join_loop :: "int list \<Rightarrow> nat option" where
  "join_loop [] = None"
| "join_loop (flag # seen) = (if single_still_running flag then map_option Suc (join_loop seen) else Some 0)"

definition single_join :: "int \<Rightarrow> int list \<Rightarrow> nat option" where
  "single_join flag seen = (if single_is_running flag then join_loop seen else Some 0)"

definition single_run :: "int \<Rightarrow> bool" where
  "single_run flag \<longleftrightarrow> fst (acquire_round flag) = Some True"

text \<open>The system: the flag, the callers that have acquired it and are about to create the thread,
  and the daemons that run. \<open>create\<close> and \<open>create_fails\<close> end \<open>single_start\<close>; \<open>leave\<close> is a daemon
  whose \<open>single_continue\<close> returns false, \<open>finish\<close> one that ends by itself with \<open>single_finish\<close>.\<close>

datatype single_op = Acquire | Create | CreateFails | Stop | Continue | Leave | Finish

inductive single_step :: "int \<times> nat \<times> nat \<Rightarrow> single_op \<Rightarrow> int \<times> nat \<times> nat \<Rightarrow> bool" where
  acquire: "acquire_round flag = (Some True, flag') \<Longrightarrow>
    single_step (flag, starting, running) Acquire (flag', Suc starting, running)"
| create: "single_step (flag, Suc starting, running) Create (flag, starting, Suc running)"
| create_fails: "single_step (flag, Suc starting, running) CreateFails (single_finish flag, starting, running)"
| stop: "single_step (flag, starting, running) Stop (single_stop flag, starting, running)"
| continue: "single_continue flag = (True, flag') \<Longrightarrow>
    single_step (flag, starting, Suc running) Continue (flag', starting, Suc running)"
| leave: "single_continue flag = (False, flag') \<Longrightarrow>
    single_step (flag, starting, Suc running) Leave (flag', starting, running)"
| finish: "single_step (flag, starting, Suc running) Finish (single_finish flag, starting, running)"

inductive_cases single_stepE: "single_step s l s'"

definition single_initial :: "int \<times> nat \<times> nat \<Rightarrow> bool" where
  "single_initial s \<longleftrightarrow> s = (SINGLE_FLAG_INIT, 0, 0)"

definition single_inv :: "int \<times> nat \<times> nat \<Rightarrow> bool" where
  "single_inv = (\<lambda>(flag, starting, running).
     (flag = SINGLE_STOPPED \<and> starting + running = 0) \<or>
     ((flag = SINGLE_RUNNING \<or> flag = SINGLE_STOPPING) \<and> starting + running = 1))"

interpretation single: invariant_system single_initial single_step single_inv
proof unfold_locales
  show "single_initial s \<Longrightarrow> single_inv s" for s
    by (simp add: single_initial_def single_inv_def single_flags)
next
  fix s l s' assume "single_inv s" and "single_step s l s'"
  then show "single_inv s'"
    by (auto elim!: single_stepE
        simp: single_inv_def acquire_round_def single_is_running_def single_finish_def single_stop_def
          single_continue_def single_flags split: if_splits)
qed

section \<open>Properties\<close>





text \<open>\<open>single_join\<close> does not wait for a daemon that was told to stop: \<open>single_stop\<close> leaves the flag
  negative, and \<open>single_join\<close> returns at once, in a state in which the daemon still runs. Joining
  without stopping does wait until the flag is 0.\<close>

theorem single_join_after_stop:
  "\<exists>flag. reach single_initial single_step (flag, 0, 1) \<and>
    flag = single_stop SINGLE_RUNNING \<and> single_join flag seen = Some 0 \<and>
    (\<forall>k. single_join SINGLE_RUNNING (replicate k SINGLE_STOPPING) = None)"
proof -
  have "reach single_initial single_step (0, 0, 0)"
    by (rule reach.start) (simp add: single_initial_def single_flags)
  moreover have "single_step (0, 0, 0) Acquire (1, Suc 0, 0)"
    by (rule acquire) (simp add: acquire_round_def single_flags)
  moreover have "single_step (1, Suc 0, 0) Create (1, 0, Suc 0)"
    by (rule create)
  moreover have "single_step (1, 0, Suc 0) Stop (single_stop 1, 0, Suc 0)"
    by (rule stop)
  ultimately have "reach single_initial single_step (single_stop 1, 0, 1)"
    by (simp, meson reach.run)
  moreover have "join_loop (replicate k (- 1)) = None" for k
    by (induction k) (simp_all add: single_still_running_def)
  ultimately show ?thesis
    by (intro exI [of _ "single_stop 1"])
      (simp add: single_join_def single_stop_def single_is_running_def single_flags)
qed

end
