(* ===== verification/Discovery.thy ===== *)
theory Discovery
  imports Advertiser Socket Sync
begin

text \<open>
  \<^verbatim>\<open>leelen/discovery/discovery.h\<close> and \<^verbatim>\<open>leelen/discovery/discovery.c\<close>: the discovery daemon, which
  answers the discoveries of others and waits for the answers to our own.

  The structure includes its advertiser and shares the configuration, which is an argument. The daemon
  runs in rounds: what \<open>poll\<close> returns, which entries it marks, and what arrives at a descriptor. The
  mutex and the condition are the order of the rounds: a caller of \<open>LeelenDiscovery_discovery\<close> sends, and the rounds
  that the daemon makes until the caller wakes up are an argument. \<open>daemon_stack\<close> is what the local variables of
  the daemon hold before they are set: an entry of \<open>pollfds\<close> that was not filled in, the local address of a
  packet that brings none, and the memory behind it. \<open>None\<close> is a use of memory outside of an object, or a
  wait that the values seen do not end.
\<close>

section \<open>State\<close>

record LeelenDiscovery =
  y_adv :: LeelenAdvertiser
  y_state :: int
  y_spec_sockfd :: int
  y_sockfd :: int
  y_sockfd6 :: int
  y_timeout :: u32
  y_port :: u16
  y_addr :: sockaddr_in46
  y_host :: LeelenHost
  y_initres :: int

record daemon_stack =
  k_pollfds :: "nat \<Rightarrow> int \<times> bool"
  k_recv_dst :: u32
  k_behind :: pointed
  k_dst :: sockaddr_in46

record poll_round =
  v_pollres :: int
  v_revents :: "nat \<Rightarrow> bool"
  v_arrival :: "int \<Rightarrow> arrival option"

text \<open>The libraries that the daemon calls, and the configuration.\<close>

record discovery_env =
  e_config :: LeelenConfig
  e_inet :: inet_lib
  e_print :: print_lib
  e_regexec :: regex
  e_stack :: daemon_stack

section \<open>Discovering\<close>

definition discovery_send :: "sockaddr_in46 \<Rightarrow> LeelenDiscovery \<Rightarrow> char list \<Rightarrow> net \<Rightarrow> int \<times> net" where
  "discovery_send junk self phone w =
     (if 0 \<le> y_spec_sockfd self then
        LeelenHost__discovery junk (sa_family (y_addr self)) (y_spec_sockfd self) (y_port self) phone w
      else
        let (res, w) = (if y_sockfd6 self < 0 then (255, w)
                        else LeelenHost__discovery junk AF_INET6 (y_sockfd6 self) (y_port self) phone w)
        in if 0 \<le> y_sockfd self then
             (let (res4, w) = LeelenHost__discovery junk AF_INET (y_sockfd self) (y_port self) phone w
              in (if res \<noteq> 0 then res4 else res, w))
           else (res, w))"

section \<open>The daemon\<close>

definition has_spec :: "LeelenDiscovery \<Rightarrow> bool" where
  "has_spec self \<longleftrightarrow> 0 \<le> y_spec_sockfd self"

text \<open>The array \<open>pollfds\<close>, and what its entry \<open>i\<close> holds after \<open>poll\<close>: the source looks at the first two entries
  whatever their number.\<close>

definition poll_fds :: "LeelenDiscovery \<Rightarrow> int list" where
  "poll_fds self = filter (\<lambda>fd. 0 \<le> fd) [y_spec_sockfd self, y_sockfd self, y_sockfd6 self]"

definition poll_entry :: "daemon_stack \<Rightarrow> LeelenDiscovery \<Rightarrow> poll_round \<Rightarrow> nat \<Rightarrow> int \<times> bool" where
  "poll_entry stack self e i =
     (if i < length (poll_fds self) then (poll_fds self ! i, v_revents e i) else k_pollfds stack i)"

definition take_advertisement ::
  "discovery_env \<Rightarrow> nat \<Rightarrow> char list \<Rightarrow> sockaddr_in46 \<Rightarrow> LeelenDiscovery \<Rightarrow> net \<Rightarrow> (LeelenDiscovery \<times> net) option" where
  "take_advertisement env i buf src self w =
     (if 8 < y_initres self \<and> \<not> (has_spec self \<and> i \<noteq> 0) then
        (case LeelenHost_init (e_inet env) buf (Some src) (y_host self) w of
           None \<Rightarrow> None
         | Some (res, host, w) \<Rightarrow> Some (self\<lparr>y_host := host, y_initres := res\<rparr>, w))
      else Some (self, w))"

definition discovery_packet ::
  "discovery_env \<Rightarrow> nat \<Rightarrow> int \<Rightarrow> arrival option \<Rightarrow> LeelenDiscovery \<Rightarrow> net \<Rightarrow> (LeelenDiscovery \<times> net) option" where
  "discovery_packet env i fd message self w =
     (let stack = e_stack env;
          (buflen, bytes, src, dst, recv_dst) =
            recvfromto message (unat (a_mtu (y_adv self))) (Some (k_dst stack)) (Some (k_dst stack)) (Some (k_recv_dst stack))
      in if buflen \<le> 0 then Some (self, w)
         else
           let buf = cstr bytes;
               is_advertisement = Leelen_discovery_is_advertisement buf;
               should_reply = (\<not> is_advertisement \<and> LeelenAdvertiser_should_reply (e_regexec env) (e_config env) (y_adv self) buf)
           in if is_advertisement then take_advertisement env i buf (the src) self w
              else if should_reply then
                map_option (\<lambda>(_, w). (self, w))
                  (LeelenAdvertiser_reply (e_print env) (e_config env) (y_adv self) fd (the src)
                    (Some (In6 (the recv_dst) (s6_0 (fst (k_behind stack))) (s6_1 (fst (k_behind stack))) (s6_2 (fst (k_behind stack))),
                           snd (k_behind stack))) w)
              else Some (self, w))"

fun discovery_packets ::
  "discovery_env \<Rightarrow> nat list \<Rightarrow> poll_round \<Rightarrow> LeelenDiscovery \<Rightarrow> net \<Rightarrow> (LeelenDiscovery \<times> net) option" where
  "discovery_packets env [] e self w = Some (self, w)"
| "discovery_packets env (i # is) e self w =
     (let (fd, revents) = poll_entry (e_stack env) self e i in
      if \<not> revents then discovery_packets env is e self w
      else case discovery_packet env i fd (v_arrival e fd) self w of
             None \<Rightarrow> None
           | Some (self, w) \<Rightarrow> discovery_packets env is e self w)"

text \<open>The rounds of the daemon, until the flag stops it or the rounds end.\<close>

fun LeelenDiscovery_mainloop ::
  "discovery_env \<Rightarrow> poll_round list \<Rightarrow> LeelenDiscovery \<Rightarrow> net \<Rightarrow> (LeelenDiscovery \<times> net) option" where
  "LeelenDiscovery_mainloop env [] self w = Some (self, w)"
| "LeelenDiscovery_mainloop env (e # es) self w =
     (let (go_on, flag) = single_continue (y_state self); self = self\<lparr>y_state := flag\<rparr> in
      if \<not> go_on then Some (self, w)
      else if v_pollres e \<le> 0 then LeelenDiscovery_mainloop env es self w
      else case discovery_packets env [0, 1] e self w of
             None \<Rightarrow> None
           | Some (self, w) \<Rightarrow> LeelenDiscovery_mainloop env es self w)"

text \<open>The result, and the host when the wait was over.\<close>

definition LeelenDiscovery_discovery ::
  "discovery_env \<Rightarrow> poll_round list \<Rightarrow> char list \<Rightarrow> LeelenDiscovery \<Rightarrow> net \<Rightarrow>
   (int \<times> LeelenHost option \<times> LeelenDiscovery \<times> net) option" where
  "LeelenDiscovery_discovery env rounds phone self w =
     (if \<not> single_is_running (y_state self) then Some (255, None, self, w)
      else
        let self = self\<lparr>y_initres := 254\<rparr>;
            (res, w) = discovery_send (k_dst (e_stack env)) self phone w
        in if res \<noteq> 0 then Some (res, None, self, w)
           else case LeelenDiscovery_mainloop env rounds self w of
                  None \<Rightarrow> None
                | Some (self, w) \<Rightarrow> Some (y_initres self, Some (y_host self), self, w))"

section \<open>Starting and stopping\<close>

text \<open>\<open>single_start\<close> of \<^verbatim>\<open>utils/single.c\<close>: the result, the flag, and whether a thread was created.\<close>

definition single_start :: "int \<Rightarrow> int list \<Rightarrow> 'p world \<Rightarrow> (int \<times> int \<times> bool \<times> 'p world) option" where
  "single_start flag seen w =
     (case single_acquire (flag # seen) of
        None \<Rightarrow> None
      | Some (False, flag) \<Rightarrow> Some (0, flag, False, w)
      | Some (True, flag) \<Rightarrow>
          (let (ok, w) = sys w in
           if ok then Some (0, flag, True, w) else Some (- 1, single_finish flag, False, w)))"

definition LeelenDiscovery_run ::
  "discovery_env \<Rightarrow> int list \<Rightarrow> poll_round list \<Rightarrow> LeelenDiscovery \<Rightarrow> net \<Rightarrow> (int \<times> LeelenDiscovery \<times> net) option" where
  "LeelenDiscovery_run env seen rounds self w =
     (if \<not> (0 \<le> y_sockfd self \<or> 0 \<le> y_sockfd6 self) then Some (255, self, w)
      else case single_acquire (y_state self # seen) of
             None \<Rightarrow> None
           | Some (False, flag) \<Rightarrow> Some (- 1, self, w)
           | Some (True, flag) \<Rightarrow>
               map_option (\<lambda>(self, w). (0, self, w)) (LeelenDiscovery_mainloop env rounds (self\<lparr>y_state := flag\<rparr>) w))"

definition LeelenDiscovery_start ::
  "int list \<Rightarrow> LeelenDiscovery \<Rightarrow> 'p world \<Rightarrow> (int \<times> LeelenDiscovery \<times> bool \<times> 'p world) option" where
  "LeelenDiscovery_start seen self w =
     (if \<not> (0 \<le> y_sockfd self \<or> 0 \<le> y_sockfd6 self) then Some (255, self, False, w)
      else map_option (\<lambda>(r, flag, created, w). (r, self\<lparr>y_state := flag\<rparr>, created, w))
             (single_start (y_state self) seen w))"

definition LeelenDiscovery_stop :: "LeelenDiscovery \<Rightarrow> LeelenDiscovery" where
  "LeelenDiscovery_stop self = self\<lparr>y_state := single_stop (y_state self)\<rparr>"

text \<open>\<open>setsockopt\<close> on a descriptor; on \<open>- 1\<close> it fails.\<close>

definition sockopt_fd :: "int \<Rightarrow> 'p world \<Rightarrow> bool \<times> 'p world" where
  "sockopt_fd fd w = (if fd < 0 then (False, step w) else sys w)"

definition listen_v6 :: "LeelenDiscovery \<Rightarrow> bool" where
  "listen_v6 self \<longleftrightarrow> sa_family (y_addr self) = AF_INET6"

definition listen_v4 :: "LeelenDiscovery \<Rightarrow> bool" where
  "listen_v4 self \<longleftrightarrow> sa_family (y_addr self) \<noteq> AF_INET6 \<or> IN6_IS_ADDR_UNSPECIFIED (sin6_addr (y_addr self))"

definition wants_spec :: "LeelenDiscovery \<Rightarrow> bool" where
  "wants_spec self \<longleftrightarrow>
     (if sa_family (y_addr self) = AF_INET6 then \<not> IN6_IS_ADDR_UNSPECIFIED (sin6_addr (y_addr self))
      else sin_addr (y_addr self) \<noteq> 0)"

definition local_addr :: "af \<Rightarrow> LeelenDiscovery \<Rightarrow> sockaddr_in46" where
  "local_addr f self =
     sockaddr_zero\<lparr>sa_family := f, sa_scope_id := sa_scope_id (y_addr self), sa_port := sa_port (y_addr self)\<rparr>"

text \<open>The three parts of \<open>LeelenDiscovery_connect\<close>; \<open>Inl\<close> is an early return.\<close>

definition connect_v6 :: "LeelenDiscovery \<Rightarrow> 'p world \<Rightarrow> (int \<times> LeelenDiscovery \<times> 'p world) + (LeelenDiscovery \<times> 'p world)" where
  "connect_v6 self w =
     (if \<not> (listen_v6 self \<and> y_sockfd6 self < 0) then Inr (self, w)
      else
        let (fd, w) = openaddr46 (local_addr AF_INET6 self) (OPENADDR_REUSEADDR OR OPENADDR_V6ONLY) w;
            self = self\<lparr>y_sockfd6 := fd\<rparr>
        in if \<not> 0 \<le> fd \<and> \<not> listen_v4 self then Inl (- 1, self, w)
           else let (ok, w) = sockopt_fd fd w in
             if ok then Inr (self, w) else Inl (- 1, self\<lparr>y_sockfd6 := - 1\<rparr>, w))"

definition connect_v4 :: "LeelenDiscovery \<Rightarrow> 'p world \<Rightarrow> (int \<times> LeelenDiscovery \<times> 'p world) + (LeelenDiscovery \<times> 'p world)" where
  "connect_v4 self w =
     (if \<not> (listen_v4 self \<and> y_sockfd self < 0) then Inr (self, w)
      else
        let (fd, w) = openaddr46 (local_addr AF_INET self) OPENADDR_REUSEADDR w;
            self = self\<lparr>y_sockfd := fd\<rparr>
        in if \<not> 0 \<le> fd then Inl (- 1, self, w)
           else let (ok, w) = sockopt_fd fd w in
             if ok then Inr (self, w) else Inl (- 1, self\<lparr>y_sockfd := - 1\<rparr>, w))"

definition connect_spec :: "LeelenDiscovery \<Rightarrow> 'p world \<Rightarrow> int \<times> LeelenDiscovery \<times> 'p world" where
  "connect_spec self w =
     (if wants_spec self then
        (let (fd, w) = openaddr46 (y_addr self) OPENADDR_REUSEADDR w
         in (if 0 \<le> fd then 0 else - 1, self\<lparr>y_spec_sockfd := fd\<rparr>, w))
      else (0, self, w))"

definition LeelenDiscovery_connect :: "LeelenDiscovery \<Rightarrow> 'p world \<Rightarrow> int \<times> LeelenDiscovery \<times> 'p world" where
  "LeelenDiscovery_connect self w =
     (case connect_v6 self w of
        Inl r \<Rightarrow> r
      | Inr (self, w) \<Rightarrow>
          (case connect_v4 self w of
             Inl r \<Rightarrow> r
           | Inr (self, w) \<Rightarrow> connect_spec self w))"

definition LeelenDiscovery_syncown :: "LeelenConfig \<Rightarrow> LeelenDiscovery \<Rightarrow> int \<times> LeelenDiscovery" where
  "LeelenDiscovery_syncown config self =
     (0, self\<lparr>y_port := c_discovery config, y_addr := (c_addr config)\<lparr>sa_port := htons (c_discovery_src config)\<rparr>\<rparr>)"

definition LeelenDiscovery_sync :: "print_lib \<Rightarrow> LeelenConfig \<Rightarrow> LeelenDiscovery \<Rightarrow> int \<times> LeelenDiscovery" where
  "LeelenDiscovery_sync lib config self =
     (let self = snd (LeelenDiscovery_syncown config self);
          (r, adv) = LeelenAdvertiser_sync lib config (y_adv self)
      in (r, self\<lparr>y_adv := adv\<rparr>))"

text \<open>The descriptors that are closed, and the object when the wait for the daemon is over.\<close>

definition LeelenDiscovery_destroy :: "int list \<Rightarrow> LeelenDiscovery \<Rightarrow> int list \<times> LeelenDiscovery option" where
  "LeelenDiscovery_destroy seen self =
     (let self = LeelenDiscovery_stop self in
      (filter (\<lambda>fd. 0 \<le> fd) [y_sockfd self, y_sockfd6 self],
       map_option (\<lambda>_. self\<lparr>y_adv := LeelenAdvertiser_destroy (y_adv self)\<rparr>) (single_join (y_state self) seen)))"

definition LeelenDiscovery_init ::
  "print_lib \<Rightarrow> LeelenConfig \<Rightarrow> LeelenDiscovery \<Rightarrow> 'p world \<Rightarrow> int \<times> LeelenDiscovery \<times> 'p world" where
  "LeelenDiscovery_init lib config self w =
     (let (ok, w) = sys w in
      if \<not> ok then (- 1, self, w)
      else let (ok, w) = sys w in
        if \<not> ok then (- 1, self, w)
        else
          let self = self\<lparr>y_state := SINGLE_FLAG_INIT, y_spec_sockfd := - 1, y_sockfd := - 1, y_sockfd6 := - 1,
                y_timeout := word_of_int LEELEN_DISCOVERY_TIMEOUT, y_initres := 0,
                y_adv := snd (LeelenAdvertiser_init lib config (y_adv self))\<rparr>;
              (r, self) = LeelenDiscovery_syncown config self
          in (r, self, w))"

section \<open>Lemmas\<close>

lemma reply_env:
  assumes "LeelenAdvertiser_reply lib config self fd addr ouraddr w = Some (r, w')"
  shows "same_env w w'"
  using assms
  by (auto simp: LeelenAdvertiser_reply_def Let_def dest!: sys_send_env split: if_splits option.splits prod.splits)

text \<open>A packet changes the host and the result alone, and nothing when there is a result.\<close>

lemma discovery_packet_keeps:
  assumes "discovery_packet env i fd m self w = Some (self', w')"
  shows "same_env w w' \<and> (\<exists>h r. self' = self\<lparr>y_host := h, y_initres := r\<rparr>) \<and> (y_initres self \<le> 8 \<longrightarrow> self' = self)"
proof -
  have keep: "\<exists>h r. self = self\<lparr>y_host := h, y_initres := r\<rparr>"
    by (intro exI [of _ "y_host self"] exI [of _ "y_initres self"]) simp
  have take: "take_advertisement env i buf src self w = Some (self', w') \<Longrightarrow> ?thesis" for buf src
    using keep by (auto simp: take_advertisement_def dest!: init_result split: if_splits option.splits prod.splits)
  show ?thesis
    using assms keep take by (auto simp: discovery_packet_def Let_def dest: reply_env split: if_splits prod.splits)
qed

lemma discovery_packets_keeps:
  assumes "discovery_packets env is e self w = Some (self', w')"
  shows "same_env w w' \<and> (\<exists>h r. self' = self\<lparr>y_host := h, y_initres := r\<rparr>) \<and> (y_initres self \<le> 8 \<longrightarrow> self' = self)"
  using assms
proof (induction "is" arbitrary: self w)
  case Nil
  then show ?case by (auto intro!: exI [of _ "y_host self"] exI [of _ "y_initres self"])
next
  case (Cons i "is")
  obtain fd b where entry: "poll_entry (e_stack env) self e i = (fd, b)" by (cases "poll_entry (e_stack env) self e i")
  show ?case
  proof (cases b)
    case False
    with Cons entry show ?thesis by simp
  next
    case True
    with Cons.prems entry obtain self1 w1 where p: "discovery_packet env i fd (v_arrival e fd) self w = Some (self1, w1)"
      and rest: "discovery_packets env is e self1 w1 = Some (self', w')"
      by (auto split: option.splits)
    note k = discovery_packet_keeps [OF p] and ks = Cons.IH [OF rest]
    from k obtain h r where "self1 = self\<lparr>y_host := h, y_initres := r\<rparr>" by blast
    moreover from ks obtain h' r' where "self' = self1\<lparr>y_host := h', y_initres := r'\<rparr>" by blast
    ultimately have "self' = self\<lparr>y_host := h', y_initres := r'\<rparr>" by simp
    with k ks show ?thesis by (auto intro: same_env_trans)
  qed
qed

lemma mainloop_settled:
  assumes "LeelenDiscovery_mainloop env es self w = Some (self', w')" and "y_initres self \<le> 8"
  shows "y_initres self' = y_initres self \<and> y_host self' = y_host self"
  using assms
proof (induction es arbitrary: self w)
  case (Cons e es)
  obtain go_on flag where c: "single_continue (y_state self) = (go_on, flag)" by (cases "single_continue (y_state self)")
  show ?case
  proof (cases "go_on \<and> 0 < v_pollres e")
    case False
    then show ?thesis
      using Cons.prems c Cons.IH [of "self\<lparr>y_state := flag\<rparr>" w] by (cases go_on) (auto simp: Let_def)
  next
    case True
    then obtain self1 w1 where p: "discovery_packets env [0, 1] e (self\<lparr>y_state := flag\<rparr>) w = Some (self1, w1)"
      and rest: "LeelenDiscovery_mainloop env es self1 w1 = Some (self', w')"
      using Cons.prems(1) c by (auto simp: Let_def split: option.splits simp del: discovery_packets.simps)
    from discovery_packets_keeps [OF p] Cons.prems(2) have "self1 = self\<lparr>y_state := flag\<rparr>" by simp
    with Cons.IH [OF rest] Cons.prems(2) show ?thesis by simp
  qed
qed simp

text \<open>A round that brings no advertisement.\<close>

definition quiet_round :: "discovery_env \<Rightarrow> LeelenDiscovery \<Rightarrow> poll_round \<Rightarrow> bool" where
  "quiet_round env self e \<longleftrightarrow> v_pollres e \<le> 0 \<or>
     (\<forall>i \<in> {0, 1}. case poll_entry (e_stack env) self e i of (fd, revents) \<Rightarrow> revents \<longrightarrow>
        (case v_arrival e fd of
           None \<Rightarrow> True
         | Some m \<Rightarrow> \<not> Leelen_discovery_is_advertisement (cstr (take (unat (a_mtu (y_adv self))) (r_buf m)))))"

lemma discovery_packet_quiet:
  assumes "discovery_packet env i fd m self w = Some (self', w')"
    and "case m of None \<Rightarrow> True
         | Some m \<Rightarrow> \<not> Leelen_discovery_is_advertisement (cstr (take (unat (a_mtu (y_adv self))) (r_buf m)))"
  shows "self' = self"
  using assms
  by (auto simp: discovery_packet_def recvfromto_def Let_def split: if_splits prod.splits option.splits)

lemma poll_entry_cong:
  "poll_fds self' = poll_fds self \<Longrightarrow> poll_entry stack self' e i = poll_entry stack self e i"
  by (simp add: poll_entry_def)

lemma poll_fds_update [simp]:
  "poll_fds (self\<lparr>y_state := x\<rparr>) = poll_fds self" "poll_fds (self\<lparr>y_initres := z\<rparr>) = poll_fds self"
  "poll_fds (self\<lparr>y_host := h\<rparr>) = poll_fds self"
  by (simp_all add: poll_fds_def)

lemma quiet_round_initres [simp]: "quiet_round env (self\<lparr>y_initres := r\<rparr>) e = quiet_round env self e"
proof -
  have "poll_entry stack (self\<lparr>y_initres := r\<rparr>) e i = poll_entry stack self e i" for stack i
    by (simp add: poll_entry_def)
  moreover have "y_adv (self\<lparr>y_initres := r\<rparr>) = y_adv self" by simp
  ultimately show ?thesis by (simp only: quiet_round_def)
qed

lemma host_discovery_env: "LeelenHost__discovery addr f fd port phone w = (r, w') \<Longrightarrow> same_env w w'"
  by (auto simp: LeelenHost__discovery_def Let_def dest!: sys_send_env split: if_splits option.splits prod.splits)

lemma discovery_send_env: "discovery_send junk self phone w = (r, w') \<Longrightarrow> same_env w w'"
  by (auto simp: discovery_send_def Let_def dest!: host_discovery_env split: if_splits prod.splits intro: same_env_trans)

lemma discovery_packets_quiet:
  assumes "discovery_packets env [0, 1] e self w = Some (self', w')" and "quiet_round env self e" and "0 < v_pollres e"
  shows "self' = self"
proof -
  have q: "i \<in> {0, 1} \<Longrightarrow> poll_entry (e_stack env) self e i = (fd, True) \<Longrightarrow>
      (case v_arrival e fd of None \<Rightarrow> True
       | Some m \<Rightarrow> \<not> Leelen_discovery_is_advertisement (cstr (take (unat (a_mtu (y_adv self))) (r_buf m))))" for i fd
    using assms(2,3) by (auto simp: quiet_round_def)
  have one: "\<exists>w1. discovery_packets env is e self w1 = Some (self', w')"
    if p: "discovery_packets env (i # is) e self w = Some (self', w')" and i: "i \<in> {0, 1}" for i "is" w
  proof -
    obtain fd b where entry: "poll_entry (e_stack env) self e i = (fd, b)" by (cases "poll_entry (e_stack env) self e i")
    show ?thesis
    proof (cases b)
      case False
      with p entry show ?thesis by auto
    next
      case True
      with p entry obtain self1 w1 where p1: "discovery_packet env i fd (v_arrival e fd) self w = Some (self1, w1)"
        and rest: "discovery_packets env is e self1 w1 = Some (self', w')"
        by (auto split: option.splits)
      from discovery_packet_quiet [OF p1 q [OF i]] entry True have "self1 = self" by simp
      with rest show ?thesis by blast
    qed
  qed
  from one [OF assms(1)] obtain w1 where "discovery_packets env [1] e self w1 = Some (self', w')" by blast
  from one [OF this] show ?thesis by simp
qed

lemma mainloop_quiet:
  assumes "LeelenDiscovery_mainloop env (quiet @ es) self w = Some (self', w')" and "\<forall>e \<in> set quiet. quiet_round env self e"
    and "single_is_running (y_state self)"
  shows "\<exists>w1. same_env w w1 \<and> LeelenDiscovery_mainloop env es self w1 = Some (self', w')"
  using assms(1,2)
proof (induction quiet arbitrary: w)
  case Nil
  then show ?case by (auto intro: same_env_refl)
next
  case (Cons e quiet)
  have c: "single_continue (y_state self) = (True, y_state self)" using assms(3) by (simp add: single_continue_def)
  show ?case
  proof (cases "0 < v_pollres e")
    case False
    with Cons c show ?thesis by simp
  next
    case True
    with Cons.prems(1) c obtain self1 w1 where p: "discovery_packets env [0, 1] e self w = Some (self1, w1)"
      and rest: "LeelenDiscovery_mainloop env (quiet @ es) self1 w1 = Some (self', w')"
      by (auto simp: Let_def split: option.splits simp del: discovery_packets.simps)
    have "self1 = self" using discovery_packets_quiet [OF p _ True] Cons.prems(2) by simp
    with Cons.IH [of w1] rest Cons.prems(2) obtain w2 where "same_env w1 w2"
      "LeelenDiscovery_mainloop env es self w2 = Some (self', w')" by auto
    with discovery_packets_keeps [OF p] show ?thesis by (blast intro: same_env_trans)
  qed
qed

lemma discovery_packet_advertisement:
  assumes "cstr (take (unat (a_mtu (y_adv self))) (r_buf m)) = LEELEN_DISCOVERY_FORMAT s type desc"
    and "address_text (e_inet env) s" and "address_of (e_inet env) s (h_addr (y_host self)) = Some addr"
    and "w_ok w (w_tick w)" and "8 < y_initres self"
  shows "discovery_packet env 0 fd (Some m) self w =
    Some (self\<lparr>y_initres := 0, y_host :=
      (y_host self)\<lparr>h_addr := addr\<lparr>sa_port := 0\<rparr>, h_src := r_src m, h_desc := Some desc, h_type := type\<rparr>\<rparr>, step w)"
proof -
  let ?t = "take (unat (a_mtu (y_adv self))) (r_buf m)" and ?stack = "e_stack env"
  obtain src dst recv_dst where r:
    "recvfromto (Some m) (unat (a_mtu (y_adv self))) (Some (k_dst ?stack)) (Some (k_dst ?stack)) (Some (k_recv_dst ?stack)) =
     (int (length ?t), ?t, Some (r_src m), dst, recv_dst)"
    by (cases "read_cmsgs (r_cmsgs m) (Some (k_dst ?stack\<lparr>sa_port := 0\<rparr>)) (Some (k_recv_dst ?stack))")
      (simp add: recvfromto_def Let_def)
  have a: "Leelen_discovery_is_advertisement (LEELEN_DISCOVERY_FORMAT s type desc)"
    by (simp add: Leelen_discovery_is_advertisement_def LEELEN_DISCOVERY_FORMAT_def)
  have "0 < length ?t"
    using assms(1) by (cases ?t) (auto simp: LEELEN_DISCOVERY_FORMAT_def)
  moreover have "take_advertisement env 0 (LEELEN_DISCOVERY_FORMAT s type desc) (r_src m) self w =
    Some (self\<lparr>y_initres := 0, y_host :=
      (y_host self)\<lparr>h_addr := addr\<lparr>sa_port := 0\<rparr>, h_src := r_src m, h_desc := Some desc, h_type := type\<rparr>\<rparr>, step w)"
    using init_advertisement [OF assms(2,3,4), of type desc "r_src m"] assms(5) by (simp add: take_advertisement_def)
  ultimately show ?thesis
    using a by (simp add: discovery_packet_def r assms(1) Let_def del: length_take)
qed

lemma connect_open_fails:
  assumes "openaddr46 addr flags w = (fd, w1)" and "sockopt_fd fd w1 = (False, w2)"
  shows "\<not> (\<forall>i. w_ok w i)" and "same_env w w1 \<and> same_env w w2"
proof -
  show "\<not> (\<forall>i. w_ok w i)"
  proof
  assume ok: "\<forall>i. w_ok w i"
  then have "0 \<le> fd" using openaddr46_ok assms(1) by blast
  with ok assms(2) openaddr46_env [OF assms(1)] show False
    by (simp add: sockopt_fd_def sys_def same_env_def)
  qed
  show "same_env w w1 \<and> same_env w w2"
    using assms(2) openaddr46_env [OF assms(1)] by (auto simp: sockopt_fd_def sys_def same_env_def split: if_splits)
qed

lemma connect_open_succeeds:
  assumes "openaddr46 addr flags w = (fd, w1)" and "sockopt_fd fd w1 = (True, w2)"
  shows "same_env w w2 \<and> 0 \<le> fd"
  using assms openaddr46_env [OF assms(1)]
  by (auto simp: sockopt_fd_def sys_def same_env_def split: if_splits)

lemma connect_v6_result:
  assumes "connect_v6 self w = x"
  shows "case x of
      Inl (r, self', w') \<Rightarrow> r = - 1 \<and> (\<exists>fd. self' = self\<lparr>y_sockfd6 := fd\<rparr>) \<and> listen_v6 self \<and> \<not> (\<forall>i. w_ok w i) \<and> same_env w w'
    | Inr (self', w') \<Rightarrow> same_env w w' \<and> (\<exists>fd. self' = self\<lparr>y_sockfd6 := fd\<rparr> \<and> (listen_v6 self \<longrightarrow> 0 \<le> fd) \<and>
        (\<not> listen_v6 self \<longrightarrow> fd = y_sockfd6 self))"
proof (cases "listen_v6 self \<and> y_sockfd6 self < 0")
  case False
  then show ?thesis
    using assms by (auto simp: connect_v6_def intro!: exI [of _ "y_sockfd6 self"] split: sum.splits)
next
  case True
  obtain fd w1 where o: "openaddr46 (local_addr AF_INET6 self) (OPENADDR_REUSEADDR OR OPENADDR_V6ONLY) w = (fd, w1)"
    by (metis surj_pair)
  obtain ok w2 where opt: "sockopt_fd fd w1 = (ok, w2)" by (metis surj_pair)
  show ?thesis
  proof (cases ok)
    case True
    with connect_open_succeeds [OF o] opt have "same_env w w2" "0 \<le> fd" by simp_all
    with True o opt \<open>listen_v6 self \<and> y_sockfd6 self < 0\<close> assms show ?thesis
      by (auto simp: connect_v6_def Let_def)
  next
    case False
    with connect_open_fails [OF o] opt have "\<not> (\<forall>i. w_ok w i)" "same_env w w1" "same_env w w2" by simp_all
    with False o opt \<open>listen_v6 self \<and> y_sockfd6 self < 0\<close> assms show ?thesis
      by (auto simp: connect_v6_def Let_def)
  qed
qed

lemma connect_v4_result:
  assumes "connect_v4 self w = x"
  shows "case x of
      Inl (r, self', w') \<Rightarrow> r = - 1 \<and> (\<exists>fd. self' = self\<lparr>y_sockfd := fd\<rparr>) \<and> listen_v4 self \<and> \<not> (\<forall>i. w_ok w i) \<and> same_env w w'
    | Inr (self', w') \<Rightarrow> same_env w w' \<and> (\<exists>fd. self' = self\<lparr>y_sockfd := fd\<rparr> \<and> (listen_v4 self \<longrightarrow> 0 \<le> fd) \<and>
        (\<not> listen_v4 self \<longrightarrow> fd = y_sockfd self))"
proof (cases "listen_v4 self \<and> y_sockfd self < 0")
  case False
  then show ?thesis
    using assms by (auto simp: connect_v4_def intro!: exI [of _ "y_sockfd self"] split: sum.splits)
next
  case True
  obtain fd w1 where o: "openaddr46 (local_addr AF_INET self) OPENADDR_REUSEADDR w = (fd, w1)"
    by (metis surj_pair)
  obtain ok w2 where opt: "sockopt_fd fd w1 = (ok, w2)" by (metis surj_pair)
  show ?thesis
  proof (cases ok)
    case True
    with connect_open_succeeds [OF o] opt have "same_env w w2" "0 \<le> fd" by simp_all
    with True o opt \<open>listen_v4 self \<and> y_sockfd self < 0\<close> assms show ?thesis
      by (auto simp: connect_v4_def Let_def)
  next
    case False
    with connect_open_fails [OF o] opt have "\<not> (\<forall>i. w_ok w i)" "same_env w w1" "same_env w w2" by simp_all
    with False o opt \<open>listen_v4 self \<and> y_sockfd self < 0\<close> assms show ?thesis
      by (auto simp: connect_v4_def Let_def)
  qed
qed

section \<open>Properties\<close>

text \<open>C14. The first advertisement wins: when a running daemon could send the solicitation, rounds without advertisements leave the result at
  254, the timeout; the first advertisement at the first socket makes the result 0 and the host the one
  it describes, and whatever arrives later, before the caller wakes up, changes neither.\<close>

theorem LeelenDiscovery_discovery_first:
  assumes "single_is_running (y_state self)" and "\<forall>i. w_ok w i"
    and "\<forall>e \<in> set quiet. quiet_round env self e" and "fst (discovery_send (k_dst (e_stack env)) (self\<lparr>y_initres := 254\<rparr>) phone w) = 0"
    and "poll_fds self \<noteq> []" and "0 < v_pollres e" and "v_revents e 0" and "v_arrival e (hd (poll_fds self)) = Some m"
    and "cstr (take (unat (a_mtu (y_adv self))) (r_buf m)) = LEELEN_DISCOVERY_FORMAT s type desc"
    and "address_text (e_inet env) s" and "address_of (e_inet env) s (h_addr (y_host self)) = Some addr"
  shows "(LeelenDiscovery_discovery env quiet phone self w = Some (res, host, self', w') \<longrightarrow>
      res = 254 \<and> host = Some (y_host self)) \<and>
    (LeelenDiscovery_discovery env (quiet @ e # later) phone self w = Some (res, host, self', w') \<longrightarrow>
      res = 0 \<and> host = Some ((y_host self)\<lparr>h_addr := addr\<lparr>sa_port := 0\<rparr>, h_src := r_src m, h_desc := Some desc, h_type := type\<rparr>))"
proof -
  let ?self = "self\<lparr>y_initres := 254\<rparr>"
  obtain w1 where send: "discovery_send (k_dst (e_stack env)) ?self phone w = (0, w1)"
    using assms(4) by (metis prod.collapse)
  have env: "same_env w w1"
    using discovery_send_env [OF send] .
  have q: "\<forall>e \<in> set quiet. quiet_round env ?self e"
    using assms(3) by simp
  have running: "single_is_running (y_state ?self)" using assms(1) by simp
  have c: "single_continue (y_state ?self) = (True, y_state ?self)" using running by (simp add: single_continue_def)
  show ?thesis
  proof (rule conjI; rule impI)
    assume "LeelenDiscovery_discovery env quiet phone self w = Some (res, host, self', w')"
    then obtain self1 w2 where run: "LeelenDiscovery_mainloop env quiet ?self w1 = Some (self1, w2)"
      and r: "res = y_initres self1" "host = Some (y_host self1)"
      using running send by (auto simp: LeelenDiscovery_discovery_def split: option.splits)
    from mainloop_quiet [of env quiet "[]", OF _ q running] run have "self1 = ?self" by auto
    with r show "res = 254 \<and> host = Some (y_host self)" by simp
  next
    assume "LeelenDiscovery_discovery env (quiet @ e # later) phone self w = Some (res, host, self', w')"
    then obtain self1 w2 where run: "LeelenDiscovery_mainloop env (quiet @ e # later) ?self w1 = Some (self1, w2)"
      and r: "res = y_initres self1" "host = Some (y_host self1)"
      using running send by (auto simp: LeelenDiscovery_discovery_def split: option.splits)
    from mainloop_quiet [OF run q running] obtain w3 where w3: "same_env w1 w3"
      and run1: "LeelenDiscovery_mainloop env (e # later) ?self w3 = Some (self1, w2)" by blast
    have ok: "w_ok w3 (w_tick w3)" using env w3 assms(2) by (simp add: same_env_def)
    have entry: "poll_entry (e_stack env) ?self e 0 = (hd (poll_fds self), True)"
      using assms(5,7) by (simp add: poll_entry_def hd_conv_nth)
    let ?host = "(y_host self)\<lparr>h_addr := addr\<lparr>sa_port := 0\<rparr>, h_src := r_src m, h_desc := Some desc, h_type := type\<rparr>"
    let ?found = "?self\<lparr>y_initres := 0, y_host := ?host\<rparr>"
    have first: "discovery_packet env 0 (hd (poll_fds self)) (Some m) ?self w3 = Some (?found, step w3)"
      using discovery_packet_advertisement [of ?self m s type desc env addr w3 "hd (poll_fds self)"] assms(9-11) ok by simp
    from run1 c entry first assms(6,8) obtain self2 w4 where p: "discovery_packets env [1] e ?found (step w3) = Some (self2, w4)"
      and rest: "LeelenDiscovery_mainloop env later self2 w4 = Some (self1, w2)"
      by (auto simp: Let_def split: option.splits prod.splits)
    from discovery_packets_keeps [OF p] have "self2 = ?found" by simp
    with mainloop_settled [OF rest] r show "res = 0 \<and> host = Some ?host" by simp
  qed
qed

definition running_discovery :: LeelenDiscovery where
  "running_discovery = \<lparr>y_adv = \<lparr>a_regex = None, a_report = [], a_mtu = 1200\<rparr>, y_state = 1, y_spec_sockfd = - 1, y_sockfd = 4,
     y_sockfd6 = - 1, y_timeout = 200, y_port = 0, y_addr = sockaddr_zero, y_host = blank_host, y_initres = 0\<rparr>"

definition quiet_stack :: daemon_stack where
  "quiet_stack = \<lparr>k_pollfds = (\<lambda>_. (0, False)), k_recv_dst = 0, k_behind = (in6addr_any, in6addr_any), k_dst = sockaddr_zero\<rparr>"

definition sample_env :: discovery_env where
  "sample_env = \<lparr>e_config = fixed_config, e_inet = text_lib, e_print = sample_print_lib, e_regexec = (\<lambda>_ _. False),
     e_stack = quiet_stack\<rparr>"

definition answer_round :: poll_round where
  "answer_round = \<lparr>v_pollres = 1, v_revents = (\<lambda>i. i = 0),
     v_arrival = (\<lambda>_. Some \<lparr>r_buf = LEELEN_DISCOVERY_FORMAT ''10.0.0.1'' 1 ''door'', r_src = sockaddr_zero, r_cmsgs = []\<rparr>)\<rparr>"

lemma sample_fields:
  "poll_fds running_discovery = [4]" "y_state running_discovery = 1" "y_host running_discovery = blank_host"
  "a_mtu (y_adv running_discovery) = 1200" "y_spec_sockfd running_discovery = - 1" "y_sockfd6 running_discovery = - 1"
  "y_sockfd running_discovery = 4" "e_stack sample_env = quiet_stack" "e_inet sample_env = text_lib"
  "v_pollres answer_round = 1" "v_revents answer_round i = (i = 0)" "k_pollfds quiet_stack i = (0, False)"
  "v_arrival answer_round fd =
     Some \<lparr>r_buf = LEELEN_DISCOVERY_FORMAT ''10.0.0.1'' 1 ''door'', r_src = sockaddr_zero, r_cmsgs = []\<rparr>"
  "pton4 text_lib ''10.0.0.1'' = Some 16777226" "address_text text_lib ''10.0.0.1''"
  by (simp_all add: running_discovery_def poll_fds_def sample_env_def quiet_stack_def answer_round_def text_lib_def
      address_text_def INET6_ADDRSTRLEN_def)

theorem LeelenDiscovery_discovery_first_witness:
  "\<exists>host self' w'. LeelenDiscovery_discovery sample_env [answer_round] ''0101-0101'' running_discovery calm = Some (0, Some host, self', w') \<and>
     sin_addr (h_addr host) = 16777226 \<and> h_type host = 1 \<and> h_desc host = Some ''door''"
proof -
  let ?t = "LEELEN_DISCOVERY_FORMAT ''10.0.0.1'' 1 ''door''"
  let ?self = "running_discovery\<lparr>y_initres := 254\<rparr>"
  have "length (showd (unat (1 :: u8))) \<le> 1" by (rule length_showd_le) simp_all
  then have "length ?t < 1200" by (simp add: LEELEN_DISCOVERY_FORMAT_def)
  moreover have "NUL \<notin> set ?t" using showd_digits [of "unat (1 :: u8)"] by (auto simp: LEELEN_DISCOVERY_FORMAT_def)
  ultimately have t: "cstr (take (unat (1200 :: u16)) ?t) = ?t" by (simp add: cstr_no_NUL)
  have send: "\<exists>w1. discovery_send (k_dst quiet_stack) ?self ''0101-0101'' calm = (0, w1) \<and> w_ok w1 (w_tick w1)"
    by (simp add: discovery_send_def sample_fields LeelenHost__discovery_def sockaddr46_set_def sys_send_def)
  then obtain w1 where w1: "discovery_send (k_dst quiet_stack) ?self ''0101-0101'' calm = (0, w1)" "w_ok w1 (w_tick w1)" by blast
  obtain addr where addr: "address_of text_lib ''10.0.0.1'' (h_addr blank_host) = Some addr" "sin_addr addr = 16777226"
    by (simp add: address_of_def sample_fields)
  have p: "discovery_packet sample_env 0 4 (v_arrival answer_round 4) ?self w1 \<noteq> None"
    using discovery_packet_advertisement [of ?self _ "''10.0.0.1''" 1 "''door''" sample_env addr w1 4] w1(2) t addr
    by (simp add: sample_fields)
  have same: "?self\<lparr>y_state := 1\<rparr> = ?self" by (simp add: running_discovery_def)
  have "discovery_packet sample_env 0 4 (v_arrival answer_round 4) (?self\<lparr>y_state := 1\<rparr>) w1 \<noteq> None"
    unfolding same by (rule p)
  then have "LeelenDiscovery_mainloop sample_env [answer_round] ?self w1 \<noteq> None"
    by (auto simp: sample_fields poll_entry_def single_continue_def single_is_running_def)
  then obtain res host self' w' where run:
    "LeelenDiscovery_discovery sample_env ([] @ answer_round # []) ''0101-0101'' running_discovery calm = Some (res, host, self', w')"
    using w1(1) by (auto simp: LeelenDiscovery_discovery_def single_is_running_def sample_fields)
  have "res = 0 \<and> host = Some (blank_host\<lparr>h_addr := addr\<lparr>sa_port := 0\<rparr>, h_src := sockaddr_zero, h_desc := Some ''door'', h_type := 1\<rparr>)"
    using LeelenDiscovery_discovery_first [of running_discovery "calm :: net" "[]" sample_env "''0101-0101''" answer_round
        "\<lparr>r_buf = ?t, r_src = sockaddr_zero, r_cmsgs = []\<rparr>" "''10.0.0.1''" 1 "''door''" addr res host self' w' "[]"]
      run t w1(1) addr(1)
    by (simp add: sample_fields single_is_running_def)
  with run addr(2) show ?thesis by simp
qed

lemma connect_result:
  assumes "LeelenDiscovery_connect self w = (r, self', w')"
  shows "same_env w w' \<and> (r = 0 \<or> r = - 1) \<and>
    (r = 0 \<longrightarrow> (listen_v6 self \<longrightarrow> 0 \<le> y_sockfd6 self') \<and> (listen_v4 self \<longrightarrow> 0 \<le> y_sockfd self') \<and>
      (wants_spec self \<longrightarrow> 0 \<le> y_spec_sockfd self')) \<and>
    (\<not> listen_v6 self \<longrightarrow> y_sockfd6 self' = y_sockfd6 self) \<and> (\<not> listen_v4 self \<longrightarrow> y_sockfd self' = y_sockfd self) \<and>
    (\<not> wants_spec self \<longrightarrow> y_spec_sockfd self' = y_spec_sockfd self) \<and>
    ((\<forall>i. w_ok w i) \<longrightarrow> r = 0)"
proof (cases "connect_v6 self w")
  case (Inl x)
  with assms have x: "x = (r, self', w')" by (simp add: LeelenDiscovery_connect_def)
  with connect_v6_result [OF Inl] have r: "r = - 1" "listen_v6 self" "\<not> (\<forall>i. w_ok w i)" "same_env w w'"
    and "\<exists>fd. self' = self\<lparr>y_sockfd6 := fd\<rparr>" by auto
  then have "y_sockfd self' = y_sockfd self" "y_spec_sockfd self' = y_spec_sockfd self" by auto
  with r show ?thesis by simp
next
  case (Inr x)
  obtain self1 w1 where x: "x = (self1, w1)" by (cases x)
  from connect_v6_result [OF Inr] x obtain fd6 where c6: "same_env w w1" "self1 = self\<lparr>y_sockfd6 := fd6\<rparr>"
    "listen_v6 self \<longrightarrow> 0 \<le> fd6" "\<not> listen_v6 self \<longrightarrow> fd6 = y_sockfd6 self" by auto
  have l: "listen_v4 self1 = listen_v4 self" "wants_spec self1 = wants_spec self" "y_addr self1 = y_addr self"
    using c6(2) by (simp_all add: listen_v4_def wants_spec_def)
  have ok1: "(\<forall>i. w_ok w1 i) = (\<forall>i. w_ok w i)" using c6(1) by (simp add: same_env_def)
  show ?thesis
  proof (cases "connect_v4 self1 w1")
    case (Inl y)
    with assms Inr x have y: "y = (r, self', w')" by (simp add: LeelenDiscovery_connect_def)
    with connect_v4_result [OF Inl] have r: "r = - 1" "listen_v4 self1" "\<not> (\<forall>i. w_ok w1 i)" "same_env w1 w'"
      and "\<exists>fd. self' = self1\<lparr>y_sockfd := fd\<rparr>" by auto
    then have "y_sockfd6 self' = fd6" "y_spec_sockfd self' = y_spec_sockfd self" using c6(2) by auto
    moreover have "same_env w w'" using c6(1) r(4) by (rule same_env_trans)
    ultimately show ?thesis using r l c6(4) ok1 by simp
  next
    case Inr4: (Inr y)
    obtain self2 w2 where y: "y = (self2, w2)" by (cases y)
    from connect_v4_result [OF Inr4] y obtain fd4 where c4: "same_env w1 w2" "self2 = self1\<lparr>y_sockfd := fd4\<rparr>"
      "listen_v4 self1 \<longrightarrow> 0 \<le> fd4" "\<not> listen_v4 self1 \<longrightarrow> fd4 = y_sockfd self1" by auto
    have spec: "connect_spec self2 w2 = (r, self', w')"
      using assms Inr Inr4 x y by (simp add: LeelenDiscovery_connect_def)
    have l2: "wants_spec self2 = wants_spec self" "y_addr self2 = y_addr self"
      using c4(2) l by (simp_all add: wants_spec_def)
    have ok2: "(\<forall>i. w_ok w i) \<Longrightarrow> (\<forall>i. w_ok w2 i)" using ok1 c4(1) by (simp add: same_env_def)
    obtain fd w3 where o: "openaddr46 (y_addr self) OPENADDR_REUSEADDR w2 = (fd, w3)" by (metis surj_pair)
    have "self' = (if wants_spec self then self2\<lparr>y_spec_sockfd := fd\<rparr> else self2)"
      and r: "r = (if wants_spec self \<and> \<not> 0 \<le> fd then - 1 else 0)"
      using spec o l2 by (auto simp: connect_spec_def split: if_splits)
    then have "y_sockfd6 self' = fd6" "y_sockfd self' = fd4"
      "y_spec_sockfd self' = (if wants_spec self then fd else y_spec_sockfd self)"
      using c4(2) c6(2) by simp_all
    moreover have "(\<forall>i. w_ok w i) \<longrightarrow> 0 \<le> fd" using openaddr46_ok [OF ok2 o] by blast
    moreover have "y_sockfd self1 = y_sockfd self" using c6(2) by simp
    moreover have "same_env w w'"
      using spec o openaddr46_env [OF o] c4(1) c6(1) l2 by (auto simp: connect_spec_def same_env_def split: if_splits)
    ultimately show ?thesis using r c4(3,4) c6(3,4) l(1) by simp
  qed
qed



text \<open>The loop looks at two entries of \<open>pollfds\<close>. With one socket the second entry is whatever the stack held, and a
  third socket is never read.\<close>

theorem discovery_polls_two:
  shows "poll_fds self = [fd] \<Longrightarrow> \<not> v_revents e 0 \<Longrightarrow> k_pollfds (e_stack env) 1 = (fd', True) \<Longrightarrow>
      discovery_packets env [0, 1] e self w =
        (case discovery_packet env 1 fd' (v_arrival e fd') self w of None \<Rightarrow> None | Some (self, w) \<Rightarrow> Some (self, w))"
    and "poll_fds self = [fd0, fd1, fd2] \<Longrightarrow> \<not> v_revents e 0 \<Longrightarrow> \<not> v_revents e 1 \<Longrightarrow>
      discovery_packets env [0, 1] e self w = Some (self, w)"
  by (auto simp: poll_entry_def split: option.split)

end
