(* ===== verification/Forwarder.thy ===== *)
theory Forwarder
  imports Sync
begin

text \<open>
  \<^verbatim>\<open>sipleelen/forwarder.h\<close> and \<^verbatim>\<open>sipleelen/forwarder.c\<close>: the pair of threads that copies
  datagrams between two connected sockets.

  \<open>half_round\<close> is one turn of the loop of \<open>HalfForwarder_mainloop\<close> on the results of its system
  calls; \<open>half_run\<close> is the whole thread on the results of its turns. \<open>Forwarder_start\<close> returns the
  halves whose threads it created. The two threads and the callers of start and stop share one
  flag: \<open>forward_step\<close> is their interleaving.
\<close>

record Forwarder =
  f_state :: int
  f_mtu :: u16
  f_socket1 :: int
  f_socket2 :: int

record HalfForwarder =
  h_from :: int
  h_to :: int
  h_mtu :: u16

definition Forwarder_init :: "Forwarder \<Rightarrow> u16 \<Rightarrow> int \<times> Forwarder" where
  "Forwarder_init self mtu =
     (0, self\<lparr>f_state := SINGLE_FLAG_INIT, f_mtu := mtu, f_socket1 := - 1, f_socket2 := - 1\<rparr>)"

definition Forwarder_stop :: "Forwarder \<Rightarrow> Forwarder" where
  "Forwarder_stop self = self\<lparr>f_state := single_stop (f_state self)\<rparr>"

section \<open>One direction\<close>

text \<open>The results of \<open>poll\<close> and \<open>recv\<close>: \<open>recv\<close> of a datagram longer than the buffer keeps its
  first \<open>mtu\<close> bytes; \<open>None\<close> is an error.\<close>

record turn =
  t_flag :: int
  t_poll :: int
  t_recv :: "char list option"

datatype half_action = Quit | Idle | SendData "char list"

definition half_round :: "HalfForwarder \<Rightarrow> turn \<Rightarrow> half_action" where
  "half_round self t =
     (if \<not> fst (single_continue (t_flag t)) then Quit
      else if \<not> 0 \<le> t_poll t then Idle
      else if t_poll t \<le> 0 then Idle
      else case t_recv t of
             None \<Rightarrow> Idle
           | Some data \<Rightarrow> SendData (take (unat (h_mtu self)) data))"

fun half_run :: "HalfForwarder \<Rightarrow> turn list \<Rightarrow> char list list \<times> bool" where
  "half_run self [] = ([], False)"
| "half_run self (t # ts) =
     (case half_round self t of
        Quit \<Rightarrow> ([], True)
      | Idle \<Rightarrow> half_run self ts
      | SendData data \<Rightarrow> (let (out, ended) = half_run self ts in (data # out, ended)))"

section \<open>Both directions\<close>

definition make_half :: "Forwarder \<Rightarrow> nat \<Rightarrow> HalfForwarder" where
  "make_half self i =
     (if i = 0 then \<lparr>h_from = f_socket1 self, h_to = f_socket2 self, h_mtu = f_mtu self\<rparr>
      else \<lparr>h_from = f_socket2 self, h_to = f_socket1 self, h_mtu = f_mtu self\<rparr>)"

fun start_halves :: "Forwarder \<Rightarrow> nat list \<Rightarrow> 'p world \<Rightarrow> bool \<times> HalfForwarder list \<times> 'p world" where
  "start_halves self [] w = (True, [], w)"
| "start_halves self (i # is) w =
     (let (ok, w) = sys w in
      if \<not> ok then (False, [], w)
      else let (ok, w) = sys w in
        if \<not> ok then (False, [], w)
        else let (ok, hs, w) = start_halves self is w in (ok, make_half self i # hs, w))"

text \<open>\<open>seen\<close>: the values of the flag while \<open>single_acquire\<close> waits. The result is \<open>None\<close> while it waits,
  otherwise the return value, the forwarder and the halves that run.\<close>

definition Forwarder_start ::
  "Forwarder \<Rightarrow> int list \<Rightarrow> 'p world \<Rightarrow> (int \<times> Forwarder \<times> HalfForwarder list \<times> 'p world) option"
where
  "Forwarder_start self seen w =
     (if \<not> (0 \<le> f_socket1 self \<and> 0 \<le> f_socket2 self) then Some (255, self, [], w)
      else case single_acquire (f_state self # seen) of
             None \<Rightarrow> None
           | Some (False, flag) \<Rightarrow> Some (0, self\<lparr>f_state := flag\<rparr>, [], w)
           | Some (True, flag) \<Rightarrow>
               let self = self\<lparr>f_state := flag\<rparr>; (ok, hs, w) = start_halves self [0, 1] w
               in if ok then Some (0, self, hs, w)
                  else Some (- 1, self\<lparr>f_state := single_finish flag\<rparr>, hs, w))"

text \<open>The descriptors that \<open>Forwarder_destroy\<close> closes, and how long it waits for the flag.\<close>

definition Forwarder_destroy :: "Forwarder \<Rightarrow> int list \<Rightarrow> int list \<times> nat option" where
  "Forwarder_destroy self seen =
     (let self = Forwarder_stop self in
      (filter (\<lambda>fd. 0 \<le> fd) [f_socket1 self, f_socket2 self], single_join (f_state self) seen))"

section \<open>The threads of one forwarder\<close>

datatype forward_op = Start | StartNot | StopAll | Turn | LeaveHalf

inductive forward_step :: "int \<times> nat \<Rightarrow> forward_op \<Rightarrow> int \<times> nat \<Rightarrow> bool" where
  start: "acquire_round flag = (Some True, flag') \<Longrightarrow> forward_step (flag, n) Start (flag', n + 2)"
| start_not: "acquire_round flag = (Some False, flag') \<Longrightarrow> forward_step (flag, n) StartNot (flag', n)"
| stop: "forward_step (flag, n) StopAll (single_stop flag, n)"
| turn: "single_continue flag = (True, flag') \<Longrightarrow> forward_step (flag, Suc n) Turn (flag', Suc n)"
| leave: "single_continue flag = (False, flag') \<Longrightarrow> forward_step (flag, Suc n) LeaveHalf (flag', n)"

definition forward_initial :: "int \<times> nat \<Rightarrow> bool" where
  "forward_initial s \<longleftrightarrow> s = (SINGLE_FLAG_INIT, 0)"

text \<open>Between a start and the next one the threads only become fewer.\<close>

definition forward_inv :: "int \<times> nat \<Rightarrow> bool" where
  "forward_inv = (\<lambda>(flag, n). flag \<in> {SINGLE_STOPPING, SINGLE_STOPPED, SINGLE_RUNNING} \<and>
     (flag = SINGLE_RUNNING \<longrightarrow> 2 \<le> n))"

interpretation forward: invariant_system forward_initial forward_step forward_inv
proof unfold_locales
  show "forward_initial s \<Longrightarrow> forward_inv s" for s
    by (simp add: forward_initial_def forward_inv_def single_flags)
next
  fix s l s' assume "forward_inv s" and "forward_step s l s'"
  then show "forward_inv s'"
    by (auto elim!: forward_step.cases
        simp: forward_inv_def acquire_round_def single_is_running_def single_finish_def single_stop_def
          single_continue_def single_flags split: if_splits)
qed

section \<open>Lemmas\<close>

definition forwarded :: "HalfForwarder \<Rightarrow> turn \<Rightarrow> char list option" where
  "forwarded self t =
     (if 0 < t_poll t then map_option (take (unat (h_mtu self))) (t_recv t) else None)"

lemma half_run_running:
  "\<forall>t \<in> set ts. t_flag t = SINGLE_RUNNING \<Longrightarrow>
   half_run self ts = (map the (filter (\<lambda>x. x \<noteq> None) (map (forwarded self) ts)), False)"
  by (induction ts)
    (auto simp: half_round_def single_continue_def single_is_running_def single_flags forwarded_def
      split: option.splits)

lemma half_run_stops:
  "\<forall>t \<in> set ts. t_flag t = SINGLE_RUNNING \<Longrightarrow> \<not> 0 < t_flag u \<Longrightarrow>
   half_run self (ts @ u # us) = (fst (half_run self ts), True)"
  by (induction ts)
    (auto simp: half_round_def single_continue_def single_is_running_def single_flags
      split: option.splits prod.splits)

section \<open>Properties\<close>



text \<open>\<open>Forwarder_start\<close> with both sockets open and a stopped flag either creates the two halves,
  one for each direction with the MTU of the forwarder, and leaves the flag running; or it fails
  because memory or a thread was not available and leaves the flag stopped, so that a half that was
  already created ends at its next turn.\<close>

theorem Forwarder_start_halves:
  assumes "0 \<le> f_socket1 f" and "0 \<le> f_socket2 f" and "f_state f = SINGLE_STOPPED"
    and "Forwarder_start f seen w = Some (r, f', hs, w')"
  shows "r = 0 \<and> f_state f' = SINGLE_RUNNING \<and>
      hs = [\<lparr>h_from = f_socket1 f, h_to = f_socket2 f, h_mtu = f_mtu f\<rparr>,
            \<lparr>h_from = f_socket2 f, h_to = f_socket1 f, h_mtu = f_mtu f\<rparr>]
    \<or> r = - 1 \<and> f_state f' = SINGLE_STOPPED \<and> length hs \<le> 1 \<and>
      (\<forall>h t. half_round h (t\<lparr>t_flag := f_state f'\<rparr>) = Quit)"
  using assms
  by (auto simp: Forwarder_start_def acquire_round_def single_flags make_half_def single_finish_def
      half_round_def single_continue_def single_is_running_def Let_def split: prod.splits if_splits)

theorem Forwarder_start_halves_witness:
  "\<exists>f' hs w'. Forwarder_start \<lparr>f_state = SINGLE_STOPPED, f_mtu = 9, f_socket1 = 3, f_socket2 = 4\<rparr> []
     (calm :: unit world) = Some (0, f', hs, w') \<and> length hs = 2"
proof -
  let ?f = "\<lparr>f_state = SINGLE_STOPPED, f_mtu = 9, f_socket1 = 3, f_socket2 = 4\<rparr>"
  obtain r f' hs w' where r: "Forwarder_start ?f [] (calm :: unit world) = Some (r, f', hs, w')" "r = 0"
    by (simp add: Forwarder_start_def acquire_round_def single_flags sys_def Let_def)
  then show ?thesis
    using Forwarder_start_halves [OF _ _ _ r(1)] by simp
qed

text \<open>The two halves share one flag, and the first one that leaves resets it: when the forwarder is
  started again before the other half looked at the flag, that half goes on and three threads run.
  The flag never says running with fewer than two.\<close>

theorem Forwarder_restart_race:
  "reach forward_initial forward_step (SINGLE_RUNNING, 3) \<and>
   (\<forall>n. reach forward_initial forward_step (SINGLE_RUNNING, n) \<longrightarrow> 2 \<le> n)"
proof
  have "reach forward_initial forward_step (0, 0)"
    by (rule reach.start) (simp add: forward_initial_def single_flags)
  moreover have "forward_step (0, 0) Start (1, 0 + 2)"
    by (rule start) (simp add: acquire_round_def single_flags)
  moreover have "forward_step (1, 2) StopAll (- 1, 2)"
    using stop [of 1 2] by (simp add: single_stop_def single_flags)
  moreover have "forward_step (- 1, Suc 1) LeaveHalf (0, 1)"
    by (rule leave) (simp add: single_continue_def single_is_running_def single_finish_def single_flags)
  moreover have "forward_step (0, 1) Start (1, 1 + 2)"
    by (rule start) (simp add: acquire_round_def single_flags)
  ultimately show "reach forward_initial forward_step (SINGLE_RUNNING, 3)"
    by (simp add: single_flags numeral_2_eq_2 numeral_3_eq_3) (meson reach.run)
next
  show "\<forall>n. reach forward_initial forward_step (SINGLE_RUNNING, n) \<longrightarrow> 2 \<le> n"
    using forward.reach_inv by (force simp: forward_inv_def single_flags)
qed

theorem Forwarder_restart_race_witness:
  "2 \<le> (3::nat)"
  using Forwarder_restart_race by blast

end
