(* ===== verification/Sdp.thy ===== *)
theory Sdp
  imports Array Address
begin

text \<open>
  \<^verbatim>\<open>utils/sdp_message.h\<close>, \<^verbatim>\<open>utils/sdp_message.c\<close> and the two SDP functions of
  \<^verbatim>\<open>sipleelen/transaction.c\<close>: RTP payload types, building an SDP description from the formats of
  a VoIP message, and reading the formats out of one.

  The SDP objects belong to the OSIP library: the records have the fields that the source
  reads and writes, \<open>None\<close> is a null string. \<open>osip_list_add\<close> is a parameter; \<open>appends\<close>, its
  documented behaviour, is a hypothesis of the properties that need it. Parsing a body is a
  parameter too: \<open>extract_media_formats\<close> gets the parsed description, or \<open>None\<close> when there is
  none. \<open>inet_ntop\<close> is a parameter.
\<close>

section \<open>Payload types\<close>

definition RTP_PAYLOAD_DYNAMIC_TYPE :: int where
  "RTP_PAYLOAD_DYNAMIC_TYPE = 96"

definition audio_format_maps :: "(int \<times> char list) list" where
  "audio_format_maps =
    [(0, ''PCMU/8000''), (3, ''GSM/8000''), (4, ''G723/8000''), (5, ''DVI4/8000''), (6, ''DVI4/16000''),
     (7, ''LPC/8000''), (8, ''PCMA/8000''), (9, ''G722/8000''), (11, ''L16/44100''), (12, ''QCELP/8000''),
     (13, ''CN/8000''), (14, ''MPA/90000''), (15, ''G728/8000''), (16, ''DVI4/11025''), (17, ''DVI4/22050''),
     (18, ''G729/8000''), (33, ''MP2T/90000''), (127, ''telephone-event/8000'')]"

definition video_format_maps :: "(int \<times> char list) list" where
  "video_format_maps =
    [(25, ''CelB/90000''), (26, ''JPEG/90000''), (28, ''nv/90000''), (31, ''H261/90000''),
     (32, ''MP/90000''), (33, ''MP2T/90000''), (34, ''H263/90000'')]"

fun find_type :: "(int \<times> char list) list \<Rightarrow> char list \<Rightarrow> int option" where
  "find_type [] format = None"
| "find_type ((t, f) # maps) format = (if format = f then Some t else find_type maps format)"

text \<open>The result is the type and the new value of \<open>*dynamic_type\<close>.\<close>

definition rtpformat2type :: "char list \<Rightarrow> int \<Rightarrow> int \<Rightarrow> int \<times> int" where
  "rtpformat2type format dynamic_type media =
     (let found = (if media = 0 then find_type audio_format_maps format
                   else if media = 1 then find_type video_format_maps format
                   else None)
      in case found of Some t \<Rightarrow> (t, dynamic_type) | None \<Rightarrow> (dynamic_type, dynamic_type + 1))"

section \<open>Descriptions\<close>

record sdp_attribute =
  a_att_field :: "char list option"
  a_att_value :: "char list option"

record sdp_media =
  m_media :: "char list option"
  m_port :: "char list option"
  m_proto :: "char list option"
  m_payloads :: "char list list"
  a_attributes :: "sdp_attribute list"

definition sdp_media_zero :: sdp_media where
  "sdp_media_zero = \<lparr>m_media = None, m_port = None, m_proto = None, m_payloads = [], a_attributes = []\<rparr>"

type_synonym ('a, 'w) list_add = "'a list \<Rightarrow> 'a \<Rightarrow> 'w \<Rightarrow> int \<times> 'a list \<times> 'w"

definition showi :: "int \<Rightarrow> char list" where
  "showi i = (if i < 0 then CHR ''-'' # showd (nat (- i)) else showd (nat i))"

definition sdp_media_add_attribute ::
  "(sdp_attribute, 'p world) list_add \<Rightarrow> sdp_media \<Rightarrow> int \<Rightarrow> char list \<Rightarrow> char list \<Rightarrow> 'p world \<Rightarrow>
     bool \<times> sdp_media \<times> 'p world"
where
  "sdp_media_add_attribute add media type field val w =
     (let (ok, w) = sys w in
      if \<not> ok then (False, media, w)
      else let (ok, w) = sys w in
        if \<not> ok then (False, media, w)
        else let attr = \<lparr>a_att_field = Some field, a_att_value = None\<rparr>;
                 s = (if type < 0 then val else showi type @ '' '' @ val);
                 (ok, w) = sys w in
          if \<not> ok then (False, media, w)
          else let (n, attrs, w) = add (a_attributes media) (attr\<lparr>a_att_value := Some s\<rparr>) w in
            if \<not> 0 < n then (False, media\<lparr>a_attributes := attrs\<rparr>, w)
            else (True, media\<lparr>a_attributes := attrs\<rparr>, w))"

text \<open>The loop over the formats: a format of type 127 is skipped, any failure ends it.\<close>

fun encode_formats ::
  "(char list, 'p world) list_add \<Rightarrow> (sdp_attribute, 'p world) list_add \<Rightarrow> int \<Rightarrow>
     char list slot list \<Rightarrow> int \<Rightarrow> sdp_media \<Rightarrow> 'p world \<Rightarrow> bool \<times> sdp_media \<times> 'p world"
where
  "encode_formats addp adda media_type (Ptr format # formats) dynamic_type med w =
     (let (type, dynamic_type) = rtpformat2type format dynamic_type media_type in
      if type = 127 then encode_formats addp adda media_type formats dynamic_type med w
      else let (ok, w) = sys w in
        if \<not> ok then (False, med, w)
        else let (n, payloads, w) = addp (m_payloads med) (showi type) w; med = med\<lparr>m_payloads := payloads\<rparr> in
          if \<not> 0 < n then (False, med, w)
          else let (ok, med, w) = sdp_media_add_attribute adda med type ''rtpmap'' format w in
            if \<not> ok then (False, med, w)
            else encode_formats addp adda media_type formats dynamic_type med w)"
| "encode_formats addp adda media_type _ dynamic_type med w = (True, med, w)"

definition encode_header :: "sdp_media \<Rightarrow> char list \<Rightarrow> u16 \<Rightarrow> 'p world \<Rightarrow> bool \<times> sdp_media \<times> 'p world" where
  "encode_header med media port w =
     (let (ok, w) = sys w in
      if \<not> ok then (False, med, w)
      else let med = med\<lparr>m_media := Some media\<rparr>; (ok, w) = sys w in
        if \<not> ok then (False, med, w)
        else let med = med\<lparr>m_port := Some (showd (unat port))\<rparr>; (ok, w) = sys w in
          if \<not> ok then (False, med, w)
          else (True, med\<lparr>m_proto := Some ''RTP/AVP''\<rparr>, w))"

definition media_kind :: "char list \<Rightarrow> int" where
  "media_kind media = (if media = ''audio'' then 0 else if media = ''video'' then 1 else 2)"

definition encode_tail ::
  "(sdp_attribute, 'p world) list_add \<Rightarrow> sdp_media \<Rightarrow> 'p world \<Rightarrow> bool \<times> sdp_media \<times> 'p world"
where
  "encode_tail adda med w =
     (let (ok, med, w) = sdp_media_add_attribute adda med 127 ''rtpmap'' ''telephone-event/8000'' w in
      if \<not> ok then (False, med, w)
      else sdp_media_add_attribute adda med 127 ''fmtp'' ''0-15'' w)"

definition encode_media ::
  "(char list, 'p world) list_add \<Rightarrow> (sdp_attribute, 'p world) list_add \<Rightarrow>
     char list \<Rightarrow> u16 \<Rightarrow> char list ptrv \<Rightarrow> 'p world \<Rightarrow> bool \<times> sdp_media \<times> 'p world"
where
  "encode_media addp adda media port formats w =
     (let (ok, med, w) = encode_header sdp_media_zero media port w in
      if \<not> ok then (False, med, w)
      else let (ok, med, w) = encode_formats addp adda (media_kind media) (vec formats)
                 RTP_PAYLOAD_DYNAMIC_TYPE med w in
        if \<not> ok then (False, med, w) else encode_tail adda med w)"

definition encode_media_formats ::
  "(char list, 'p world) list_add \<Rightarrow> (sdp_attribute, 'p world) list_add \<Rightarrow> (sdp_media, 'p world) list_add \<Rightarrow>
     sdp_media list \<Rightarrow> char list \<Rightarrow> u16 \<Rightarrow> char list ptrv \<Rightarrow> 'p world \<Rightarrow> int \<times> sdp_media list \<times> 'p world"
where
  "encode_media_formats addp adda addm medias media port formats w =
     (if port = 0 then (0, medias, w)
      else let (ok, w) = sys w in
        if \<not> ok then (1, medias, w)
        else let (ok, med, w) = encode_media addp adda media port formats w in
          if \<not> ok then (1, medias, w)
          else let (n, medias, w) = addm medias med w in
            if 0 < n then (0, medias, w) else (1, medias, w))"

section \<open>Reading formats\<close>

text \<open>The part of an \<open>rtpmap\<close> value behind the first space and the white space after it.\<close>

definition rtpmap_format :: "sdp_attribute \<Rightarrow> char list option" where
  "rtpmap_format a =
     (case (a_att_field a, a_att_value a) of
        (Some field, Some val) \<Rightarrow>
          if field \<noteq> ''rtpmap'' then None
          else (case after_chr (CHR '' '') val of
                  None \<Rightarrow> None
                | Some r \<Rightarrow> (let sep = dropWhile isspace r in if sep = [] then None else Some sep))
      | _ \<Rightarrow> None)"

fun extract_attributes ::
  "sdp_attribute list \<Rightarrow> char list ptrv \<Rightarrow> 'p world \<Rightarrow> bool \<times> char list ptrv \<times> 'p world"
where
  "extract_attributes [] v w = (True, v, w)"
| "extract_attributes (a # as) v w =
     (case rtpmap_format a of
        None \<Rightarrow> extract_attributes as v w
      | Some sep \<Rightarrow>
          (let (i, v, w) = strvpush v sep w
           in if i < 0 then (False, v, w) else extract_attributes as v w))"

fun extract_medias ::
  "bool \<Rightarrow> bool \<Rightarrow> sdp_media list \<Rightarrow> char list ptrv \<Rightarrow> char list ptrv \<Rightarrow> 'p world \<Rightarrow>
     bool \<times> char list ptrv \<times> char list ptrv \<times> 'p world"
where
  "extract_medias wa wv [] va vv w = (True, va, vv, w)"
| "extract_medias wa wv (media # medias) va vv w =
     (if m_media media = None \<or> m_proto media = None then extract_medias wa wv medias va vv w
      else if m_proto media \<noteq> Some ''RTP/AVP'' then extract_medias wa wv medias va vv w
      else if m_media media = Some ''audio'' then
        (if \<not> wa then extract_medias wa wv medias va vv w
         else let (ok, va, w) = extract_attributes (a_attributes media) va w
              in if \<not> ok then (False, va, vv, w) else extract_medias wa wv medias va vv w)
      else if m_media media = Some ''video'' then
        (if \<not> wv then extract_medias wa wv medias va vv w
         else let (ok, vv, w) = extract_attributes (a_attributes media) vv w
              in if \<not> ok then (False, va, vv, w) else extract_medias wa wv medias va vv w)
      else extract_medias wa wv medias va vv w)"

text \<open>The two results are \<open>None\<close> when nothing is stored through the output pointers.\<close>

definition extract_media_formats ::
  "sdp_media list option \<Rightarrow> bool \<Rightarrow> bool \<Rightarrow> 'p world \<Rightarrow>
     int \<times> char list ptrv option \<times> char list ptrv option \<times> 'p world"
where
  "extract_media_formats sdp wa wv w =
     (case sdp of
        None \<Rightarrow> (1, None, None, w)
      | Some medias \<Rightarrow>
          (let (ok, va, vv, w) = extract_medias wa wv medias ptrv_empty ptrv_empty w
           in if \<not> ok then (- 1, None, None, w)
              else (0, if wa then Some va else None, if wv then Some vv else None, w)))"

section \<open>A new description\<close>

record sdp_message =
  v_version :: "char list"
  o_origin :: "char list list"
  s_name :: "char list"
  c_connection :: "char list list"
  t_descr :: "char list list"

text \<open>\<open>n\<close> calls of \<open>osip_strdup\<close>, all of which are made before the first result is checked.\<close>

fun strdups :: "nat \<Rightarrow> 'p world \<Rightarrow> bool \<times> 'p world" where
  "strdups 0 w = (True, w)"
| "strdups (Suc n) w = (let (ok, w) = sys w; (oks, w) = strdups n w in (ok \<and> oks, w))"

definition sdp_address :: "(af \<Rightarrow> in6_addr \<Rightarrow> char list) \<Rightarrow> af \<Rightarrow> in6_addr \<Rightarrow> char list \<times> char list" where
  "sdp_address ntop f addr =
     (let (f, addr) = (if f = AF_INET6 \<and> IN6_IS_ADDR_V4MAPPED addr then (AF_INET, In6 (s6_3 addr) 0 0 0)
                       else (f, addr))
      in (if f = AF_INET6 then ''IP6'' else ''IP4'', ntop f addr))"

text \<open>0 is \<open>OSIP_SUCCESS\<close>; \<open>OSIP_BADPARAMETER\<close> and \<open>OSIP_NOMEM\<close> are parameters of the library.\<close>

definition sdp_message_create ::
  "(af \<Rightarrow> in6_addr \<Rightarrow> char list) \<Rightarrow> int \<Rightarrow> int \<Rightarrow> af \<Rightarrow> in6_addr \<Rightarrow> char list \<Rightarrow> char list \<Rightarrow> 'p world \<Rightarrow>
     int \<times> sdp_message option \<times> 'p world"
where
  "sdp_message_create ntop BADPARAMETER NOMEM f addr sess name w =
     (if \<not> (f = AF_INET \<or> f = AF_INET6) then (BADPARAMETER, None, w)
      else let (ok, w) = sys w in
        if \<not> ok then (NOMEM, None, w)
        else let (ok, w) = strdups 1 w in
          if \<not> ok then (NOMEM, None, w)
          else let (addrtype, host) = sdp_address ntop f addr; (ok, w) = strdups 6 w in
            if \<not> ok then (NOMEM, None, w)
            else let (ok, w) = strdups 1 w in
              if \<not> ok then (NOMEM, None, w)
              else let (ok, w) = strdups 3 w; (ok', w) = (if ok then sys w else (False, w)) in
                if \<not> ok' then (NOMEM, None, w)
                else let (ok, w) = strdups 2 w; (ok', w) = (if ok then sys w else (False, w)) in
                  if \<not> ok' then (NOMEM, None, w)
                  else (0, Some \<lparr>v_version = ''0'',
                         o_origin = [''-'', sess, sess, ''IN'', addrtype, host], s_name = name,
                         c_connection = [''IN'', addrtype, host], t_descr = [''0'', ''0'']\<rparr>, w))"

section \<open>Lemmas\<close>

definition appends :: "('a, 'w) list_add \<Rightarrow> bool" where
  "appends add \<longleftrightarrow> (\<forall>l x w n l' w'. add l x w = (n, l', w') \<longrightarrow>
     (0 < n \<and> l' = l @ [x]) \<or> (n \<le> 0 \<and> l' = l))"

definition rtpmap_attr :: "int \<times> char list \<Rightarrow> sdp_attribute" where
  "rtpmap_attr = (\<lambda>(t, f). \<lparr>a_att_field = Some ''rtpmap'', a_att_value = Some (showi t @ '' '' @ f)\<rparr>)"

text \<open>The types that the loop of \<open>encode_formats\<close> gives to the formats.\<close>

fun assigned :: "int \<Rightarrow> char list list \<Rightarrow> int \<Rightarrow> (int \<times> char list) list" where
  "assigned m [] d = []"
| "assigned m (f # fs) d =
     (let (t, d) = rtpformat2type f d m in if t = 127 then assigned m fs d else (t, f) # assigned m fs d)"

fun ptr_prefix :: "'a slot list \<Rightarrow> 'a list" where
  "ptr_prefix (Ptr f # fs) = f # ptr_prefix fs"
| "ptr_prefix _ = []"

lemma appendsD: "appends add \<Longrightarrow> add l x w = (n, l', w') \<Longrightarrow> 0 < n \<Longrightarrow> l' = l @ [x]"
  unfolding appends_def by (metis not_le)

lemma find_type_range:
  "find_type audio_format_maps f = Some t \<Longrightarrow> 0 \<le> t \<and> (t < 96 \<or> t = 127 \<and> f = ''telephone-event/8000'')"
  "find_type video_format_maps f = Some t \<Longrightarrow> 0 \<le> t \<and> t < 96"
  by (auto simp: audio_format_maps_def video_format_maps_def split: if_splits)

lemma find_type_inj:
  assumes "distinct (map fst maps)" and "find_type maps f = Some t" and "find_type maps g = Some t"
  shows "f = g"
proof -
  have "find_type maps f = Some t \<Longrightarrow> (t, f) \<in> set maps" for f
    by (induction maps) (auto split: if_splits)
  then show ?thesis
    using assms by (metis distinct_map inj_onD fst_conv prod.inject)
qed

definition static_type :: "int \<Rightarrow> char list \<Rightarrow> int option" where
  "static_type m f = (if m = 0 then find_type audio_format_maps f
     else if m = 1 then find_type video_format_maps f else None)"

lemma rtpformat2type_static:
  "rtpformat2type f d m = (case static_type m f of Some t \<Rightarrow> (t, d) | None \<Rightarrow> (d, d + 1))"
  by (simp add: rtpformat2type_def static_type_def Let_def)

lemma static_type_range: "static_type m f = Some t \<Longrightarrow> 0 \<le> t \<and> (t < 96 \<or> t = 127)"
  using find_type_range by (auto simp: static_type_def split: if_splits)

lemma maps_distinct: "distinct (map fst audio_format_maps)" "distinct (map fst video_format_maps)"
  by (simp_all add: audio_format_maps_def video_format_maps_def)

lemma static_type_inj: "static_type m f = Some t \<Longrightarrow> static_type m g = Some t \<Longrightarrow> f = g"
  using find_type_inj [OF maps_distinct(1)] find_type_inj [OF maps_distinct(2)]
  unfolding static_type_def by (metis option.distinct(1))

lemma assigned_types:
  "(t, f) \<in> set (assigned m fs d) \<Longrightarrow> 96 \<le> d \<Longrightarrow>
   f \<in> set fs \<and> t \<noteq> 127 \<and> 0 \<le> t \<and> (static_type m f = Some t \<or> static_type m f = None \<and> d \<le> t)"
proof (induction fs arbitrary: d)
  case (Cons g fs)
  then show ?case
    using static_type_range [of m g]
    by (fastforce simp: rtpformat2type_static split: option.splits if_splits prod.splits)
qed simp

lemma assigned_distinct:
  "distinct fs \<Longrightarrow> 96 \<le> d \<Longrightarrow> distinct (map fst (assigned m fs d))"
proof (induction fs arbitrary: d)
  case (Cons g fs)
  show ?case
  proof (cases "static_type m g")
    case None
    have "d \<notin> fst ` set (assigned m fs (d + 1))"
    proof
      assume "d \<in> fst ` set (assigned m fs (d + 1))"
      then obtain f where "(d, f) \<in> set (assigned m fs (d + 1))" by auto
      from assigned_types [OF this] Cons.prems(2) have "static_type m f = Some d" "d \<noteq> 127" by auto
      with static_type_range [OF this(1)] Cons.prems(2) show False by simp
    qed
    then show ?thesis
      using None Cons by (simp add: rtpformat2type_static)
  next
    case (Some t)
    have "t \<notin> fst ` set (assigned m fs d)"
    proof
      assume "t \<in> fst ` set (assigned m fs d)"
      then obtain f where f: "(t, f) \<in> set (assigned m fs d)" by auto
      note a = assigned_types [OF f Cons.prems(2)]
      with static_type_range [OF Some] Cons.prems(2) have "static_type m f = Some t" by auto
      with Some have "f = g" by (rule static_type_inj [rotated])
      with a Cons.prems(1) show False by simp
    qed
    then show ?thesis
      using Some Cons by (simp add: rtpformat2type_static)
  qed
qed simp

lemma showi_inj: "0 \<le> i \<Longrightarrow> 0 \<le> j \<Longrightarrow> showi i = showi j \<Longrightarrow> i = j"
  by (auto simp: showi_def) (metis dec_showd nat_0_le)

lemma showi_no_space: "0 \<le> i \<Longrightarrow> CHR '' '' \<notin> set (showi i)"
  using showd_digits [of "nat i"] by (auto simp: showi_def isdigit_def)

lemma add_attribute_ok:
  assumes "appends add" and "sdp_media_add_attribute add med t field val w = (True, med', w')" and "0 \<le> t"
  shows "med' = med\<lparr>a_attributes := a_attributes med @
    [\<lparr>a_att_field = Some field, a_att_value = Some (showi t @ '' '' @ val)\<rparr>]\<rparr>"
  using assms(2,3)
  by (auto simp: sdp_media_add_attribute_def Let_def split: prod.splits if_splits dest: appendsD [OF assms(1)])

lemma encode_formats_ok:
  assumes "appends addp" and "appends adda" and "96 \<le> d"
    and "encode_formats addp adda m fs d med w = (True, med', w')"
  shows "med' = med\<lparr>m_payloads := m_payloads med @ map (showi \<circ> fst) (assigned m (ptr_prefix fs) d),
    a_attributes := a_attributes med @ map rtpmap_attr (assigned m (ptr_prefix fs) d)\<rparr>"
  using assms(3,4)
proof (induction fs arbitrary: d med w rule: ptr_prefix.induct)
  case (1 f fs)
  obtain t d1 where t: "rtpformat2type f d m = (t, d1)" by fastforce
  then have d1: "96 \<le> d1" "0 \<le> t"
    using 1(2) static_type_range [of m f] by (auto simp: rtpformat2type_static split: option.splits)
  show ?case
  proof (cases "t = 127")
    case True
    with 1 t d1 show ?thesis by simp
  next
    case False
    obtain n payloads w1 where p: "addp (m_payloads med) (showi t) (step w) = (n, payloads, w1)"
      by (metis prod_cases3)
    let ?m1 = "med\<lparr>m_payloads := payloads\<rparr>"
    obtain ok m2 w2 where r: "sdp_media_add_attribute adda ?m1 t ''rtpmap'' f w1 = (ok, m2, w2)"
      by (metis prod_cases3)
    from 1(3) t False p r have ok: "0 < n" "ok" "encode_formats addp adda m fs d1 m2 w2 = (True, med', w')"
      by (auto simp: sys_def Let_def split: if_splits)
    have "payloads = m_payloads med @ [showi t]"
      using appendsD [OF assms(1) p ok(1)] .
    moreover have "m2 = ?m1\<lparr>a_attributes := a_attributes med @ [rtpmap_attr (t, f)]\<rparr>"
      using add_attribute_ok [OF assms(2), of ?m1 t "''rtpmap''" f w1 m2 w2] r ok(2) d1(2)
      by (simp add: rtpmap_attr_def)
    ultimately show ?thesis
      using 1(1) [OF d1(1) ok(3)] t False by simp
  qed
qed simp_all

lemma encode_media_ok:
  assumes "appends addp" and "appends adda"
    and "encode_media addp adda media port formats w = (True, med, w')"
  shows "m_media med = Some media \<and> m_port med = Some (showd (unat port)) \<and> m_proto med = Some ''RTP/AVP'' \<and>
    m_payloads med = map (showi \<circ> fst) (assigned (media_kind media) (ptr_prefix (vec formats)) 96) \<and>
    a_attributes med = map rtpmap_attr (assigned (media_kind media) (ptr_prefix (vec formats)) 96) @
      [rtpmap_attr (127, ''telephone-event/8000''),
       \<lparr>a_att_field = Some ''fmtp'', a_att_value = Some (showi 127 @ '' '' @ ''0-15'')\<rparr>]"
proof -
  obtain ok1 m1 w1 where h: "encode_header sdp_media_zero media port w = (ok1, m1, w1)"
    by (metis prod_cases3)
  obtain ok2 m2 w2 where f: "encode_formats addp adda (media_kind media) (vec formats)
      RTP_PAYLOAD_DYNAMIC_TYPE m1 w1 = (ok2, m2, w2)"
    by (metis prod_cases3)
  obtain ok3 m3 w3 where t: "sdp_media_add_attribute adda m2 127 ''rtpmap'' ''telephone-event/8000'' w2 = (ok3, m3, w3)"
    by (metis prod_cases3)
  have ok: "ok1" "ok2" "ok3" "sdp_media_add_attribute adda m3 127 ''fmtp'' ''0-15'' w3 = (True, med, w')"
    using assms(3) h f t by (auto simp: encode_media_def encode_tail_def split: if_splits)
  have m1: "m1 = \<lparr>m_media = Some media, m_port = Some (showd (unat port)), m_proto = Some ''RTP/AVP'',
      m_payloads = [], a_attributes = []\<rparr>"
    using h ok(1) by (auto simp: encode_header_def sdp_media_zero_def Let_def sys_def split: if_splits)
  note m2 = encode_formats_ok [OF assms(1,2) _ f [unfolded eqTrueI [OF ok(2)]]]
  note m3 = add_attribute_ok [OF assms(2) t [unfolded eqTrueI [OF ok(3)]]]
  note m4 = add_attribute_ok [OF assms(2) ok(4)]
  show ?thesis
    using m1 m2 m3 m4 by (simp add: RTP_PAYLOAD_DYNAMIC_TYPE_def rtpmap_attr_def)
qed

text \<open>A format as the parser accepts it back.\<close>

definition plain_format :: "char list \<Rightarrow> bool" where
  "plain_format f \<longleftrightarrow> f \<noteq> [] \<and> \<not> isspace (hd f)"

lemma rtpmap_format_attr:
  "0 \<le> t \<Longrightarrow> plain_format f \<Longrightarrow> rtpmap_format (rtpmap_attr (t, f)) = Some f"
  using after_chr_append [of "CHR '' ''" "showi t" f] showi_no_space [of t]
  by (cases f) (auto simp: rtpmap_format_def rtpmap_attr_def plain_format_def Let_def)

lemma extract_attributes_ok:
  "wf_ptrv v \<Longrightarrow> extract_attributes as v w = (True, v', w') \<Longrightarrow>
   wf_ptrv v' \<and> slots v' = slots v @ map Ptr (List.map_filter rtpmap_format as)"
proof (induction as arbitrary: v w)
  case (Cons a as)
  show ?case
  proof (cases "rtpmap_format a")
    case None
    with Cons show ?thesis by (simp add: List.map_filter_def)
  next
    case (Some f)
    obtain i v1 w1 where p: "strvpush v f w = (i, v1, w1)" by (metis prod_cases3)
    with Cons.prems(2) Some have i: "\<not> i < 0" "extract_attributes as v1 w1 = (True, v', w')"
      by (auto split: if_splits)
    from p i(1) have q: "ptrvpush v f (step w) = (i, v1, w1)"
      by (auto simp: strvpush_def sys_def split: if_splits)
    from ptrvpush_spec [OF Cons.prems(1) q] i(1) have "wf_ptrv v1" "slots v1 = slots v @ [Ptr f]"
      by (auto split: if_splits)
    with Cons.IH [OF _ i(2)] Some show ?thesis by (simp add: List.map_filter_def)
  qed
qed (simp add: List.map_filter_def)

lemma assigned_formats:
  "length fs + nat (d - 96) \<le> 31 \<Longrightarrow> 96 \<le> d \<Longrightarrow>
   map snd (assigned m fs d) = filter (\<lambda>f. static_type m f \<noteq> Some 127) fs"
proof (induction fs arbitrary: d)
  case (Cons f fs)
  show ?case
  proof (cases "static_type m f")
    case None
    then have "rtpformat2type f d m = (d, d + 1)" by (simp add: rtpformat2type_static)
    moreover have "d \<noteq> 127" using Cons.prems by auto
    ultimately show ?thesis using Cons.IH [of "d + 1"] Cons.prems None by simp
  next
    case (Some t)
    then have "rtpformat2type f d m = (t, d)" by (simp add: rtpformat2type_static)
    then show ?thesis using Cons.IH [of d] Cons.prems Some by simp
  qed
qed simp

lemma find_127: "find_type audio_format_maps ''telephone-event/8000'' = Some 127"
  by (simp add: audio_format_maps_def)

lemma static_127: "static_type m f = Some 127 \<longleftrightarrow> m = 0 \<and> f = ''telephone-event/8000''"
proof -
  have "find_type audio_format_maps f = Some 127 \<longleftrightarrow> f = ''telephone-event/8000''"
    using find_type_range(1) [of f 127] find_127 by auto
  moreover have "find_type video_format_maps f \<noteq> Some 127"
    using find_type_range(2) [of f 127] by auto
  ultimately show ?thesis by (simp add: static_type_def)
qed

lemma map_filter_rtpmap:
  "\<forall>(t, f) \<in> set xs. 0 \<le> t \<and> plain_format f \<Longrightarrow>
   List.map_filter rtpmap_format (map rtpmap_attr xs @ ys) = map snd xs @ List.map_filter rtpmap_format ys"
  by (induction xs) (auto simp: List.map_filter_def rtpmap_format_attr)

lemma encode_media_formats_ok:
  assumes "appends addm" and "port \<noteq> 0"
    and "encode_media_formats addp adda addm medias media port formats w = (0, medias', w')"
  shows "\<exists>med w1. encode_media addp adda media port formats (step w) = (True, med, w1) \<and>
    medias' = medias @ [med]"
proof -
  obtain ok med w1 where e: "encode_media addp adda media port formats (step w) = (ok, med, w1)"
    by (metis prod_cases3)
  obtain n ms w2 where a: "addm medias med w1 = (n, ms, w2)" by (metis prod_cases3)
  from assms(2,3) e a have "ok" "0 < n" "medias' = ms"
    by (auto simp: encode_media_formats_def sys_def Let_def split: if_splits)
  with e appendsD [OF assms(1) a] show ?thesis by simp
qed

lemma extract_one_audio:
  assumes "m_media med = Some ''audio''" and "m_proto med = Some ''RTP/AVP''"
    and "extract_media_formats (Some [med]) True False w = (0, Some va, vv, w')"
  shows "slots va = map Ptr (List.map_filter rtpmap_format (a_attributes med))"
proof -
  obtain ok v w1 where e: "extract_attributes (a_attributes med) ptrv_empty w = (ok, v, w1)"
    by (metis prod_cases3)
  with assms have "ok" "v = va"
    by (auto simp: extract_media_formats_def Let_def split: if_splits)
  with e extract_attributes_ok [of ptrv_empty "a_attributes med" w va w1] show ?thesis by simp
qed

definition list_append_add :: "('a, 'w) list_add" where
  "list_append_add l x w = (int (length l) + 1, l @ [x], w)"

lemma appends_list_append_add: "appends list_append_add"
  by (auto simp: appends_def list_append_add_def)

definition sample_formats :: "char list ptrv" where
  "sample_formats = \<lparr>vec = [Ptr ''PCMU/8000'', Ptr ''opus/48000'', Null], plen = 2\<rparr>"

definition sample_medias :: "sdp_media list" where
  "sample_medias = [\<lparr>m_media = Some ''audio'', m_port = Some ''5004'', m_proto = Some ''RTP/AVP'',
     m_payloads = [''0'', ''96''],
     a_attributes = [rtpmap_attr (0, ''PCMU/8000''), rtpmap_attr (96, ''opus/48000''),
       rtpmap_attr (127, ''telephone-event/8000''),
       \<lparr>a_att_field = Some ''fmtp'', a_att_value = Some ''127 0-15''\<rparr>]\<rparr>]"

lemma encode_sample:
  "\<exists>w'. encode_media_formats list_append_add list_append_add list_append_add [] ''audio'' 5004 sample_formats
     (calm :: unit world) = (0, sample_medias, w')"
proof -
  have "rtpformat2type ''PCMU/8000'' 96 0 = (0, 96)" "rtpformat2type ''opus/48000'' 96 0 = (96, 97)"
    by (simp_all add: rtpformat2type_def audio_format_maps_def)
  moreover have "showi 0 = ''0''" "showi 96 = ''96''" "showi 127 = ''127''" "showd (unat (5004 :: u16)) = ''5004''"
    by code_simp+
  ultimately show ?thesis
    by (simp add: encode_media_formats_def encode_media_def encode_header_def encode_tail_def media_kind_def
        sample_formats_def sample_medias_def sdp_media_add_attribute_def sys_def list_append_add_def
        rtpmap_attr_def sdp_media_zero_def RTP_PAYLOAD_DYNAMIC_TYPE_def)
qed

lemma extract_sample:
  "\<exists>va vv w'. extract_media_formats (Some sample_medias) True False (calm :: unit world) = (0, Some va, vv, w')"
proof -
  have "rtpmap_format (rtpmap_attr (0, ''PCMU/8000'')) = Some ''PCMU/8000''"
    "rtpmap_format (rtpmap_attr (96, ''opus/48000'')) = Some ''opus/48000''"
    "rtpmap_format (rtpmap_attr (127, ''telephone-event/8000'')) = Some ''telephone-event/8000''"
    by (rule rtpmap_format_attr; simp add: plain_format_def isspace_def)+
  then show ?thesis
    by (simp add: extract_media_formats_def sample_medias_def rtpmap_format_def [of "\<lparr>a_att_field = _, a_att_value = _\<rparr>"]
        strvpush_def ptrvpush_def ptrvgrow_def ptrvrealloc_def sys_def Let_def)
qed

section \<open>Properties\<close>

text \<open>An audio or video description that \<open>encode_media_formats\<close> adds to an offer has one payload
  type per format, and the payload types of different formats are different: static types come
  from the tables, all others count up from 96 and never meet a static one.\<close>

theorem encode_payloads_distinct:
  assumes "appends addp" and "appends adda" and "appends addm" and "port \<noteq> 0"
    and "distinct (ptr_prefix (vec formats))"
    and "encode_media_formats addp adda addm medias media port formats w = (0, medias', w')"
  shows "\<exists>med. medias' = medias @ [med] \<and> distinct (m_payloads med) \<and>
    (\<forall>f \<in> set (ptr_prefix (vec formats)). length (ptr_prefix (vec formats)) \<le> 31 \<longrightarrow>
      static_type (media_kind media) f \<noteq> Some 127 \<longrightarrow>
      (\<exists>p \<in> set (m_payloads med). \<lparr>a_att_field = Some ''rtpmap'', a_att_value = Some (p @ '' '' @ f)\<rparr>
         \<in> set (a_attributes med)))"
proof -
  obtain med w1 where e: "encode_media addp adda media port formats (step w) = (True, med, w1)"
    and m: "medias' = medias @ [med]"
    using encode_media_formats_ok [OF assms(3,4,6)] by blast
  let ?as = "assigned (media_kind media) (ptr_prefix (vec formats)) 96"
  note ok = encode_media_ok [OF assms(1,2) e]
  have "distinct (map fst ?as)" using assigned_distinct [OF assms(5)] by simp
  moreover have "inj_on showi (fst ` set ?as)"
    using assigned_types [of _ _ "media_kind media" _ 96] by (force intro!: inj_onI showi_inj)
  ultimately have "distinct (m_payloads med)"
    using ok by (simp add: distinct_map comp_inj_on flip: map_map)
  moreover have "\<exists>p \<in> set (m_payloads med). \<lparr>a_att_field = Some ''rtpmap'', a_att_value = Some (p @ '' '' @ f)\<rparr>
         \<in> set (a_attributes med)"
    if f: "f \<in> set (ptr_prefix (vec formats))" "length (ptr_prefix (vec formats)) \<le> 31"
      "static_type (media_kind media) f \<noteq> Some 127" for f
  proof -
    have "f \<in> set (map snd ?as)" using f by (simp add: assigned_formats)
    then obtain t where "(t, f) \<in> set ?as" by auto
    with ok show ?thesis by (force simp: rtpmap_attr_def)
  qed
  ultimately show ?thesis using m by blast
qed

theorem encode_payloads_distinct_witness:
  "\<exists>med. sample_medias = [] @ [med] \<and> distinct (m_payloads med)"
proof -
  obtain w' where e: "encode_media_formats list_append_add list_append_add list_append_add [] ''audio'' 5004
      sample_formats (calm :: unit world) = (0, sample_medias, w')"
    using encode_sample by blast
  show ?thesis
    using encode_payloads_distinct [OF appends_list_append_add appends_list_append_add appends_list_append_add
      _ _ e]
    by (auto simp: sample_formats_def)
qed

text \<open>C38. The formats of an audio offer survive the way through SDP: what \<open>encode_media_formats\<close> writes,
  \<open>extract_media_formats\<close> reads back in the same order, with the telephone events that are always
  offered at the end; for at most 31 formats, as a dynamic type 127 is taken for the telephone events.\<close>

theorem sdp_formats_roundtrip:
  assumes "appends addp" and "appends adda" and "appends addm" and "port \<noteq> 0"
    and "\<forall>f \<in> set (ptr_prefix (vec formats)). plain_format f" and "length (ptr_prefix (vec formats)) \<le> 31"
    and "encode_media_formats addp adda addm [] ''audio'' port formats w = (0, medias, w1)"
    and "extract_media_formats (Some medias) True False w2 = (0, Some va, vv, w3)"
  shows "slots va = map Ptr (filter (\<lambda>f. f \<noteq> ''telephone-event/8000'') (ptr_prefix (vec formats)) @
    [''telephone-event/8000''])"
proof -
  obtain med w' where e: "encode_media addp adda ''audio'' port formats (step w) = (True, med, w')"
    and m: "medias = [med]"
    using encode_media_formats_ok [OF assms(3,4,7)] by auto
  let ?as = "assigned 0 (ptr_prefix (vec formats)) 96"
  note ok = encode_media_ok [OF assms(1,2) e, simplified media_kind_def, simplified]
  have plain: "\<forall>(t, f) \<in> set ?as. 0 \<le> t \<and> plain_format f"
    using assigned_types [of _ _ 0 _ 96] assms(5) by fastforce
  have te: "rtpmap_format (rtpmap_attr (127, ''telephone-event/8000'')) = Some ''telephone-event/8000''"
    by (rule rtpmap_format_attr) (simp_all add: plain_format_def isspace_def)
  have "slots va = map Ptr (List.map_filter rtpmap_format (a_attributes med))"
    using extract_one_audio [of med w2 va vv w3] ok assms(8) m by simp
  also have "List.map_filter rtpmap_format (a_attributes med) = map snd ?as @ [''telephone-event/8000'']"
  proof -
    have "List.map_filter rtpmap_format [rtpmap_attr (127, ''telephone-event/8000''),
        \<lparr>a_att_field = Some ''fmtp'', a_att_value = Some (showi 127 @ '' '' @ ''0-15'')\<rparr>] = [''telephone-event/8000'']"
      using te by (simp add: List.map_filter_def rtpmap_format_def)
    with ok show ?thesis by (simp add: map_filter_rtpmap [OF plain])
  qed
  also have "map snd ?as = filter (\<lambda>f. f \<noteq> ''telephone-event/8000'') (ptr_prefix (vec formats))"
    using assigned_formats [of "ptr_prefix (vec formats)" 96 0] assms(6) by (simp add: static_127)
  finally show ?thesis .
qed

theorem sdp_formats_roundtrip_witness:
  "\<exists>va vv w3. extract_media_formats (Some sample_medias) True False (calm :: unit world) = (0, Some va, vv, w3) \<and>
    slots va = map Ptr [''PCMU/8000'', ''opus/48000'', ''telephone-event/8000'']"
proof -
  obtain w' where e: "encode_media_formats list_append_add list_append_add list_append_add [] ''audio'' 5004
      sample_formats (calm :: unit world) = (0, sample_medias, w')"
    using encode_sample by blast
  obtain va vv w3 where x: "extract_media_formats (Some sample_medias) True False (calm :: unit world) =
      (0, Some va, vv, w3)"
    using extract_sample by blast
  have "slots va = map Ptr (filter (\<lambda>f. f \<noteq> ''telephone-event/8000'') (ptr_prefix (vec sample_formats)) @
    [''telephone-event/8000''])"
    by (rule sdp_formats_roundtrip [OF appends_list_append_add appends_list_append_add
          appends_list_append_add _ _ _ e x])
      (auto simp: sample_formats_def plain_format_def isspace_def)
  with x show ?thesis by (auto simp: sample_formats_def)
qed

end
