(* ===== verification/Osip.thy ===== *)
theory Osip
  imports Sdp
begin

text \<open>
  \<^verbatim>\<open>utils/osip.h\<close> and \<^verbatim>\<open>utils/osip.c\<close>: SIP messages made from other messages and from a
  dialog, and the match of a request with a transaction.

  The OSIP objects have the fields that the source reads and writes; a null pointer is \<open>None\<close>.
  A fallible OSIP call (a clone, a setter, an allocation) draws its success from the world, and
  \<open>build\<close> runs a sequence of such calls up to the first failure, where the source frees the
  message. The error codes and what OSIP computes from strings (reason phrases, parsed vias and
  bodies, the comparison of headers) are parameters. The functions that hand a message to a
  transaction are with the sessions.
\<close>

section \<open>Objects\<close>

record osip_uri =
  u_text :: "char list"
  u_username :: "char list option"
  u_lr :: bool

record osip_from =
  g_url :: osip_uri
  g_tag :: "char list option"

record osip_via =
  v_text :: "char list"
  v_branch :: "char list option option"

record osip_message =
  q_method :: "char list option"
  q_status :: int
  q_reason :: "char list option"
  q_req_uri :: "osip_uri option"
  q_vias :: "osip_via list"
  q_from :: "osip_from option"
  q_to :: "osip_from option"
  q_call_id :: "char list option"
  q_cseq :: "(char list option \<times> char list option) option"
  q_contacts :: "osip_uri list"
  q_routes :: "osip_uri list"
  q_content_type :: "(char list option \<times> char list option) option"
  q_headers :: "(char list \<times> char list) list"
  q_bodies :: "char list list"

definition osip_message_zero :: osip_message where
  "osip_message_zero = \<lparr>q_method = None, q_status = 0, q_reason = None, q_req_uri = None, q_vias = [],
     q_from = None, q_to = None, q_call_id = None, q_cseq = None, q_contacts = [], q_routes = [],
     q_content_type = None, q_headers = [], q_bodies = []\<rparr>"

record osip_dialog =
  o_local_uri :: "osip_from option"
  o_remote_uri :: "osip_from option"
  o_remote_contact_uri :: "osip_uri option"
  o_call_id :: "char list option"
  o_local_cseq :: int
  o_route_set :: "osip_uri list"
  o_local_tag :: "char list option"
  o_closed :: bool

definition OSIP_SUCCESS :: int where
  "OSIP_SUCCESS = 0"

text \<open>The codes that the source returns by name.\<close>

record osip_codes =
  NOMEM :: int
  SYNTAXERROR :: int
  UNDEFINED_ERROR :: int
  BADPARAMETER :: int

definition codes_ok :: "osip_codes \<Rightarrow> bool" where
  "codes_ok k \<longleftrightarrow> NOMEM k \<noteq> 0 \<and> SYNTAXERROR k \<noteq> 0 \<and> UNDEFINED_ERROR k \<noteq> 0 \<and> BADPARAMETER k \<noteq> 0"

section \<open>Sequences of fallible calls\<close>

fun build :: "('m \<Rightarrow> 'm) list \<Rightarrow> 'm \<Rightarrow> 'p world \<Rightarrow> 'm option \<times> 'p world" where
  "build [] m w = (Some m, w)"
| "build (f # fs) m w = (let (ok, w) = sys w in if \<not> ok then (None, w) else build fs (f m) w)"

lemma build_Some: "build fs m w = (Some m', w') \<Longrightarrow> m' = fold (\<lambda>f. f) fs m"
  by (induction fs arbitrary: m w) (auto simp: sys_def split: if_splits)

lemma build_ok:
  "\<forall>i. w_ok w i \<Longrightarrow> \<exists>w'. build fs m w = (Some (fold (\<lambda>f. f) fs m), w') \<and> same_env w w' \<and> w_sent w' = w_sent w"
proof (induction fs arbitrary: m w)
  case (Cons f fs)
  from Cons.IH [of "step w" "f m"] Cons.prems
  obtain w' where "build fs (f m) (step w) = (Some (fold (\<lambda>f. f) fs (f m)), w')" "same_env (step w) w'"
      "w_sent w' = w_sent w" by auto
  with Cons.prems show ?case by (simp add: sys_def same_env_def)
qed simp

lemma build_env [world]: "build fs m w = (r, w') \<Longrightarrow> same_env w w' \<and> w_sent w' = w_sent w"
  by (induction fs arbitrary: m w) (fastforce simp: sys_def same_env_def split: if_splits)+

section \<open>Bodies\<close>

definition tolower :: "char \<Rightarrow> char" where
  "tolower c = (if 65 \<le> (of_char c :: nat) \<and> (of_char c :: nat) \<le> 90 then char_of ((of_char c :: nat) + 32) else c)"

definition strcasecmp_same :: "char list \<Rightarrow> char list \<Rightarrow> bool" where
  "strcasecmp_same a b \<longleftrightarrow> map tolower a = map tolower b"

definition osip_message_has_sdp :: "osip_message \<Rightarrow> bool" where
  "osip_message_has_sdp message \<longleftrightarrow>
     (case q_content_type message of
        Some (Some type, Some subtype) \<Rightarrow>
          (strcasecmp_same type ''multipart'' \<or>
           strcasecmp_same type ''application'' \<and> strcasecmp_same subtype ''sdp'') \<and>
          0 < length (q_bodies message)
      | _ \<Rightarrow> False)"

text \<open>The loop of \<open>osip_message_get_sdp\<close> over the bodies; \<open>parse\<close> is \<open>sdp_message_parse\<close>.\<close>

fun get_sdp ::
  "osip_codes \<Rightarrow> (char list \<Rightarrow> 'a option) \<Rightarrow> char list list \<Rightarrow> 'p world \<Rightarrow> int \<times> 'a option \<times> 'p world"
where
  "get_sdp k parse [] w = (UNDEFINED_ERROR k, None, w)"
| "get_sdp k parse (body # bodies) w =
     (let (ok, w) = sys w in
      if \<not> ok then (NOMEM k, None, w)
      else let (ok, w) = sys w in
        case (if ok then parse body else None) of
          Some sdp \<Rightarrow> (OSIP_SUCCESS, Some sdp, w)
        | None \<Rightarrow> get_sdp k parse bodies w)"

definition osip_message_get_sdp ::
  "osip_codes \<Rightarrow> (char list \<Rightarrow> 'a option) \<Rightarrow> osip_message \<Rightarrow> 'p world \<Rightarrow> int \<times> 'a option \<times> 'p world"
where
  "osip_message_get_sdp k parse message w = get_sdp k parse (q_bodies message) w"

section \<open>Dates\<close>

text \<open>\<open>gmtime_r\<close> and \<open>strftime\<close> with \<open>%a, %d %b %Y %H:%M:%S %Z\<close>: year, month and day of a day number
  are counted from 1 March of the year 0.\<close>

definition civil :: "int \<Rightarrow> int \<times> int \<times> int" where
  "civil days =
     (let z = days + 719468; era = z div 146097; doe = z mod 146097;
          yoe = (doe - doe div 1460 + doe div 36524 - doe div 146096) div 365;
          doy = doe - (365 * yoe + yoe div 4 - yoe div 100);
          mp = (5 * doy + 2) div 153;
          d = doy - (153 * mp + 2) div 5 + 1;
          m = (if mp < 10 then mp + 3 else mp - 9)
      in (yoe + era * 400 + (if m \<le> 2 then 1 else 0), m, d))"

definition pad2 :: "int \<Rightarrow> char list" where
  "pad2 i = (if i < 10 then CHR ''0'' # showi i else showi i)"

definition weekdays :: "char list list" where
  "weekdays = [''Sun'', ''Mon'', ''Tue'', ''Wed'', ''Thu'', ''Fri'', ''Sat'']"

definition months :: "char list list" where
  "months = [''Jan'', ''Feb'', ''Mar'', ''Apr'', ''May'', ''Jun'', ''Jul'', ''Aug'', ''Sep'', ''Oct'', ''Nov'', ''Dec'']"

definition show_date :: "int \<Rightarrow> char list" where
  "show_date now =
     (let days = now div 86400; secs = now mod 86400; (y, m, d) = civil days
      in weekdays ! nat ((days + 4) mod 7) @ '', '' @ pad2 d @ '' '' @ months ! nat (m - 1) @ '' '' @ showi y @
         '' '' @ pad2 (secs div 3600) @ '':'' @ pad2 (secs mod 3600 div 60) @ '':'' @ pad2 (secs mod 60) @
         '' GMT'')"

definition set_header :: "char list \<Rightarrow> char list \<Rightarrow> osip_message \<Rightarrow> osip_message" where
  "set_header name val m = m\<lparr>q_headers := q_headers m @ [(name, val)]\<rparr>"

definition osip_message_set_now :: "osip_message \<Rightarrow> 'p world \<Rightarrow> osip_message option \<times> 'p world" where
  "osip_message_set_now sip w =
     (let (now, w) = sys_time w in build [set_header ''Date'' (show_date (fst now))] sip w)"

section \<open>Responses\<close>

definition osip_message_set_status_code_and_reason_phrase ::
  "(int \<Rightarrow> char list) \<Rightarrow> int \<Rightarrow> osip_message \<Rightarrow> osip_message"
where
  "osip_message_set_status_code_and_reason_phrase reason status sip =
     sip\<lparr>q_status := status, q_reason := Some (reason status)\<rparr>"

definition osip_message_response ::
  "osip_codes \<Rightarrow> (int \<Rightarrow> char list) \<Rightarrow> osip_message \<Rightarrow> int \<Rightarrow> char list option \<Rightarrow> 'p world \<Rightarrow>
     int \<times> osip_message option \<times> 'p world"
where
  "osip_message_response k reason request status_code ua w =
     (if q_from request = None then (SYNTAXERROR k, None, w)
      else if q_to request = None then (SYNTAXERROR k, None, w)
      else if q_call_id request = None then (SYNTAXERROR k, None, w)
      else if q_cseq request = None then (SYNTAXERROR k, None, w)
      else let (ok, w) = sys w in
        if \<not> ok then (NOMEM k, None, w)
        else case build
             [osip_message_set_status_code_and_reason_phrase reason status_code,
              (\<lambda>m. m\<lparr>q_vias := q_vias request\<rparr>),
              (\<lambda>m. m\<lparr>q_from := q_from request\<rparr>),
              (\<lambda>m. m\<lparr>q_to := q_to request\<rparr>),
              (\<lambda>m. m\<lparr>q_call_id := q_call_id request\<rparr>),
              (\<lambda>m. m\<lparr>q_cseq := q_cseq request\<rparr>),
              (\<lambda>m. m\<lparr>q_contacts := q_contacts request\<rparr>)] osip_message_zero w of
            (None, w) \<Rightarrow> (NOMEM k, None, w)
          | (Some m, w) \<Rightarrow>
              (case osip_message_set_now m w of
                 (None, w) \<Rightarrow> (NOMEM k, None, w)
               | (Some m, w) \<Rightarrow>
                   (case build (set_header ''Max-Forwards'' ''70'' #
                       (case ua of None \<Rightarrow> []
                        | Some ua \<Rightarrow> [set_header ''User-Agent'' ua, set_header ''Server'' ua])) m w of
                      (None, w) \<Rightarrow> (NOMEM k, None, w)
                    | (Some m, w) \<Rightarrow> (OSIP_SUCCESS, Some m, w))))"

section \<open>Requests in a dialog\<close>

text \<open>The loop that adds routes: the source compares the result of \<open>osip_list_add\<close> with \<open>OSIP_SUCCESS\<close>.\<close>

fun add_routes ::
  "(osip_uri, 'p world) list_add \<Rightarrow> osip_uri list \<Rightarrow> osip_message \<Rightarrow> 'p world \<Rightarrow> osip_message option \<times> 'p world"
where
  "add_routes add [] m w = (Some m, w)"
| "add_routes add (route # routes) m w =
     (let (ok, w) = sys w in
      if \<not> ok then (None, w)
      else let (n, rs, w) = add (q_routes m) route w in
        if n \<noteq> OSIP_SUCCESS then (None, w) else add_routes add routes (m\<lparr>q_routes := rs\<rparr>) w)"

text \<open>The request URI and the routes: an empty route set, a first route with \<open>lr\<close>, or one without.\<close>

definition request_routes ::
  "(osip_uri, 'p world) list_add \<Rightarrow> osip_dialog \<Rightarrow> osip_message \<Rightarrow> 'p world \<Rightarrow> osip_message option \<times> 'p world"
where
  "request_routes add dialog m w =
     (case o_route_set dialog of
        [] \<Rightarrow> build [\<lambda>m. m\<lparr>q_req_uri := o_remote_contact_uri dialog\<rparr>] m w
      | route # rest \<Rightarrow>
          if u_lr route then
            (case build [\<lambda>m. m\<lparr>q_req_uri := o_remote_contact_uri dialog\<rparr>] m w of
               (None, w) \<Rightarrow> (None, w)
             | (Some m, w) \<Rightarrow> add_routes add (route # rest) m w)
          else
            (case build [\<lambda>m. m\<lparr>q_req_uri := Some route\<rparr>] m w of
               (None, w) \<Rightarrow> (None, w)
             | (Some m, w) \<Rightarrow>
                 (case add_routes add rest m w of
                    (None, w) \<Rightarrow> (None, w)
                  | (Some m, w) \<Rightarrow>
                      let (ok, w) = sys w in
                      if \<not> ok then (None, w)
                      else add_routes add [the (o_remote_contact_uri dialog)] m w)))"

definition next_cseq :: "char list \<Rightarrow> osip_dialog \<Rightarrow> osip_dialog" where
  "next_cseq meth dialog =
     (if meth \<noteq> ''ACK'' then dialog\<lparr>o_local_cseq := o_local_cseq dialog + 1\<rparr> else dialog)"

definition osip_message_request ::
  "osip_codes \<Rightarrow> (char list \<Rightarrow> osip_via) \<Rightarrow> (osip_uri, 'p world) list_add \<Rightarrow> osip_dialog \<Rightarrow> char list \<Rightarrow>
     char list option \<Rightarrow> 'p world \<Rightarrow> int \<times> osip_message option \<times> osip_dialog \<times> 'p world"
where
  "osip_message_request k via add dialog meth ua w =
     (if o_local_uri dialog = None then (SYNTAXERROR k, None, dialog, w)
      else if o_remote_uri dialog = None then (SYNTAXERROR k, None, dialog, w)
      else if o_remote_contact_uri dialog = None then (SYNTAXERROR k, None, dialog, w)
      else if o_call_id dialog = None then (SYNTAXERROR k, None, dialog, w)
      else let (ok, w) = sys w in
        if \<not> ok then (NOMEM k, None, dialog, w)
        else case build [\<lambda>m. m\<lparr>q_method := Some meth\<rparr>] osip_message_zero w of
            (None, w) \<Rightarrow> (NOMEM k, None, dialog, w)
          | (Some m, w) \<Rightarrow>
            let (r, w) = sys_rand w in
            case build
              [(\<lambda>m. m\<lparr>q_vias := q_vias m @
                  [via (''SIP/2.0/UDP 0:0;rport;branch=z9hG4bK'' @ showd (unat r))]\<rparr>),
               (\<lambda>m. m\<lparr>q_from := o_local_uri dialog\<rparr>),
               (\<lambda>m. m\<lparr>q_to := o_remote_uri dialog\<rparr>),
               (\<lambda>m. m\<lparr>q_call_id := o_call_id dialog\<rparr>),
               (\<lambda>m. m\<lparr>q_cseq := Some (None, None)\<rparr>),
               (\<lambda>m. m\<lparr>q_cseq := Some (Some (showi (o_local_cseq dialog)), None)\<rparr>),
               (\<lambda>m. m\<lparr>q_cseq := Some (Some (showi (o_local_cseq dialog)), Some meth)\<rparr>)] m w of
              (None, w) \<Rightarrow> (NOMEM k, None, dialog, w)
            | (Some m, w) \<Rightarrow>
              let dialog = next_cseq meth dialog
              in case request_routes add dialog m w of
                  (None, w) \<Rightarrow> (NOMEM k, None, dialog, w)
                | (Some m, w) \<Rightarrow>
                  (case osip_message_set_now m w of
                     (None, w) \<Rightarrow> (NOMEM k, None, dialog, w)
                   | (Some m, w) \<Rightarrow>
                       (case build (set_header ''Max-Forwards'' ''70'' #
                           (case ua of None \<Rightarrow> [] | Some ua \<Rightarrow> [set_header ''User-Agent'' ua])) m w of
                          (None, w) \<Rightarrow> (NOMEM k, None, dialog, w)
                        | (Some m, w) \<Rightarrow> (OSIP_SUCCESS, Some m, dialog, w))))"

section \<open>Transactions and dialogs\<close>

record osip_match =
  same_call_id :: "char list option \<Rightarrow> char list option \<Rightarrow> bool"
  same_tag :: "osip_from option \<Rightarrow> osip_from option \<Rightarrow> bool"
  same_via :: "osip_via \<Rightarrow> osip_via \<Rightarrow> bool"

record tr_headers =
  th_topvia :: osip_via
  th_callid :: "char list option"
  th_to :: "osip_from option"
  th_from :: "osip_from option"

definition osip_transaction_match :: "osip_match \<Rightarrow> tr_headers \<Rightarrow> osip_message \<Rightarrow> bool" where
  "osip_transaction_match x tr message =
     (let tr_br = v_branch (th_topvia tr) in
      case q_vias message of
        [] \<Rightarrow> False
      | via # _ \<Rightarrow>
          let msg_br = v_branch via in
          if (tr_br \<noteq> None) \<noteq> (msg_br \<noteq> None) then False
          else if tr_br \<noteq> None then
            the tr_br \<noteq> None \<and> the msg_br \<noteq> None \<and> the (the tr_br) = the (the msg_br)
          else same_call_id x (th_callid tr) (q_call_id message) \<and> same_tag x (th_to tr) (q_to message) \<and>
            same_tag x (th_from tr) (q_from message) \<and> same_via x (th_topvia tr) via)"

text \<open>The new tag has at most eight characters. With a tag given, the source duplicates the string
  that it just freed: \<open>None\<close>.\<close>

definition osip_dialog_set_local_tag ::
  "osip_codes \<Rightarrow> osip_dialog \<Rightarrow> char list option \<Rightarrow> 'p world \<Rightarrow> (int \<times> osip_dialog \<times> 'p world) option"
where
  "osip_dialog_set_local_tag k dialog local_tag w =
     (case local_tag of
        None \<Rightarrow>
          (let (ok, w) = sys w in
           if \<not> ok then Some (NOMEM k, dialog\<lparr>o_local_tag := None\<rparr>, w)
           else let (r, w) = sys_rand w
             in Some (OSIP_SUCCESS, dialog\<lparr>o_local_tag := Some (take 8 (showd (unat r)))\<rparr>, w))
      | Some _ \<Rightarrow> None)"

section \<open>Lemmas\<close>

text \<open>\<open>osip_list_add\<close> returns the new number of elements.\<close>

definition counts :: "('a, 'w) list_add \<Rightarrow> bool" where
  "counts add \<longleftrightarrow> (\<forall>l x w n l' w'. add l x w = (n, l', w') \<longrightarrow>
     (n = int (length l') \<and> l' = l @ [x]) \<or> (n < 0 \<and> l' = l))"

lemma counts_nonzero: "counts add \<Longrightarrow> add l x w = (n, l', w') \<Longrightarrow> n \<noteq> 0"
  unfolding counts_def by fastforce

lemma counts_appends: "counts add \<Longrightarrow> appends add"
  unfolding counts_def appends_def by (metis length_append_singleton less_le nat_less_le not_less of_nat_0_less_iff zero_less_Suc)

lemma counts_list_append_add: "counts list_append_add"
  by (auto simp: counts_def list_append_add_def)

lemma counts_not_success: "counts add \<Longrightarrow> add l x w \<noteq> (OSIP_SUCCESS, r)"
  using counts_nonzero [of add l x w] by (cases r) (auto simp: OSIP_SUCCESS_def)

lemma add_routes_fails: "counts add \<Longrightarrow> rs \<noteq> [] \<Longrightarrow> add_routes add rs m w = (m', w') \<Longrightarrow> m' = None"
  by (cases rs) (auto simp: sys_def Let_def counts_not_success split: if_splits prod.splits)

lemma request_routes_fails:
  assumes "counts add" and "o_route_set dialog \<noteq> []" and "request_routes add dialog m w = (m', w')"
  shows "m' = None"
  using assms
  by (auto simp: request_routes_def sys_def Let_def counts_not_success
      split: list.splits if_splits prod.splits option.splits)

lemma set_now_Some:
  "osip_message_set_now m w = (Some m', w') \<Longrightarrow> \<exists>now. m' = set_header ''Date'' (show_date now) m"
  by (auto simp: osip_message_set_now_def simp del: build.simps dest!: build_Some)

lemma set_now_env [world]: "osip_message_set_now m w = (r, w') \<Longrightarrow> same_env w w' \<and> w_sent w' = w_sent w"
  by (auto simp: osip_message_set_now_def same_env_def simp del: build.simps dest!: build_env)

lemma set_now_ok:
  "\<forall>i. w_ok w i \<Longrightarrow> \<exists>w'. osip_message_set_now m w =
     (Some (set_header ''Date'' (show_date (fst (w_now w (w_tick w)))) m), w') \<and> same_env w w' \<and> w_sent w' = w_sent w"
  using build_ok [of "step w" "[set_header ''Date'' (show_date (fst (w_now w (w_tick w))))]" m]
  by (auto simp: osip_message_set_now_def same_env_def)

lemma set_header_fields [simp]:
  "q_method (set_header n v m) = q_method m" "q_status (set_header n v m) = q_status m"
  "q_reason (set_header n v m) = q_reason m" "q_req_uri (set_header n v m) = q_req_uri m"
  "q_vias (set_header n v m) = q_vias m" "q_from (set_header n v m) = q_from m"
  "q_to (set_header n v m) = q_to m" "q_call_id (set_header n v m) = q_call_id m"
  "q_cseq (set_header n v m) = q_cseq m" "q_contacts (set_header n v m) = q_contacts m"
  "q_routes (set_header n v m) = q_routes m" "q_bodies (set_header n v m) = q_bodies m"
  "q_content_type (set_header n v m) = q_content_type m"
  "q_headers (set_header n v m) = q_headers m @ [(n, v)]"
  by (simp_all add: set_header_def)

lemma osip_message_zero_fields [simp]:
  "q_headers osip_message_zero = []" "q_vias osip_message_zero = []" "q_routes osip_message_zero = []"
  "q_bodies osip_message_zero = []"
  by (simp_all add: osip_message_zero_def)

text \<open>What a response has from its request.\<close>

definition mirrors :: "osip_message \<Rightarrow> osip_message \<Rightarrow> bool" where
  "mirrors request m \<longleftrightarrow>
     q_vias m = q_vias request \<and> q_from m = q_from request \<and> q_to m = q_to request \<and>
     q_call_id m = q_call_id request \<and> q_cseq m = q_cseq request \<and> q_contacts m = q_contacts request"

definition answerable :: "osip_message \<Rightarrow> bool" where
  "answerable request \<longleftrightarrow>
     q_from request \<noteq> None \<and> q_to request \<noteq> None \<and> q_call_id request \<noteq> None \<and> q_cseq request \<noteq> None"

lemma response_SUCCESS:
  assumes "osip_message_response k reason request status ua w = (OSIP_SUCCESS, r, w')" and "codes_ok k"
  shows "\<exists>m. r = Some m \<and> q_status m = status \<and> q_reason m = Some (reason status) \<and> mirrors request m \<and>
    q_method m = None \<and> q_bodies m = [] \<and> answerable request"
  using assms
  by (auto simp: osip_message_response_def codes_ok_def OSIP_SUCCESS_def sys_def answerable_def mirrors_def
      osip_message_set_status_code_and_reason_phrase_def Let_def osip_message_zero_def simp del: build.simps
      dest!: build_Some set_now_Some split: if_splits prod.splits option.splits)

lemma response_env [world]:
  assumes "osip_message_response k reason request status ua w = (r, m, w')"
  shows "same_env w w' \<and> w_sent w' = w_sent w"
  using assms
  by (auto simp: osip_message_response_def sys_def Let_def same_env_def simp del: build.simps
      dest!: build_env set_now_env split: if_splits prod.splits option.splits)

lemma response_calm:
  assumes "\<forall>i. w_ok w i" and "answerable request"
  shows "\<exists>m w'. osip_message_response k reason request status ua w = (OSIP_SUCCESS, Some m, w') \<and>
    same_env w w' \<and> w_sent w' = w_sent w"
proof -
  let ?f1 = "[osip_message_set_status_code_and_reason_phrase reason status,
              (\<lambda>m. m\<lparr>q_vias := q_vias request\<rparr>),
              (\<lambda>m. m\<lparr>q_from := q_from request\<rparr>),
              (\<lambda>m. m\<lparr>q_to := q_to request\<rparr>),
              (\<lambda>m. m\<lparr>q_call_id := q_call_id request\<rparr>),
              (\<lambda>m. m\<lparr>q_cseq := q_cseq request\<rparr>),
              (\<lambda>m. m\<lparr>q_contacts := q_contacts request\<rparr>)]"
  let ?f2 = "set_header ''Max-Forwards'' ''70'' #
                       (case ua of None \<Rightarrow> []
                        | Some ua \<Rightarrow> [set_header ''User-Agent'' ua, set_header ''Server'' ua])"
  obtain w1 where 1: "build ?f1 osip_message_zero (step w) = (Some (fold (\<lambda>f. f) ?f1 osip_message_zero), w1)"
    "same_env (step w) w1" "w_sent w1 = w_sent w"
    using build_ok [of "step w" ?f1 osip_message_zero] assms(1) by auto
  have "\<forall>i. w_ok w1 i" using 1(2) assms(1) by (simp add: same_env_def)
  from set_now_ok [OF this] obtain m w2 where 2:
    "osip_message_set_now (fold (\<lambda>f. f) ?f1 osip_message_zero) w1 = (Some m, w2)" "same_env w1 w2"
    "w_sent w2 = w_sent w1" by blast
  then have "\<forall>i. w_ok w2 i" using \<open>\<forall>i. w_ok w1 i\<close> by (simp add: same_env_def)
  from build_ok [OF this, of ?f2 m] obtain m' w3 where 3: "build ?f2 m w2 = (Some m', w3)" "same_env w2 w3"
    "w_sent w3 = w_sent w2" by blast
  have "same_env w w3" using 1(2) 2(2) 3(2) by (simp add: same_env_def)
  then show ?thesis
    using 1 2 3 assms by (simp add: osip_message_response_def sys_def answerable_def del: build.simps)
qed

text \<open>What a request in a dialog with an empty route set has.\<close>

definition in_dialog :: "osip_dialog \<Rightarrow> char list \<Rightarrow> osip_message \<Rightarrow> bool" where
  "in_dialog dialog meth m \<longleftrightarrow>
     q_method m = Some meth \<and> q_req_uri m = o_remote_contact_uri dialog \<and> q_from m = o_local_uri dialog \<and>
     q_to m = o_remote_uri dialog \<and> q_call_id m = o_call_id dialog \<and>
     q_cseq m = Some (Some (showi (o_local_cseq dialog)), Some meth) \<and> q_routes m = [] \<and> length (q_vias m) = 1"

definition complete :: "osip_dialog \<Rightarrow> bool" where
  "complete dialog \<longleftrightarrow> o_local_uri dialog \<noteq> None \<and> o_remote_uri dialog \<noteq> None \<and>
     o_remote_contact_uri dialog \<noteq> None \<and> o_call_id dialog \<noteq> None"

lemma request_dialog:
  "osip_message_request k via add dialog meth ua w = (r, m, dialog', w') \<Longrightarrow>
   dialog' = dialog \<or> dialog' = next_cseq meth dialog"
  by (auto simp: osip_message_request_def Let_def sys_def simp del: build.simps
      split: if_splits prod.splits option.splits)

lemma request_SUCCESS:
  assumes "osip_message_request k via add dialog meth ua w = (OSIP_SUCCESS, r, dialog', w')" and "codes_ok k"
    and "o_route_set dialog = []"
  shows "\<exists>m. r = Some m \<and> in_dialog dialog meth m \<and> dialog' = next_cseq meth dialog"
proof -
  have routes: "request_routes add (next_cseq meth dialog) m v =
      build [\<lambda>m. m\<lparr>q_req_uri := o_remote_contact_uri dialog\<rparr>] m v" for m v
    using assms(3) by (simp add: request_routes_def next_cseq_def)
  show ?thesis
    using assms(1,2)
    by (auto simp: osip_message_request_def codes_ok_def OSIP_SUCCESS_def sys_def in_dialog_def osip_message_zero_def
        Let_def routes simp del: build.simps
        dest!: build_Some set_now_Some split: if_splits prod.splits option.splits)
qed

lemma request_calm:
  assumes ok: "\<forall>i. w_ok w i" and "complete dialog" and "o_route_set dialog = []"
  shows "\<exists>m dialog' w'. osip_message_request k via add dialog meth ua w = (OSIP_SUCCESS, Some m, dialog', w')"
proof -
  have routes: "request_routes add (next_cseq meth dialog) m v =
      build [\<lambda>m. m\<lparr>q_req_uri := o_remote_contact_uri dialog\<rparr>] m v" for m v
    using assms(3) by (simp add: request_routes_def next_cseq_def)
  let ?f2 = "[(\<lambda>m. m\<lparr>q_vias := q_vias m @
                  [via (''SIP/2.0/UDP 0:0;rport;branch=z9hG4bK'' @ showd (unat (w_rnd w (Suc (Suc (w_tick w))))))]\<rparr>),
               (\<lambda>m. m\<lparr>q_from := o_local_uri dialog\<rparr>),
               (\<lambda>m. m\<lparr>q_to := o_remote_uri dialog\<rparr>),
               (\<lambda>m. m\<lparr>q_call_id := o_call_id dialog\<rparr>),
               (\<lambda>m. m\<lparr>q_cseq := Some (None, None)\<rparr>),
               (\<lambda>m. m\<lparr>q_cseq := Some (Some (showi (o_local_cseq dialog)), None)\<rparr>),
               (\<lambda>m. m\<lparr>q_cseq := Some (Some (showi (o_local_cseq dialog)), Some meth)\<rparr>)]"
  let ?w1 = "step (step (step w))" let ?m1 = "osip_message_zero\<lparr>q_method := Some meth\<rparr>"
  have 1: "build [\<lambda>m. m\<lparr>q_method := Some meth\<rparr>] osip_message_zero (step w) = (Some ?m1, step (step w))"
    "sys_rand (step (step w)) = (w_rnd w (Suc (Suc (w_tick w))), ?w1)"
    using ok by (simp_all add: sys_def sys_rand_def)
  from build_ok [of ?w1 ?f2 ?m1] ok obtain m2 w2 where 2: "build ?f2 ?m1 ?w1 = (Some m2, w2)" "\<forall>i. w_ok w2 i"
    by (auto simp: same_env_def simp del: build.simps)
  from build_ok [OF 2(2), of "[\<lambda>m. m\<lparr>q_req_uri := o_remote_contact_uri dialog\<rparr>]" m2]
  obtain m3 w3 where 3: "request_routes add (next_cseq meth dialog) m2 w2 = (Some m3, w3)" "\<forall>i. w_ok w3 i"
    using 2(2) by (auto simp: same_env_def routes simp del: build.simps)
  from set_now_ok [OF 3(2), of m3] obtain m4 w4 where 4: "osip_message_set_now m3 w3 = (Some m4, w4)" "\<forall>i. w_ok w4 i"
    using 3(2) by (auto simp: same_env_def)
  from build_ok [OF 4(2), of "set_header ''Max-Forwards'' ''70'' #
      (case ua of None \<Rightarrow> [] | Some ua \<Rightarrow> [set_header ''User-Agent'' ua])" m4]
  obtain m5 w5 where 5: "build (set_header ''Max-Forwards'' ''70'' #
      (case ua of None \<Rightarrow> [] | Some ua \<Rightarrow> [set_header ''User-Agent'' ua])) m4 w4 = (Some m5, w5)"
    by blast
  show ?thesis
    using 1 2 3 4 5 ok assms(2)
    by (simp add: osip_message_request_def complete_def sys_def Let_def del: build.simps)
qed

section \<open>Properties\<close>

text \<open>C28. A response answers its request: it has the status asked for, the reason phrase of that status, and
  the vias, sender, receiver, call ID, sequence number and contacts of the request. A request that
  lacks one of the mandatory headers is refused as a syntax error, with nothing allocated; otherwise
  the only error is a lack of memory, and there is none when no allocation fails.\<close>

theorem osip_message_response_answers:
  assumes "osip_message_response k reason request status ua w = (r, m, w')" and "codes_ok k"
  shows "(\<not> answerable request \<longrightarrow> r = SYNTAXERROR k \<and> m = None \<and> w' = w) \<and>
    (answerable request \<longrightarrow> r = NOMEM k \<and> m = None \<and> \<not> (\<forall>i. w_ok w i) \<or>
      r = OSIP_SUCCESS \<and> (\<exists>m'. m = Some m' \<and> q_status m' = status \<and> q_reason m' = Some (reason status) \<and>
        mirrors request m'))"
proof (cases "answerable request")
  case False
  then show ?thesis
    using assms(1) by (auto simp: osip_message_response_def answerable_def split: if_splits)
next
  case True
  have "r = OSIP_SUCCESS \<or> r = NOMEM k \<and> m = None"
    using assms(1) True
    by (auto simp: osip_message_response_def answerable_def Let_def simp del: build.simps
        split: if_splits prod.splits option.splits)
  moreover have "r = OSIP_SUCCESS" if "\<forall>i. w_ok w i"
    using response_calm [OF that True, of k reason status ua] assms(1) by simp
  ultimately show ?thesis
    using True response_SUCCESS [of k reason request status ua w m w'] assms codes_ok_def [of k]
    by (auto simp: OSIP_SUCCESS_def)
qed

definition sample_codes :: osip_codes where
  "sample_codes = \<lparr>NOMEM = - 4, SYNTAXERROR = - 5, UNDEFINED_ERROR = - 1, BADPARAMETER = - 2\<rparr>"

definition sample_uri :: osip_uri where
  "sample_uri = \<lparr>u_text = ''sip:0001-0101@10.0.0.1'', u_username = Some ''0001-0101'', u_lr = False\<rparr>"

definition sample_request :: osip_message where
  "sample_request = osip_message_zero\<lparr>q_method := Some ''INVITE'', q_from := Some \<lparr>g_url = sample_uri, g_tag = Some ''a''\<rparr>,
     q_to := Some \<lparr>g_url = sample_uri, g_tag = None\<rparr>, q_call_id := Some ''c1'', q_cseq := Some (Some ''1'', Some ''INVITE''),
     q_vias := [\<lparr>v_text = ''SIP/2.0/UDP 10.0.0.2'', v_branch = Some (Some ''z9hG4bK1'')\<rparr>]\<rparr>"

lemma sample_codes_ok: "codes_ok sample_codes"
  by (simp add: codes_ok_def sample_codes_def)

lemma sample_request_answerable: "answerable sample_request"
  by (simp add: answerable_def sample_request_def)

theorem osip_message_response_answers_witness:
  "\<exists>m w'. osip_message_response sample_codes (\<lambda>_. ''OK'') sample_request 200 None (calm :: unit world) =
     (OSIP_SUCCESS, Some m, w') \<and> q_status m = 200 \<and> mirrors sample_request m"
proof -
  obtain r m w' where p: "osip_message_response sample_codes (\<lambda>_. ''OK'') sample_request 200 None (calm :: unit world) =
     (r, m, w')" by (metis prod_cases3)
  show ?thesis
    using osip_message_response_answers [OF p sample_codes_ok] p sample_request_answerable by auto
qed

text \<open>A request inside a dialog without a route set is what RFC 3261 asks for: it goes to the remote
  target, has the local and remote address and the call ID of the dialog, and carries the local sequence number,
  which the dialog then advances except for an ACK; when no allocation fails it succeeds.\<close>

theorem osip_message_request_in_dialog:
  assumes "osip_message_request k via add dialog meth ua w = (r, m, dialog', w')" and "codes_ok k"
    and "complete dialog" and "o_route_set dialog = []"
  shows "(r = OSIP_SUCCESS \<and> (\<exists>m'. m = Some m' \<and> in_dialog dialog meth m') \<and> dialog' = next_cseq meth dialog) \<or>
    (r \<noteq> OSIP_SUCCESS \<and> m = None \<and> \<not> (\<forall>i. w_ok w i))"
proof (cases "r = OSIP_SUCCESS")
  case True
  then show ?thesis using request_SUCCESS assms by blast
next
  case False
  then have "m = None"
    using assms(1) by (auto simp: osip_message_request_def Let_def simp del: build.simps
        split: if_splits prod.splits option.splits)
  moreover have "\<not> (\<forall>i. w_ok w i)"
    using request_calm [OF _ assms(3,4), of w k via add meth ua] assms(1) False by auto
  ultimately show ?thesis using False by blast
qed

definition sample_osip_dialog :: osip_dialog where
  "sample_osip_dialog = \<lparr>o_local_uri = Some \<lparr>g_url = sample_uri, g_tag = Some ''b''\<rparr>,
     o_remote_uri = Some \<lparr>g_url = sample_uri, g_tag = Some ''a''\<rparr>, o_remote_contact_uri = Some sample_uri,
     o_call_id = Some ''c1'', o_local_cseq = 4, o_route_set = [], o_local_tag = Some ''b'', o_closed = False\<rparr>"

theorem osip_message_request_in_dialog_witness:
  "\<exists>m w'. osip_message_request sample_codes (\<lambda>s. \<lparr>v_text = s, v_branch = None\<rparr>) list_append_add
     sample_osip_dialog ''BYE'' None (calm :: unit world) =
     (OSIP_SUCCESS, Some m, sample_osip_dialog\<lparr>o_local_cseq := 5\<rparr>, w') \<and> q_method m = Some ''BYE''"
proof -
  obtain r m d w' where p: "osip_message_request sample_codes (\<lambda>s. \<lparr>v_text = s, v_branch = None\<rparr>) list_append_add
     sample_osip_dialog ''BYE'' None (calm :: unit world) = (r, m, d, w')" by (metis prod_cases4)
  show ?thesis
    using osip_message_request_in_dialog [OF p sample_codes_ok] p
    by (auto simp: complete_def sample_osip_dialog_def in_dialog_def next_cseq_def)
qed

text \<open>In a dialog with a route set no request can be made at all, BYE included: the function takes the
  number of elements that \<open>osip_list_add\<close> returns for an error code, so adding the first route
  header counts as a failure and the message is freed.\<close>

theorem osip_message_request_route_fails:
  assumes "counts add" and "o_route_set dialog \<noteq> []" and "codes_ok k"
    and "osip_message_request k via add dialog meth ua w = (r, m, dialog', w')"
  shows "r \<noteq> OSIP_SUCCESS \<and> m = None"
proof -
  have "o_route_set (next_cseq meth dialog) \<noteq> []" using assms(2) by (simp add: next_cseq_def)
  note f = request_routes_fails [OF assms(1) this]
  show ?thesis
    using assms(3,4)
    by (auto simp: osip_message_request_def codes_ok_def OSIP_SUCCESS_def Let_def simp del: build.simps
        dest!: f split: if_splits prod.splits option.splits)
qed

theorem osip_message_request_route_fails_witness:
  "fst (osip_message_request sample_codes (\<lambda>s. \<lparr>v_text = s, v_branch = None\<rparr>) list_append_add
     (sample_osip_dialog\<lparr>o_route_set := [sample_uri]\<rparr>) ''BYE'' None (calm :: unit world)) \<noteq> OSIP_SUCCESS"
  using osip_message_request_route_fails [OF counts_list_append_add _ sample_codes_ok,
      of "sample_osip_dialog\<lparr>o_route_set := [sample_uri]\<rparr>" "\<lambda>s. \<lparr>v_text = s, v_branch = None\<rparr>" "''BYE''" None
        "calm :: unit world"]
  by (cases "osip_message_request sample_codes (\<lambda>s. \<lparr>v_text = s, v_branch = None\<rparr>) list_append_add
     (sample_osip_dialog\<lparr>o_route_set := [sample_uri]\<rparr>) ''BYE'' None (calm :: unit world)") simp

end
