(* ===== verification/Session.thy ===== *)
theory Session
  imports Dialog Forwarder Osip Socket Inet46
begin

text \<open>
  \<^verbatim>\<open>sipleelen/session.h\<close>, \<^verbatim>\<open>sipleelen/session.c\<close>, the state of \<^verbatim>\<open>sipleelen/sipleelen.h\<close>
  and the functions of \<^verbatim>\<open>utils/osip.c\<close> that work on a transaction.

  A session couples a LEELEN dialog with a SIP dialog. Sessions and transactions live in a heap:
  a pointer is a number, \<open>s_heap\<close> and \<open>s_trs\<close> give the objects, and a freed object is \<open>None\<close> there.
  A function that dereferences pointers returns \<open>None\<close> where the program would use a null pointer
  or a freed object. A function that only works on one session is a function on the record and
  the network; \<open>on_session\<close> applies it at a pointer.

  The OSIP stack is a parameter, the record \<open>osip_lib\<close>: what it does with a message that it is
  given is a function on the whole state, for it may call back. \<open>s_osip\<close> is its own state.
  Memory that \<open>malloc\<close> returns has the content \<open>s_junk\<close>; an address is not used twice.
\<close>

section \<open>State\<close>

record SIPLeelenSession =
  n_leelen :: LeelenDialog
  n_sip :: "osip_dialog option"
  n_transaction :: "nat option"
  n_refcount :: u32
  n_ours :: in6_addr
  n_audio :: Forwarder
  n_video :: Forwarder
  n_invite_state :: int
  n_number :: LeelenNumber

datatype fsm_type = ICT | IST | NICT | NIST

text \<open>A transaction with the reserved fields that hold \<open>struct SIPTransactionData\<close>. \<open>x_active\<close>: the stack still
  has it in its lists; \<open>x_proceeding\<close>: its state is \<open>IST_PROCEEDING\<close>.\<close>

record transaction =
  x_ctx_type :: fsm_type
  x_transactionid :: int
  x_active :: bool
  x_proceeding :: bool
  x_orig_request :: osip_message
  x_headers :: tr_headers
  x_session :: "nat option"
  x_out_af :: af
  x_out_socket :: int

record 'x device =
  s_config :: LeelenConfig
  s_ua :: "char list option"
  s_addr :: sockaddr_in46
  s_mtu :: u16
  s_client :: "char list option"
  s_clients :: sockaddr_in46
  s_sessions :: "nat ptrv"
  s_socket_sip :: int
  s_socket_leelen :: int
  s_state :: int
  s_heap :: "nat \<Rightarrow> SIPLeelenSession option"
  s_next :: nat
  s_junk :: "nat \<Rightarrow> SIPLeelenSession"
  s_trs :: "nat \<Rightarrow> transaction option"
  s_threads :: "nat list"
  s_net :: net
  s_osip :: 'x

text \<open>An event for the stack: is it outgoing, and its message.\<close>

type_synonym osip_event = "bool \<times> osip_message"

record 'x osip_lib =
  lib_codes :: osip_codes
  lib_reason :: "int \<Rightarrow> char list"
  lib_via :: "char list \<Rightarrow> osip_via"
  lib_match :: osip_match
  lib_list_add :: "(osip_uri, datagram world) list_add"
  lib_add_string :: "(char list, datagram world) list_add"
  lib_add_attribute :: "(sdp_attribute, datagram world) list_add"
  lib_add_media :: "(sdp_media, datagram world) list_add"
  lib_inet :: inet_lib
  lib_ntop :: "af \<Rightarrow> in6_addr \<Rightarrow> char list"
  lib_parse :: "char list \<Rightarrow> osip_message option"
  lib_parse_sdp :: "char list \<Rightarrow> sdp_media list option"
  lib_sdp_to_str :: "sdp_message \<Rightarrow> sdp_media list \<Rightarrow> int \<times> char list"
  lib_to_str :: "osip_message \<Rightarrow> char list"
  lib_fix_via :: "osip_message \<Rightarrow> char list \<Rightarrow> u16 \<Rightarrow> osip_message"
  lib_destination :: "osip_message \<Rightarrow> char list \<times> u16"
  lib_match_as_uas :: "osip_dialog \<Rightarrow> osip_message \<Rightarrow> bool"
  lib_dialog_as_uas :: "osip_message \<Rightarrow> osip_message \<Rightarrow> osip_dialog"
  lib_create :: "osip_event \<Rightarrow> 'x device \<Rightarrow> nat option \<times> 'x device"
  lib_execute :: "nat \<Rightarrow> osip_event \<Rightarrow> 'x device \<Rightarrow> (int \<times> 'x device) option"
  lib_add_event :: "nat \<Rightarrow> osip_event \<Rightarrow> 'x device \<Rightarrow> int \<times> 'x device"
  lib_find :: "osip_event \<Rightarrow> 'x device \<Rightarrow> bool \<times> 'x device"
  lib_tryget :: "nat \<Rightarrow> 'x device \<Rightarrow> osip_event option \<times> 'x device"
  lib_run :: "fsm_type \<Rightarrow> 'x device \<Rightarrow> 'x device option"
  lib_timers :: "fsm_type \<Rightarrow> 'x device \<Rightarrow> 'x device option"
  lib_remove :: "nat \<Rightarrow> 'x device \<Rightarrow> 'x device"
  lib_free :: "nat \<Rightarrow> 'x device \<Rightarrow> 'x device"

section \<open>Pointers\<close>

definition put_session :: "nat \<Rightarrow> SIPLeelenSession \<Rightarrow> 'x device \<Rightarrow> 'x device" where
  "put_session p self s = s\<lparr>s_heap := (s_heap s)(p \<mapsto> self)\<rparr>"

definition put_transaction :: "nat \<Rightarrow> transaction \<Rightarrow> 'x device \<Rightarrow> 'x device" where
  "put_transaction tr x s = s\<lparr>s_trs := (s_trs s)(tr \<mapsto> x)\<rparr>"

definition on_session ::
  "(SIPLeelenSession \<Rightarrow> net \<Rightarrow> 'r \<times> SIPLeelenSession \<times> net) \<Rightarrow> nat \<Rightarrow> 'x device \<Rightarrow> ('r \<times> 'x device) option"
where
  "on_session f p s =
     (case s_heap s p of
        None \<Rightarrow> None
      | Some self \<Rightarrow> (let (r, self, w) = f self (s_net s) in Some (r, put_session p self s\<lparr>s_net := w\<rparr>)))"

text \<open>A call that draws from the world of the device.\<close>

definition on_net :: "(net \<Rightarrow> 'r \<times> net) \<Rightarrow> 'x device \<Rightarrow> 'r \<times> 'x device" where
  "on_net f s = (let (r, w) = f (s_net s) in (r, s\<lparr>s_net := w\<rparr>))"

section \<open>Handing messages to a transaction\<close>

definition osip_transaction_send_sipmessage ::
  "'x osip_lib \<Rightarrow> nat \<Rightarrow> osip_message \<Rightarrow> bool \<Rightarrow> 'x device \<Rightarrow> (int \<times> 'x device) option"
where
  "osip_transaction_send_sipmessage lib tr sip now s =
     (let (ok, s) = on_net sys s in
      if \<not> ok then Some (UNDEFINED_ERROR (lib_codes lib), s)
      else if now then
        (case lib_execute lib tr (True, sip) s of
           None \<Rightarrow> None
         | Some (_, s) \<Rightarrow> Some (OSIP_SUCCESS, s))
      else Some (lib_add_event lib tr (True, sip) s))"

definition osip_transaction_response ::
  "'x osip_lib \<Rightarrow> nat \<Rightarrow> int \<Rightarrow> char list option \<Rightarrow> bool \<Rightarrow> 'x device \<Rightarrow> (int \<times> 'x device) option"
where
  "osip_transaction_response lib tr status_code ua now s =
     (case s_trs s tr of
        None \<Rightarrow> None
      | Some x \<Rightarrow>
          (let (res, response, w) = osip_message_response (lib_codes lib) (lib_reason lib) (x_orig_request x)
                 status_code ua (s_net s); s = s\<lparr>s_net := w\<rparr>
           in if res \<noteq> OSIP_SUCCESS then Some (res, s)
              else case osip_transaction_send_sipmessage lib tr (the response) now s of
                     None \<Rightarrow> None
                   | Some (r, s) \<Rightarrow>
                       if r = OSIP_SUCCESS then Some (OSIP_SUCCESS, s) else Some (NOMEM (lib_codes lib), s)))"

section \<open>One session\<close>

definition SIPLeelenSession_established ::
  "SIPLeelenSession \<Rightarrow> net \<Rightarrow> bool \<times> SIPLeelenSession \<times> net"
where
  "SIPLeelenSession_established self w =
     (let (yes, self, w) =
        (if d_id (n_leelen self) \<noteq> 0 then
           let (_, d, w) = LeelenDialog_ack_timeout (n_leelen self) w
           in (d_state d \<noteq> DISCONNECTED, self\<lparr>n_leelen := d\<rparr>, w)
         else (False, self, w))
      in if yes then (True, self, w)
         else case n_sip self of
             Some sip \<Rightarrow> (if \<not> o_closed sip then (True, self, w) else (False, self, w))
           | None \<Rightarrow> (False, self, w))"

definition SIPLeelenSession_bye_leelen ::
  "int \<Rightarrow> SIPLeelenSession \<Rightarrow> net \<Rightarrow> int \<times> SIPLeelenSession \<times> net"
where
  "SIPLeelenSession_bye_leelen socket_leelen self w =
     (let (r, d, w) = LeelenDialog_may_bye (n_leelen self) socket_leelen w in
      if 0 \<le> r then (0, self\<lparr>n_leelen := d\<rparr>, w)
      else let (now, w) = sys_time w
        in (- 1, self\<lparr>n_leelen := d\<lparr>d_state := DISCONNECTED, d_last_activity := fst now\<rparr>\<rparr>, w))"

definition SIPLeelenSession_start_forward ::
  "SIPLeelenSession \<Rightarrow> int list \<Rightarrow> int list \<Rightarrow> net \<Rightarrow> (int \<times> SIPLeelenSession \<times> HalfForwarder list \<times> net) option"
where
  "SIPLeelenSession_start_forward self seen1 seen2 w =
     (case Forwarder_start (n_audio self) seen1 w of
        None \<Rightarrow> None
      | Some (r, a, hs, w) \<Rightarrow>
          let self = self\<lparr>n_audio := a\<rparr> in
          if r \<noteq> 0 then Some (- 1, self, hs, w)
          else case Forwarder_start (n_video self) seen2 w of
                 None \<Rightarrow> None
               | Some (r, v, hs', w) \<Rightarrow>
                   Some (if r = 0 then 0 else - 1, self\<lparr>n_video := v\<rparr>, hs @ hs', w))"

definition SIPLeelenSession_stop_forward :: "SIPLeelenSession \<Rightarrow> SIPLeelenSession" where
  "SIPLeelenSession_stop_forward self =
     self\<lparr>n_audio := Forwarder_stop (n_audio self), n_video := Forwarder_stop (n_video self)\<rparr>"

definition SIPLeelenSession_incref :: "SIPLeelenSession \<Rightarrow> SIPLeelenSession" where
  "SIPLeelenSession_incref self = self\<lparr>n_refcount := snd (refcount_inc (n_refcount self))\<rparr>"

text \<open>The sockets of one medium. The first result is an error code or the port of the new SIP socket, the
  last but one the sockets that were opened: descriptor, local address and peer. \<open>e1\<close>, \<open>e2\<close> and \<open>e3\<close>
  are the codes for the LEELEN socket, the SIP socket and \<open>getsockname\<close>.\<close>

type_synonym opened = "(int \<times> sockaddr_in46 \<times> sockaddr_in46 option) list"

definition connect_leelen ::
  "Forwarder \<Rightarrow> sockaddr_in46 \<Rightarrow> sockaddr_in46 \<Rightarrow> u16 \<Rightarrow> u16 \<Rightarrow> net \<Rightarrow> bool \<times> Forwarder \<times> opened \<times> net"
where
  "connect_leelen f leelen_ours leelen_theirs our_port their_port w =
     (if f_socket1 f < 0 then
        let ours = leelen_ours\<lparr>sa_port := htons our_port\<rparr>; (fd, w) = openaddr46 ours OPENADDR_REUSEADDR w in
        if \<not> 0 \<le> fd then (False, f, [], w)
        else let theirs = leelen_theirs\<lparr>sa_port := htons their_port\<rparr>; (ok, w) = sys w in
          if \<not> ok then (False, f, [], w)
          else (True, f\<lparr>f_socket1 := fd\<rparr>, [(fd, ours, Some theirs)], w)
      else (True, f, [], w))"

definition connect_medium ::
  "int \<Rightarrow> int \<Rightarrow> int \<Rightarrow> Forwarder \<Rightarrow> sockaddr_in46 \<Rightarrow> sockaddr_in46 \<Rightarrow> sockaddr_in46 \<Rightarrow> u16 \<Rightarrow> u16 \<Rightarrow> net \<Rightarrow>
     (int + u16) \<times> Forwarder \<times> opened \<times> net"
where
  "connect_medium e1 e2 e3 f sip_ours leelen_ours leelen_theirs our_port their_port w =
     (let (ok, f, os, w) = connect_leelen f leelen_ours leelen_theirs our_port their_port w in
      if \<not> ok then (Inl e1, f, os, w)
      else let (ok, f, os, w) =
             (if f_socket2 f < 0 then
                let (fd, w) = openaddr46 sip_ours OPENADDR_REUSEADDR w in
                if \<not> 0 \<le> fd then (False, f, os, w) else (True, f\<lparr>f_socket2 := fd\<rparr>, os @ [(fd, sip_ours, None)], w)
              else (True, f, os, w))
        in if \<not> ok then (Inl e2, f, os, w)
           else let (ok, w) = sys w in
             if \<not> ok then (Inl e3, f, os, w)
             else let (port, w) = sys_rand w in (Inr (ucast port), f, os, w))"

text \<open>A medium that is used or not; \<open>p\<close> is the port that is already stored.\<close>

definition connect_used ::
  "bool \<Rightarrow> u16 option \<Rightarrow> int \<Rightarrow> int \<Rightarrow> int \<Rightarrow> Forwarder \<Rightarrow> sockaddr_in46 \<Rightarrow> sockaddr_in46 \<Rightarrow> sockaddr_in46 \<Rightarrow>
     u16 \<Rightarrow> u16 \<Rightarrow> net \<Rightarrow> (int + u16 option) \<times> Forwarder \<times> opened \<times> net"
where
  "connect_used used p e1 e2 e3 f sip_ours leelen_ours leelen_theirs our_port their_port w =
     (if used then
        (case connect_medium e1 e2 e3 f sip_ours leelen_ours leelen_theirs our_port their_port w of
           (Inl e, f, os, w) \<Rightarrow> (Inl e, f, os, w)
         | (Inr port, f, os, w) \<Rightarrow> (Inr (Some port), f, os, w))
      else (Inr p, f, [], w))"

text \<open>\<open>audio\<close> and \<open>video\<close>: is the pointer non-null? The ports are \<open>None\<close> where nothing is stored through
  the pointer.\<close>

definition SIPLeelenSession_connect ::
  "sockaddr_in46 \<Rightarrow> bool \<Rightarrow> bool \<Rightarrow> SIPLeelenSession \<Rightarrow> net \<Rightarrow>
     (int \<times> u16 option \<times> u16 option \<times> opened) \<times> SIPLeelenSession \<times> net"
where
  "SIPLeelenSession_connect addr audio video self w =
     (let d = n_leelen self;
          (pa, audio) = (if audio \<and> (d_our_audio_port d = 0 \<or> d_their_audio_port d = 0)
                         then (Some 0, False) else (None, audio));
          (pv, video) = (if video \<and> (d_our_video_port d = 0 \<or> d_their_video_port d = 0)
                         then (Some 0, False) else (None, video))
      in if \<not> (audio \<or> video) then ((0, pa, pv, []), self, w)
         else
           let sip_ours = addr\<lparr>sa_port := 0\<rparr>;
               (ra, f, os, w) = connect_used audio pa 1 1 2 (n_audio self) sip_ours (d_ours d) (d_theirs d)
                 (d_our_audio_port d) (d_their_audio_port d) w;
               self = self\<lparr>n_audio := f\<rparr>
           in case ra of
                Inl e \<Rightarrow> ((e, pa, pv, os), self, w)
              | Inr pa \<Rightarrow>
                  let (rv, f, os', w) = connect_used video pv 3 4 4 (n_video self) sip_ours (d_ours d) (d_theirs d)
                        (d_our_video_port d) (d_their_video_port d) w;
                      self = self\<lparr>n_video := f\<rparr>
                  in case rv of
                       Inl e \<Rightarrow> ((e, pa, pv, os @ os'), self, w)
                     | Inr pv \<Rightarrow> ((0, pa, pv, os @ os'), self, w))"

text \<open>What \<open>SIPLeelenSession_destroy\<close> closes, and how long each of its joins waits.\<close>

definition SIPLeelenSession_destroy :: "SIPLeelenSession \<Rightarrow> int list \<times> nat option list" where
  "SIPLeelenSession_destroy self =
     (let invite_state = single_stop (n_invite_state self);
          (fds1, j1) = Forwarder_destroy (n_audio self) [];
          (fds2, j2) = Forwarder_destroy (n_video self) []
      in (fds1 @ fds2, [j1, j2, single_join invite_state []]))"

definition SIPLeelenSession_init ::
  "u16 \<Rightarrow> u16 \<Rightarrow> SIPLeelenSession \<Rightarrow> net \<Rightarrow> int \<times> SIPLeelenSession \<times> net"
where
  "SIPLeelenSession_init device_mtu config_mtu self w =
     (let (ok, w) = sys w in
      if \<not> ok then (- 1, self, w)
      else let mtu = min device_mtu config_mtu in
        (0, self\<lparr>n_leelen := (n_leelen self)\<lparr>d_id := 0\<rparr>, n_sip := None, n_transaction := None, n_refcount := 1,
              n_ours := in6addr_any, n_audio := snd (Forwarder_init (n_audio self) mtu),
              n_video := snd (Forwarder_init (n_video self) mtu), n_invite_state := SINGLE_FLAG_INIT\<rparr>, w))"

section \<open>Sessions in the heap\<close>

definition free_memory :: "nat \<Rightarrow> 'x device \<Rightarrow> 'x device" where
  "free_memory p s = s\<lparr>s_heap := (s_heap s)(p := None)\<rparr>"

definition SIPLeelenSession_may_free :: "nat \<Rightarrow> 'x device \<Rightarrow> (bool \<times> 'x device) option" where
  "SIPLeelenSession_may_free p s =
     (case s_heap s p of
        None \<Rightarrow> None
      | Some self \<Rightarrow>
          (let (yes, c) = refcount_should_free (n_refcount self); s = put_session p (self\<lparr>n_refcount := c\<rparr>) s
           in if \<not> yes then Some (False, s) else Some (True, free_memory p s)))"

definition SIPLeelenSession_decref :: "nat \<Rightarrow> 'x device \<Rightarrow> (bool \<times> 'x device) option" where
  "SIPLeelenSession_decref p s =
     (case s_heap s p of
        None \<Rightarrow> None
      | Some self \<Rightarrow>
          (let (zero, c) = refcount_dec (n_refcount self); s = put_session p (self\<lparr>n_refcount := c\<rparr>) s
           in if zero then SIPLeelenSession_may_free p s else Some (False, s)))"

text \<open>The transaction of a BYE: its session, socket and address family, and a reference to the session.\<close>

definition attach_transaction :: "nat \<Rightarrow> nat \<Rightarrow> int \<Rightarrow> af \<Rightarrow> 'x device \<Rightarrow> 'x device option" where
  "attach_transaction p tr out_socket out_af s =
     (case (s_heap s p, s_trs s tr) of
        (Some self, Some x) \<Rightarrow>
          Some (put_session p
            (SIPLeelenSession_incref (self\<lparr>n_transaction := (if n_transaction self = None then Some tr else n_transaction self)\<rparr>))
            (put_transaction tr (x\<lparr>x_out_socket := out_socket, x_session := Some p, x_out_af := out_af\<rparr>) s))
      | _ \<Rightarrow> None)"

definition SIPLeelenSession_bye_sip ::
  "'x osip_lib \<Rightarrow> nat \<Rightarrow> bool \<Rightarrow> 'x device \<Rightarrow> (int \<times> 'x device) option"
where
  "SIPLeelenSession_bye_sip lib p now s =
     (case s_heap s p of
        None \<Rightarrow> None
      | Some self \<Rightarrow>
          (case n_sip self of
             None \<Rightarrow> Some (255, s)
           | Some sip \<Rightarrow>
               (let (res, request, sip, w) = osip_message_request (lib_codes lib) (lib_via lib) (lib_list_add lib)
                      sip ''BYE'' (s_ua s) (s_net s);
                    s = (put_session p (self\<lparr>n_sip := Some sip\<rparr>) s)\<lparr>s_net := w\<rparr>
                in if res \<noteq> OSIP_SUCCESS then Some (- 1, s)
                   else let (ok, s) = on_net sys s in
                     if \<not> ok then Some (- 1, s)
                     else case lib_create lib (True, the request) s of
                            (None, s) \<Rightarrow> Some (- 1, s)
                          | (Some tr, s) \<Rightarrow>
                              (case attach_transaction p tr (s_socket_sip s) (sa_family (s_addr s)) s of
                                 None \<Rightarrow> None
                               | Some s \<Rightarrow>
                                   if now then
                                     (case lib_execute lib tr (True, the request) s of
                                        None \<Rightarrow> None
                                      | Some (_, s) \<Rightarrow> Some (0, s))
                                   else Some (0, snd (lib_add_event lib tr (True, the request) s))))))"

definition SIPLeelenSession_bye ::
  "'x osip_lib \<Rightarrow> nat \<Rightarrow> bool \<Rightarrow> 'x device \<Rightarrow> (int \<times> 'x device) option"
where
  "SIPLeelenSession_bye lib p now s =
     (case on_session (SIPLeelenSession_bye_leelen (s_socket_leelen s)) p s of
        None \<Rightarrow> None
      | Some (r1, s) \<Rightarrow>
          (case SIPLeelenSession_bye_sip lib p now s of
             None \<Rightarrow> None
           | Some (r2, s) \<Rightarrow> Some ((if r1 \<noteq> 0 then 1 else 0) + (if r2 \<noteq> 0 then 2 else 0), s)))"

section \<open>Lemmas\<close>

lemma put_session_fields [simp]:
  "s_heap (put_session p self s) = (s_heap s)(p \<mapsto> self)" "s_trs (put_session p self s) = s_trs s"
  "s_sessions (put_session p self s) = s_sessions s" "s_threads (put_session p self s) = s_threads s"
  "s_net (put_session p self s) = s_net s" "s_next (put_session p self s) = s_next s"
  "s_config (put_session p self s) = s_config s" "s_addr (put_session p self s) = s_addr s"
  "s_osip (put_session p self s) = s_osip s" "s_ua (put_session p self s) = s_ua s"
  "s_socket_sip (put_session p self s) = s_socket_sip s" "s_client (put_session p self s) = s_client s"
  "s_socket_leelen (put_session p self s) = s_socket_leelen s" "s_clients (put_session p self s) = s_clients s"
  by (simp_all add: put_session_def)

lemma put_transaction_fields [simp]:
  "s_trs (put_transaction tr x s) = (s_trs s)(tr \<mapsto> x)" "s_heap (put_transaction tr x s) = s_heap s"
  "s_sessions (put_transaction tr x s) = s_sessions s" "s_threads (put_transaction tr x s) = s_threads s"
  "s_net (put_transaction tr x s) = s_net s" "s_next (put_transaction tr x s) = s_next s"
  by (simp_all add: put_transaction_def)

lemma free_memory_fields [simp]:
  "s_heap (free_memory p s) = (s_heap s)(p := None)" "s_trs (free_memory p s) = s_trs s"
  "s_sessions (free_memory p s) = s_sessions s" "s_threads (free_memory p s) = s_threads s"
  "s_net (free_memory p s) = s_net s" "s_next (free_memory p s) = s_next s"
  by (simp_all add: free_memory_def)

lemma on_net_sys [simp]: "on_net sys s = (w_ok (s_net s) (w_tick (s_net s)), s\<lparr>s_net := step (s_net s)\<rparr>)"
  by (simp add: on_net_def sys_def)

lemma refcount_should_free_simps [simp]:
  "refcount_should_free 0 = (True, 1)" "c \<noteq> 0 \<Longrightarrow> refcount_should_free c = (False, c)"
  by (simp_all add: refcount_should_free_def)

lemma refcount_dec_form: "refcount_dec c = (if c = 1 then (True, 1) else (False, c - 1))"
  by (auto simp: refcount_dec_def refcount_should_free_def Let_def)

lemma bye_leelen_form:
  "SIPLeelenSession_bye_leelen fd self w = (r, self', w') \<Longrightarrow> self' = self\<lparr>n_leelen := n_leelen self'\<rparr>"
  by (auto simp: SIPLeelenSession_bye_leelen_def split: if_splits prod.splits)

lemma stopped_join: "flag \<in> {- 1, 0, 1} \<Longrightarrow> single_join (single_stop flag) seen = Some 0"
  by (auto simp: single_join_def single_stop_def single_is_running_def single_flags)

definition flag_ok :: "int \<Rightarrow> bool" where
  "flag_ok flag \<longleftrightarrow> flag \<in> {SINGLE_STOPPING, SINGLE_STOPPED, SINGLE_RUNNING}"

lemma Forwarder_destroy_form:
  "flag_ok (f_state f) \<Longrightarrow>
   Forwarder_destroy f seen = (filter (\<lambda>fd. 0 \<le> fd) [f_socket1 f, f_socket2 f], Some 0)"
  using stopped_join [of "f_state f" seen]
  by (simp add: Forwarder_destroy_def Forwarder_stop_def flag_ok_def single_flags)

lemma connect_leelen_ok:
  assumes "connect_leelen f ours theirs op tp w = (ok, f', os, w')"
  shows "f_socket2 f' = f_socket2 f \<and> f_state f' = f_state f \<and> f_mtu f' = f_mtu f \<and>
    (ok \<longrightarrow> 0 \<le> f_socket1 f') \<and> (\<not> ok \<longrightarrow> f' = f \<and> os = []) \<and>
    (\<forall>(fd, a, b) \<in> set os. 0 \<le> fd \<and> a = ours\<lparr>sa_port := htons op\<rparr> \<and> b = Some (theirs\<lparr>sa_port := htons tp\<rparr>) \<and>
      f_socket1 f' = fd)"
  using assms
  by (auto simp: connect_leelen_def sys_def Let_def split: if_splits prod.splits)

lemma connect_medium_ok:
  assumes "connect_medium e1 e2 e3 f sip_ours ours theirs op tp w = (r, f', os, w')"
  shows "(case r of Inl e \<Rightarrow> e \<in> {e1, e2, e3} | Inr port \<Rightarrow> 0 \<le> f_socket1 f' \<and> 0 \<le> f_socket2 f') \<and>
    (\<forall>(fd, a, b) \<in> set os. 0 \<le> fd \<and>
      (a = sip_ours \<and> b = None \<and> f_socket2 f' = fd \<or>
       a = ours\<lparr>sa_port := htons op\<rparr> \<and> b = Some (theirs\<lparr>sa_port := htons tp\<rparr>) \<and> f_socket1 f' = fd))"
proof -
  obtain ok f1 os1 w1 where c: "connect_leelen f ours theirs op tp w = (ok, f1, os1, w1)"
    by (metis prod_cases4)
  note k = connect_leelen_ok [OF c]
  show ?thesis
    using assms k c
    by (auto simp: connect_medium_def sys_def Let_def split: if_splits prod.splits sum.splits)
qed

text \<open>What may be said of the sockets that were opened for a medium.\<close>

definition opened_for :: "bool \<Rightarrow> sockaddr_in46 \<Rightarrow> sockaddr_in46 \<Rightarrow> sockaddr_in46 \<Rightarrow> u16 \<Rightarrow> u16 \<Rightarrow> opened \<Rightarrow> bool" where
  "opened_for used sip_ours ours theirs op tp os \<longleftrightarrow>
     (\<forall>(fd, a, b) \<in> set os. used \<and> 0 \<le> fd \<and>
       (a = sip_ours \<and> b = None \<or>
        a = ours\<lparr>sa_port := htons op\<rparr> \<and> b = Some (theirs\<lparr>sa_port := htons tp\<rparr>)))"

lemma connect_used_ok:
  assumes "connect_used used p e1 e2 e3 f sip_ours ours theirs op tp w = (r, f', os, w')"
  shows "(case r of Inl e \<Rightarrow> e \<in> {e1, e2, e3}
     | Inr port \<Rightarrow> if used then port \<noteq> None \<and> 0 \<le> f_socket1 f' \<and> 0 \<le> f_socket2 f' else port = p \<and> f' = f) \<and>
    opened_for used sip_ours ours theirs op tp os"
proof (cases used)
  case False
  with assms show ?thesis by (auto simp: connect_used_def opened_for_def)
next
  case True
  obtain r1 f1 os1 w1 where c: "connect_medium e1 e2 e3 f sip_ours ours theirs op tp w = (r1, f1, os1, w1)"
    by (metis prod_cases4)
  have r: "(case r1 of Inl e \<Rightarrow> (Inl e, f1, os1, w1) | Inr port \<Rightarrow> (Inr (Some port), f1, os1, w1)) = (r, f', os, w')"
    using assms True c by (cases r1) (simp_all add: connect_used_def)
  note m = connect_medium_ok [OF c]
  have "opened_for used sip_ours ours theirs op tp os1"
    using m True by (fastforce simp: opened_for_def)
  with r m True show ?thesis by (cases r1) auto
qed

lemma bye_leelen_effect:
  assumes "wf_dialog (n_leelen self)" and "d_id (n_leelen self) \<noteq> 0"
    and "SIPLeelenSession_bye_leelen fd self w = (r, self', w')"
  shows "d_state (n_leelen self') \<in> {DISCONNECTED, DISCONNECTING} \<and>
    self' = self\<lparr>n_leelen := n_leelen self'\<rparr> \<and> r \<in> {0, - 1} \<and>
    w_sent w' = w_sent w @
      (if d_state (n_leelen self) \<in> {CONNECTING, CONNECTED} \<and> r = 0
       then [(fd, d_theirs (n_leelen self), packet_of (dialog_message (n_leelen self) LEELEN_CODE_BYE))] else []) \<and>
    same_env w w' \<and> ((\<forall>i. w_ok w i) \<longrightarrow> r = 0)"
proof -
  note s = sendcode_packet [OF assms(1), of LEELEN_CODE_BYE fd w]
  have codes: "LEELEN_CODE_BYE \<noteq> LEELEN_CODE_OK" "LeelenDialogState_send st LEELEN_CODE_BYE = DISCONNECTING" for st
    by (simp_all add: LEELEN_CODE_BYE_def LEELEN_CODE_OK_def LeelenDialogState_send_def LEELEN_CODE_CALL_def
        LEELEN_CODE_VIEW_def LEELEN_CODE_VOICE_MESSAGE_def LEELEN_CODE_ACCEPTED_def)
  show ?thesis
    using assms(2,3) s codes
    by (cases "d_state (n_leelen self)")
      (auto simp: SIPLeelenSession_bye_leelen_def LeelenDialog_may_bye_def after_send_def sys_send_def Let_def same_env_def
        split: if_splits prod.splits)
qed

section \<open>The stack as a queue\<close>

text \<open>What the documentation of \<open>osip_transaction_add_event\<close> says: it queues the event for the transaction and
  does nothing else. \<open>sent\<close> reads the queue from the state of the stack.\<close>

definition records :: "'x osip_lib \<Rightarrow> ('x \<Rightarrow> (nat \<times> osip_event) list) \<Rightarrow> bool" where
  "records lib sent \<longleftrightarrow>
     (\<forall>tr e s. \<exists>x. lib_add_event lib tr e s = (OSIP_SUCCESS, s\<lparr>s_osip := x\<rparr>) \<and> sent x = sent (s_osip s) @ [(tr, e)])"

text \<open>A reply to the original request of the transaction with this status was queued, or nothing was.\<close>

definition replied :: "('x \<Rightarrow> (nat \<times> osip_event) list) \<Rightarrow> nat \<Rightarrow> osip_message \<Rightarrow> int \<Rightarrow> 'x \<Rightarrow> 'x \<Rightarrow> bool" where
  "replied sent tr request status x x' \<longleftrightarrow>
     (\<exists>m. sent x' = sent x @ [(tr, True, m)] \<and> q_status m = status \<and> mirrors request m)"

lemma recordsD:
  "records lib sent \<Longrightarrow> \<exists>x. lib_add_event lib tr e s = (OSIP_SUCCESS, s\<lparr>s_osip := x\<rparr>) \<and> sent x = sent (s_osip s) @ [(tr, e)]"
  unfolding records_def by blast

text \<open>A message handed to the stack is in its queue afterwards, unless the allocation of the event fails.\<close>

definition takes :: "'x osip_lib \<Rightarrow> ('x \<Rightarrow> (nat \<times> osip_event) list) \<Rightarrow> bool \<Rightarrow> bool" where
  "takes lib sent now \<longleftrightarrow>
     (\<forall>tr m s. w_ok (s_net s) (w_tick (s_net s)) \<longrightarrow>
        (\<exists>x. osip_transaction_send_sipmessage lib tr m now s = Some (OSIP_SUCCESS, s\<lparr>s_net := step (s_net s), s_osip := x\<rparr>) \<and>
           sent x = sent (s_osip s) @ [(tr, True, m)]))"

lemma records_takes: "records lib sent \<Longrightarrow> takes lib sent False"
  using recordsD [of lib sent] by (fastforce simp: takes_def osip_transaction_send_sipmessage_def)

lemma transaction_response_sends:
  assumes rec: "takes lib sent now" and codes: "codes_ok (lib_codes lib)" and x: "s_trs s tr = Some x"
  shows "\<exists>r w o'. osip_transaction_response lib tr status ua now s = Some (r, s\<lparr>s_net := w, s_osip := o'\<rparr>) \<and>
    same_env (s_net s) w \<and> w_sent w = w_sent (s_net s) \<and>
    (replied sent tr (x_orig_request x) status (s_osip s) o' \<or>
     o' = s_osip s \<and> \<not> (answerable (x_orig_request x) \<and> (\<forall>i. w_ok (s_net s) i)))"
proof -
  let ?req = "x_orig_request x"
  obtain r m w where resp: "osip_message_response (lib_codes lib) (lib_reason lib) ?req status ua (s_net s) = (r, m, w)"
    by (metis prod_cases3)
  note env = response_env [OF resp]
  then have env': "same_env (s_net s) (step w)" "w_sent (step w) = w_sent (s_net s)" by (auto simp: same_env_def)
  show ?thesis
  proof (cases "r = OSIP_SUCCESS")
    case False
    then have "\<not> (answerable ?req \<and> (\<forall>i. w_ok (s_net s) i))"
      using response_calm [of "s_net s" ?req "lib_codes lib" "lib_reason lib" status ua] resp by auto
    moreover have "osip_transaction_response lib tr status ua now s = Some (r, s\<lparr>s_net := w\<rparr>)"
      using x resp False by (simp add: osip_transaction_response_def)
    moreover have "s\<lparr>s_net := w\<rparr> = s\<lparr>s_net := w, s_osip := s_osip s\<rparr>" by simp
    ultimately show ?thesis using env by metis
  next
    case True
    with response_SUCCESS [of "lib_codes lib" "lib_reason lib" ?req status ua "s_net s" m w] resp codes
    obtain msg where msg: "m = Some msg" "q_status msg = status" "mirrors ?req msg" "answerable ?req" by auto
    show ?thesis
    proof (cases "w_ok w (w_tick w)")
      case False
      then have send: "osip_transaction_send_sipmessage lib tr msg now (s\<lparr>s_net := w\<rparr>) =
          Some (UNDEFINED_ERROR (lib_codes lib), s\<lparr>s_net := step w\<rparr>)"
        by (simp add: osip_transaction_send_sipmessage_def)
      have "UNDEFINED_ERROR (lib_codes lib) \<noteq> OSIP_SUCCESS" using codes by (simp add: codes_ok_def OSIP_SUCCESS_def)
      with send have "osip_transaction_response lib tr status ua now s =
          Some (NOMEM (lib_codes lib), s\<lparr>s_net := step w, s_osip := s_osip s\<rparr>)"
        using x resp True msg by (simp add: osip_transaction_response_def)
      moreover have "\<not> (\<forall>i. w_ok (s_net s) i)"
      proof
        assume calm: "\<forall>i. w_ok (s_net s) i"
        from response_calm [OF this msg(4), of "lib_codes lib" "lib_reason lib" status ua] resp
        have "w_ok w = w_ok (s_net s)" by (auto simp: same_env_def)
        with calm False show False by simp
      qed
      ultimately show ?thesis using env' by blast
    next
      case ok: True
      have "w_ok (s_net (s\<lparr>s_net := w\<rparr>)) (w_tick (s_net (s\<lparr>s_net := w\<rparr>)))" using ok by simp
      with rec obtain o' where o': "osip_transaction_send_sipmessage lib tr msg now (s\<lparr>s_net := w\<rparr>) =
          Some (OSIP_SUCCESS, s\<lparr>s_net := step w, s_osip := o'\<rparr>)" "sent o' = sent (s_osip s) @ [(tr, True, msg)]"
        unfolding takes_def by fastforce
      then have "osip_transaction_response lib tr status ua now s =
          Some (OSIP_SUCCESS, s\<lparr>s_net := step w, s_osip := o'\<rparr>)"
        using x resp True msg by (simp add: osip_transaction_response_def)
      moreover have "replied sent tr ?req status (s_osip s) o'" using o'(2) msg by (auto simp: replied_def)
      ultimately show ?thesis using env' by blast
    qed
  qed
qed

lemma transaction_response_queued:
  assumes "records lib sent" and "codes_ok (lib_codes lib)" and "s_trs s tr = Some x"
  shows "\<exists>r w o'. osip_transaction_response lib tr status ua False s = Some (r, s\<lparr>s_net := w, s_osip := o'\<rparr>) \<and>
    same_env (s_net s) w \<and> w_sent w = w_sent (s_net s) \<and>
    (replied sent tr (x_orig_request x) status (s_osip s) o' \<or>
     o' = s_osip s \<and> \<not> (answerable (x_orig_request x) \<and> (\<forall>i. w_ok (s_net s) i)))"
  using transaction_response_sends [OF records_takes [OF assms(1)] assms(2,3)] .

section \<open>Properties\<close>

text \<open>Ending the LEELEN half of a session leaves its dialog neither connecting nor connected, whether
  the message could be sent or not; a BYE goes out exactly once, to the peer of a dialog that was
  alive, and nothing but the dialog changes.\<close>

theorem SIPLeelenSession_bye_leelen_ends:
  assumes "wf_dialog (n_leelen self)" and "d_id (n_leelen self) \<noteq> 0"
    and "SIPLeelenSession_bye_leelen fd self w = (r, self', w')"
  shows "d_state (n_leelen self') \<in> {DISCONNECTED, DISCONNECTING} \<and>
    self' = self\<lparr>n_leelen := n_leelen self'\<rparr> \<and> r \<in> {0, - 1} \<and>
    w_sent w' = w_sent w @
      (if d_state (n_leelen self) \<in> {CONNECTING, CONNECTED} \<and> r = 0
       then [(fd, d_theirs (n_leelen self), packet_of (dialog_message (n_leelen self) LEELEN_CODE_BYE))] else [])"
  using bye_leelen_effect [OF assms] by blast

definition sample_forwarder :: Forwarder where
  "sample_forwarder = \<lparr>f_state = 0, f_mtu = 1200, f_socket1 = - 1, f_socket2 = - 1\<rparr>"

definition sample_session :: SIPLeelenSession where
  "sample_session = \<lparr>n_leelen = sample_dialog\<lparr>d_state := CONNECTED\<rparr>, n_sip = Some sample_osip_dialog, n_transaction = None,
     n_refcount = 1, n_ours = in6addr_any, n_audio = sample_forwarder, n_video = sample_forwarder,
     n_invite_state = 0, n_number = sample_base\<rparr>"

lemma sample_session_dialog: "wf_dialog (n_leelen sample_session)" "d_id (n_leelen sample_session) \<noteq> 0"
  using wf_sample_dialog(1) by (simp_all add: sample_session_def wf_dialog_def sample_dialog_def)

theorem SIPLeelenSession_bye_leelen_ends_witness:
  "\<exists>r self' w'. SIPLeelenSession_bye_leelen 3 sample_session calm1 = (r, self', w') \<and>
     d_state (n_leelen self') \<in> {DISCONNECTED, DISCONNECTING}"
proof -
  obtain r self' w' where b: "SIPLeelenSession_bye_leelen 3 sample_session calm1 = (r, self', w')"
    by (metis prod_cases3)
  from SIPLeelenSession_bye_leelen_ends [OF sample_session_dialog this] b show ?thesis by blast
qed

text \<open>\<open>SIPLeelenSession_decref\<close> never destroys a session: when the counter drops to 0, \<open>refcount_dec\<close>
  has already set it back to 1 for the destroyer, and \<open>SIPLeelenSession_may_free\<close>, which looks for 0
  again, does not free. A session whose last reference is dropped this way is leaked.\<close>

theorem SIPLeelenSession_decref_leaks:
  assumes "s_heap s p = Some self"
  shows "\<exists>s'. SIPLeelenSession_decref p s = Some (False, s') \<and>
    s_heap s' p = Some (self\<lparr>n_refcount := (if n_refcount self = 1 then 1 else n_refcount self - 1)\<rparr>)"
  using assms
  by (simp add: SIPLeelenSession_decref_def SIPLeelenSession_may_free_def refcount_dec_form)

definition sample_device :: "unit device" where
  "sample_device = \<lparr>s_config = sample_config, s_ua = None, s_addr = sockaddr_zero, s_mtu = 1472, s_client = None,
     s_clients = sockaddr_zero, s_sessions = \<lparr>vec = [Ptr 0, Null], plen = 1\<rparr>, s_socket_sip = 3, s_socket_leelen = 4,
     s_state = 0, s_heap = [0 \<mapsto> sample_session], s_next = 1, s_junk = (\<lambda>_. sample_session), s_trs = Map.empty,
     s_threads = [], s_net = calm1, s_osip = ()\<rparr>"

theorem SIPLeelenSession_decref_leaks_witness:
  "\<exists>s'. SIPLeelenSession_decref 0 sample_device = Some (False, s') \<and> s_heap s' 0 \<noteq> None"
  using SIPLeelenSession_decref_leaks [of sample_device 0 sample_session]
  by (auto simp: sample_device_def)

text \<open>\<open>SIPLeelenSession_destroy\<close> closes the sockets that are open, the two of audio first, and does not
  wait for any thread although it is documented to: it tells the forwarders and the invite thread to
  stop before it joins them, and a join of a stopping flag returns at once.\<close>

theorem SIPLeelenSession_destroy_no_wait:
  assumes "flag_ok (f_state (n_audio self))" and "flag_ok (f_state (n_video self))" and "flag_ok (n_invite_state self)"
  shows "SIPLeelenSession_destroy self =
    (filter (\<lambda>fd. 0 \<le> fd) [f_socket1 (n_audio self), f_socket2 (n_audio self),
       f_socket1 (n_video self), f_socket2 (n_video self)], [Some 0, Some 0, Some 0])"
  using assms stopped_join [of "n_invite_state self" "[]"]
  by (simp add: SIPLeelenSession_destroy_def Forwarder_destroy_form) (simp add: flag_ok_def single_flags)

theorem SIPLeelenSession_destroy_no_wait_witness:
  "SIPLeelenSession_destroy (sample_session\<lparr>n_invite_state := SINGLE_RUNNING\<rparr>) = ([], [Some 0, Some 0, Some 0])"
  using SIPLeelenSession_destroy_no_wait [of "sample_session\<lparr>n_invite_state := SINGLE_RUNNING\<rparr>"]
  by (simp add: sample_session_def sample_forwarder_def flag_ok_def single_flags)

text \<open>Media sockets: \<open>SIPLeelenSession_connect\<close> connects the socket towards LEELEN from our media port
  to the peer of the dialog at its media port, binds the socket towards SIP to the device address,
  and on success both sockets of a medium are open and its port is known; a medium that is not
  wanted, or for which a side has no port, gets port 0 and no socket.\<close>

theorem SIPLeelenSession_connect_media:
  assumes "SIPLeelenSession_connect addr audio video self w = ((r, pa, pv, os), self', w')"
    and "audio_used = (audio \<and> d_our_audio_port (n_leelen self) \<noteq> 0 \<and> d_their_audio_port (n_leelen self) \<noteq> 0)"
    and "video_used = (video \<and> d_our_video_port (n_leelen self) \<noteq> 0 \<and> d_their_video_port (n_leelen self) \<noteq> 0)"
  shows "r \<in> {0, 1, 2, 3, 4} \<and>
    (r = 0 \<longrightarrow>
      (if audio_used then pa \<noteq> None \<and> 0 \<le> f_socket1 (n_audio self') \<and> 0 \<le> f_socket2 (n_audio self')
       else n_audio self' = n_audio self \<and> pa = (if audio then Some 0 else None)) \<and>
      (if video_used then pv \<noteq> None \<and> 0 \<le> f_socket1 (n_video self') \<and> 0 \<le> f_socket2 (n_video self')
       else n_video self' = n_video self \<and> pv = (if video then Some 0 else None))) \<and>
    (\<exists>osa osv. os = osa @ osv \<and>
      opened_for audio_used (addr\<lparr>sa_port := 0\<rparr>) (d_ours (n_leelen self)) (d_theirs (n_leelen self))
        (d_our_audio_port (n_leelen self)) (d_their_audio_port (n_leelen self)) osa \<and>
      opened_for video_used (addr\<lparr>sa_port := 0\<rparr>) (d_ours (n_leelen self)) (d_theirs (n_leelen self))
        (d_our_video_port (n_leelen self)) (d_their_video_port (n_leelen self)) osv)"
proof -
  let ?d = "n_leelen self" and ?sip = "addr\<lparr>sa_port := 0\<rparr>"
  let ?pa = "if audio \<and> \<not> audio_used then Some 0 else (None :: u16 option)"
  let ?pv = "if video \<and> \<not> video_used then Some 0 else (None :: u16 option)"
  have nil: "opened_for u a b c d e []" for u a b c d e
    by (simp add: opened_for_def)
  have a: "(if audio \<and> (d_our_audio_port ?d = 0 \<or> d_their_audio_port ?d = 0) then (Some 0, False) else (None, audio)) =
      (?pa, audio_used)"
    using assms(2) by auto
  have v: "(if video \<and> (d_our_video_port ?d = 0 \<or> d_their_video_port ?d = 0) then (Some 0, False) else (None, video)) =
      (?pv, video_used)"
    using assms(3) by auto
  obtain ra fa osa wa where ca: "connect_used audio_used ?pa 1 1 2 (n_audio self) ?sip (d_ours ?d) (d_theirs ?d)
      (d_our_audio_port ?d) (d_their_audio_port ?d) w = (ra, fa, osa, wa)"
    by (metis prod_cases4)
  note oka = connect_used_ok [OF ca]
  obtain rv fv osv wv where cv: "connect_used video_used ?pv 3 4 4 (n_video self) ?sip (d_ours ?d) (d_theirs ?d)
      (d_our_video_port ?d) (d_their_video_port ?d) wa = (rv, fv, osv, wv)"
    by (metis prod_cases4)
  note okv = connect_used_ok [OF cv]
  show ?thesis
  proof (cases "audio_used \<or> video_used")
    case False
    then show ?thesis
      using assms(1) nil by (auto simp: SIPLeelenSession_connect_def Let_def a v)
  next
    case used: True
    show ?thesis
    proof (cases ra)
      case (Inl e)
      then have "r = e \<and> os = osa \<and> e \<noteq> 0"
        using assms(1) used ca oka by (auto simp: SIPLeelenSession_connect_def Let_def a v)
      moreover from this have "os = osa @ []" by simp
      ultimately show ?thesis using oka Inl nil [of video_used] by (fastforce simp del: append_Nil2)
    next
      case A: (Inr port)
      show ?thesis
      proof (cases rv)
        case (Inl e)
        then have "r = e \<and> os = osa @ osv \<and> e \<noteq> 0"
          using assms(1) used ca cv A okv by (auto simp: SIPLeelenSession_connect_def Let_def a v)
        moreover from this have "r \<in> {3, 4}" using okv Inl by auto
        ultimately show ?thesis using oka okv by blast
      next
        case (Inr portv)
        then have "r = 0 \<and> os = osa @ osv \<and> pa = port \<and> pv = portv \<and> n_audio self' = fa \<and> n_video self' = fv"
          using assms(1) used ca cv A by (auto simp: SIPLeelenSession_connect_def Let_def a v)
        moreover have "opened_for audio_used ?sip (d_ours ?d) (d_theirs ?d) (d_our_audio_port ?d) (d_their_audio_port ?d) osa"
          "opened_for video_used ?sip (d_ours ?d) (d_theirs ?d) (d_our_video_port ?d) (d_their_video_port ?d) osv"
          using oka okv by blast+
        ultimately show ?thesis using oka okv A Inr by (intro conjI exI [of _ osa] exI [of _ osv]) auto
      qed
    qed
  qed
qed

theorem SIPLeelenSession_connect_media_witness:
  "\<exists>r pa pv os self' w'. SIPLeelenSession_connect sockaddr_zero True False sample_session calm1 =
      ((r, pa, pv, os), self', w') \<and> r \<in> {0, 1, 2, 3, 4} \<and>
    (r = 0 \<longrightarrow> n_video self' = sample_forwarder)"
proof -
  obtain r pa pv os self' w' where c: "SIPLeelenSession_connect sockaddr_zero True False sample_session calm1 =
      ((r, pa, pv, os), self', w')"
    by (metis prod.exhaust)
  have "n_video sample_session = sample_forwarder" by (simp add: sample_session_def)
  with SIPLeelenSession_connect_media [OF c refl refl] c show ?thesis by auto
qed


text \<open>A stack for the examples: it keeps the events in a list.\<close>

type_synonym event_log = "(nat \<times> osip_event) list"

definition sample_lib :: "event_log osip_lib" where
  "sample_lib = \<lparr>lib_codes = sample_codes, lib_reason = (\<lambda>_. ''reason''), lib_via = (\<lambda>t. \<lparr>v_text = t, v_branch = None\<rparr>),
     lib_match = \<lparr>same_call_id = (=), same_tag = (=), same_via = (=)\<rparr>, lib_list_add = list_append_add,
     lib_add_string = list_append_add, lib_add_attribute = list_append_add, lib_add_media = list_append_add,
     lib_inet = sample_inet_lib, lib_ntop = (\<lambda>_ _. ''::''), lib_parse = (\<lambda>_. None), lib_parse_sdp = (\<lambda>_. None),
     lib_sdp_to_str = (\<lambda>_ _. (0, ''v=0'')), lib_to_str = (\<lambda>_. ''SIP''), lib_fix_via = (\<lambda>m _ _. m),
     lib_destination = (\<lambda>_. (''::1'', 5060)), lib_match_as_uas = (\<lambda>_ _. True), lib_dialog_as_uas = (\<lambda>_ _. sample_osip_dialog),
     lib_create = (\<lambda>_ s. (None, s)), lib_execute = (\<lambda>tr e s. Some (1, s\<lparr>s_osip := s_osip s @ [(tr, e)]\<rparr>)),
     lib_add_event = (\<lambda>tr e s. (0, s\<lparr>s_osip := s_osip s @ [(tr, e)]\<rparr>)), lib_find = (\<lambda>_ s. (False, s)),
     lib_tryget = (\<lambda>_ s. (None, s)), lib_run = (\<lambda>_. Some), lib_timers = (\<lambda>_. Some), lib_remove = (\<lambda>_ s. s),
     lib_free = (\<lambda>_ s. s)\<rparr>"

lemma sample_lib_fields [simp]:
  "lib_codes sample_lib = sample_codes" "lib_create sample_lib e s = (None, s)" "lib_find sample_lib e s = (False, s)"
  "lib_tryget sample_lib tr s = (None, s)" "lib_run sample_lib t = Some" "lib_timers sample_lib t = Some"
  "lib_add_event sample_lib tr e s = (0, s\<lparr>s_osip := s_osip s @ [(tr, e)]\<rparr>)"
  "lib_execute sample_lib tr e s = Some (1, s\<lparr>s_osip := s_osip s @ [(tr, e)]\<rparr>)"
  "lib_inet sample_lib = sample_inet_lib" "lib_list_add sample_lib = list_append_add"
  by (simp_all add: sample_lib_def)

lemma sample_lib_records: "records sample_lib (\<lambda>x. x)"
  by (simp add: records_def OSIP_SUCCESS_def)

definition sample_log_device :: "event_log device" where
  "sample_log_device = \<lparr>s_config = sample_config, s_ua = None, s_addr = sockaddr_zero, s_mtu = 1472, s_client = None,
     s_clients = sockaddr_zero, s_sessions = \<lparr>vec = [Ptr 0, Null], plen = 1\<rparr>, s_socket_sip = 3, s_socket_leelen = 4,
     s_state = 1, s_heap = [0 \<mapsto> sample_session], s_next = 1, s_junk = (\<lambda>_. sample_session), s_trs = Map.empty,
     s_threads = [], s_net = calm1, s_osip = []\<rparr>"

definition sample_transaction :: transaction where
  "sample_transaction = \<lparr>x_ctx_type = IST, x_transactionid = 1, x_active = True, x_proceeding = True,
     x_orig_request = sample_request,
     x_headers = \<lparr>th_topvia = \<lparr>v_text = [], v_branch = None\<rparr>, th_callid = None, th_to = None, th_from = None\<rparr>,
     x_session = None, x_out_af = AF_INET, x_out_socket = - 1\<rparr>"

lemma sample_transaction_fields [simp]:
  "x_active sample_transaction" "x_session sample_transaction = None" "x_ctx_type sample_transaction = IST"
  "x_orig_request sample_transaction = sample_request" "x_proceeding sample_transaction"
  "x_out_af sample_transaction = AF_INET"
  by (simp_all add: sample_transaction_def)

end
