(* ===== verification/Registry.thy ===== *)
theory Registry
  imports Session
begin

text \<open>
  The sessions of a device: the first part of \<^verbatim>\<open>sipleelen/sipleelen.c\<close> and the termination
  callback of \<^verbatim>\<open>sipleelen/transaction.c\<close>.

  \<open>s_sessions\<close> is the vector of pointers \<open>SIPLeelen::sessions\<close>. A session is referenced by the vector, by
  the transactions that the stack still has, and by the invite threads; \<open>refs\<close> counts these
  references and \<open>registry_inv\<close> says that the counter of a session covers them. The lock of the
  vector is not modelled: an operation runs alone.
\<close>

section \<open>Operations\<close>

text \<open>The result is the pointer, or \<open>None\<close> for NULL. After a failed initialisation the source steals slot \<open>i\<close>
  and then frees what is in it.\<close>

definition SIPLeelen_new_session :: "'x device \<Rightarrow> (nat option \<times> 'x device) option" where
  "SIPLeelen_new_session s =
     (let p = s_next s; (i, v, w) = ptrvcreate (s_sessions s) p (s_net s); s = s\<lparr>s_sessions := v, s_net := w\<rparr> in
      if i < 0 then Some (None, s)
      else let s = s\<lparr>s_next := p + 1, s_heap := (s_heap s)(p \<mapsto> s_junk s p)\<rparr> in
        case on_session (SIPLeelenSession_init (s_mtu s) (c_mtu (s_config s))) p s of
          None \<Rightarrow> None
        | Some (r, s) \<Rightarrow>
            if r = 0 then Some (Some p, s)
            else let (v, w) = ptrvsteal (s_sessions s) i (s_net s); s = s\<lparr>s_sessions := v, s_net := w\<rparr> in
              case slot_at (vec v) (nat i) of
                Null \<Rightarrow> Some (None, s)
              | _ \<Rightarrow> None)"

text \<open>\<open>index\<close> is \<open>- 1\<close> when it is unknown.\<close>

definition SIPLeelen_remove_session :: "nat \<Rightarrow> int \<Rightarrow> 'x device \<Rightarrow> 'x device" where
  "SIPLeelen_remove_session p index s =
     (let index = (if index < 0 then ptrvfind (s_sessions s) (Ptr p) else index) in
      if \<not> 0 \<le> index then s
      else let (v, w) = ptrvsteal (s_sessions s) index (s_net s) in s\<lparr>s_sessions := v, s_net := w\<rparr>)"

definition SIPLeelen_free_session :: "nat \<Rightarrow> int \<Rightarrow> 'x device \<Rightarrow> 'x device option" where
  "SIPLeelen_free_session p index s =
     (case s_heap s p of
        None \<Rightarrow> None
      | Some self \<Rightarrow> Some (SIPLeelen_remove_session p index (free_memory p s)))"

definition SIPLeelen_may_free_session :: "nat \<Rightarrow> int \<Rightarrow> 'x device \<Rightarrow> 'x device option" where
  "SIPLeelen_may_free_session p index s =
     (case s_heap s p of
        None \<Rightarrow> None
      | Some self \<Rightarrow>
          (let (zero, c) = refcount_should_free (n_refcount self); s = put_session p (self\<lparr>n_refcount := c\<rparr>) s
           in if \<not> zero then Some s else SIPLeelen_free_session p index s))"

definition SIPLeelen_decref_session :: "nat \<Rightarrow> int \<Rightarrow> 'x device \<Rightarrow> 'x device option" where
  "SIPLeelen_decref_session p index s =
     (case s_heap s p of
        None \<Rightarrow> None
      | Some self \<Rightarrow>
          (let s = put_session p (self\<lparr>n_refcount := n_refcount self - 1\<rparr>) s
           in if n_refcount self - 1 \<noteq> 0 then Some s else SIPLeelen_may_free_session p index s))"

text \<open>\<open>atomic_compare_exchange_strong\<close> on the transaction of a session: forget it if it is \<open>tr\<close>.\<close>

definition forget_transaction :: "nat \<Rightarrow> nat \<Rightarrow> 'x device \<Rightarrow> 'x device option" where
  "forget_transaction p tr s =
     (case s_heap s p of
        None \<Rightarrow> None
      | Some self \<Rightarrow>
          Some (if n_transaction self = Some tr then put_session p (self\<lparr>n_transaction := None\<rparr>) s else s))"

definition SIPLeelen_kill_transaction :: "'x osip_lib \<Rightarrow> nat \<Rightarrow> 'x device \<Rightarrow> 'x device option" where
  "SIPLeelen_kill_transaction lib tr s =
     (case s_trs s tr of
        None \<Rightarrow> None
      | Some x \<Rightarrow>
          (case x_session x of
             None \<Rightarrow> Some (lib_remove lib tr s)
           | Some p \<Rightarrow>
               (case forget_transaction p tr s of
                  None \<Rightarrow> None
                | Some s \<Rightarrow>
                    (case SIPLeelen_decref_session p (- 1) s of
                       None \<Rightarrow> None
                     | Some s \<Rightarrow> Some (lib_remove lib tr s)))))"

section \<open>References\<close>

definition tr_refs :: "'x device \<Rightarrow> nat \<Rightarrow> nat set" where
  "tr_refs s p = {tr. \<exists>x. s_trs s tr = Some x \<and> x_active x \<and> x_session x = Some p}"

definition session_of :: "'x device \<Rightarrow> nat \<Rightarrow> nat option" where
  "session_of s tr = (case s_trs s tr of None \<Rightarrow> None | Some x \<Rightarrow> x_session x)"

definition thread_refs :: "'x device \<Rightarrow> nat \<Rightarrow> nat" where
  "thread_refs s p = length (filter (\<lambda>tr. session_of s tr = Some p) (s_threads s))"

definition refs :: "'x device \<Rightarrow> nat \<Rightarrow> nat" where
  "refs s p = card (tr_refs s p) + thread_refs s p + (if p \<in> members (s_sessions s) then 1 else 0)"

definition unique_slots :: "'a ptrv \<Rightarrow> bool" where
  "unique_slots v \<longleftrightarrow> (\<forall>p. count_list (slots v) (Ptr p) \<le> 1)"

text \<open>Every referenced session is allocated and its counter is at least the number of its references, but for
  \<open>d\<close> references that were just given up; what is beyond \<open>s_next\<close> was never allocated.\<close>

definition covered :: "'x device \<Rightarrow> nat \<Rightarrow> nat \<Rightarrow> bool" where
  "covered s p d \<longleftrightarrow>
     (d < refs s p \<longrightarrow> (\<exists>self. s_heap s p = Some self \<and> refs s p \<le> unat (n_refcount self) + d))"

definition registry_base :: "'x device \<Rightarrow> bool" where
  "registry_base s \<longleftrightarrow>
     wf_ptrv (s_sessions s) \<and> unique_slots (s_sessions s) \<and> finite (dom (s_trs s)) \<and>
     (\<forall>p. s_next s \<le> p \<longrightarrow> s_heap s p = None) \<and>
     (\<forall>tr \<in> set (s_threads s). session_of s tr \<noteq> None)"

definition registry_inv :: "'x device \<Rightarrow> bool" where
  "registry_inv s \<longleftrightarrow> registry_base s \<and> (\<forall>p. covered s p 0)"

definition registry_owing :: "'x device \<Rightarrow> nat \<Rightarrow> bool" where
  "registry_owing s p \<longleftrightarrow> registry_base s \<and> covered s p 1 \<and> (\<forall>q. q \<noteq> p \<longrightarrow> covered s q 0)"

section \<open>Lemmas: references\<close>

lemma refs_cong:
  "s_trs s' = s_trs s \<Longrightarrow> s_threads s' = s_threads s \<Longrightarrow> s_sessions s' = s_sessions s \<Longrightarrow> refs s' p = refs s p"
  by (simp add: refs_def tr_refs_def thread_refs_def session_of_def)

lemma refs_put_session [simp]: "refs (put_session q self s) p = refs s p"
  by (rule refs_cong) simp_all

lemma refs_free_memory [simp]: "refs (free_memory q s) p = refs s p"
  by (rule refs_cong) simp_all

lemma session_of_simps [simp]:
  "session_of (put_session q self s) tr = session_of s tr" "session_of (free_memory q s) tr = session_of s tr"
  by (simp_all add: session_of_def)

lemma member_refs: "p \<in> members (s_sessions s) \<Longrightarrow> 0 < refs s p"
  by (simp add: refs_def)

lemma tr_refs_finite: "finite (dom (s_trs s)) \<Longrightarrow> finite (tr_refs s p)"
  by (rule finite_subset [of _ "dom (s_trs s)"]) (auto simp: tr_refs_def)

lemma tr_refs_pos: "finite (dom (s_trs s)) \<Longrightarrow> tr \<in> tr_refs s p \<Longrightarrow> 0 < refs s p"
  using tr_refs_finite [of s p] by (auto simp: refs_def card_gt_0_iff)

lemma thread_refs_pos: "tr \<in> set (s_threads s) \<Longrightarrow> session_of s tr = Some p \<Longrightarrow> 0 < thread_refs s p"
  by (auto simp: thread_refs_def filter_empty_conv)

lemma registry_live:
  "registry_inv s \<Longrightarrow> 0 < refs s p \<Longrightarrow> \<exists>self. s_heap s p = Some self \<and> refs s p \<le> unat (n_refcount self)"
  by (simp add: registry_inv_def covered_def)

lemma registry_fresh: "registry_inv s \<Longrightarrow> s_next s \<le> p \<Longrightarrow> refs s p = 0"
  by (metis gr0I option.distinct(1) registry_base_def registry_inv_def registry_live)

text \<open>Only the counters, the references and the allocation matter.\<close>

lemma registry_put_session:
  assumes "registry_inv s" and "s_heap s p = Some self" and "n_refcount self' = n_refcount self"
  shows "registry_inv (put_session p self' s)"
proof -
  have "registry_base (put_session p self' s)"
    using assms(1,2) by (auto simp: registry_inv_def registry_base_def)
  moreover have "covered (put_session p self' s) q 0" for q
    using registry_live [OF assms(1), of q] assms(2,3) by (auto simp: covered_def)
  ultimately show ?thesis by (simp add: registry_inv_def)
qed

lemma registry_other_fields [simp]:
  "registry_inv (s\<lparr>s_net := w\<rparr>) = registry_inv s" "registry_inv (s\<lparr>s_osip := x\<rparr>) = registry_inv s"
  by (simp_all add: registry_inv_def registry_base_def covered_def refs_def tr_refs_def thread_refs_def session_of_def)

section \<open>Lemmas: the vector of sessions\<close>

lemma count_list_update:
  "i < length xs \<Longrightarrow> count_list (xs[i := y]) x + (if xs ! i = x then 1 else 0) = count_list xs x + (if y = x then 1 else 0)"
proof (induction xs arbitrary: i)
  case (Cons a xs)
  show ?case
  proof (cases i)
    case (Suc n)
    then show ?thesis using Cons.IH [of n] Cons.prems by (cases "a = x") simp_all
  qed simp
qed simp

lemma count_list_take: "count_list (take m xs) x \<le> count_list xs x"
  by (metis append_take_drop_id count_list_append le_add1)

lemma members_count: "p \<in> members v \<longleftrightarrow> 0 < count_list (slots v) (Ptr p)"
  using count_list_0_iff [of "slots v" "Ptr p"] by (auto simp: members_def)

lemma ptrvsteal_members:
  assumes "wf_ptrv v" and "unique_slots v" and "0 \<le> i" and "i < int (plen v)" and "ptrvsteal v i w = (v', w')"
  shows "wf_ptrv v'" and "unique_slots v'" and "members v' \<subseteq> members v"
    and "slots v ! nat i = Ptr p \<Longrightarrow> p \<notin> members v'"
proof -
  obtain m where m: "wf_ptrv v'" "slots v' = take m ((slots v)[nat i := Null])"
    using ptrvsteal_slots [OF assms(1,4,3,5)] by blast
  have i: "nat i < length (slots v)" using assms by simp
  have le: "count_list (slots v') (Ptr q) + (if slots v ! nat i = Ptr q then 1 else 0) \<le> count_list (slots v) (Ptr q)" for q
    using count_list_update [OF i, of Null "Ptr q"] count_list_take [of m "(slots v)[nat i := Null]" "Ptr q"] m(2)
    by (auto split: if_splits)
  show "wf_ptrv v'" by (fact m(1))
  show "unique_slots v'" "members v' \<subseteq> members v"
    using le assms(2) unfolding unique_slots_def members_count subset_iff
    by (meson add_leD1 le_trans, metis add_leD1 gr0I le_zero_eq members_count)
  show "slots v ! nat i = Ptr p \<Longrightarrow> p \<notin> members v'"
    using le [of p] assms(2) by (simp add: unique_slots_def members_count) (metis Suc_le_eq gr0I le_antisym not_less_eq_eq one_le_numeral)
qed

lemma unique_slots_insert:
  assumes "wf_ptrv v" and "unique_slots v" and "e \<notin> members v" and "ptrvinsert v e w = (i, v', w')" and "0 \<le> i"
  shows "unique_slots v'"
proof -
  have "count_list (slots v') (Ptr p) = count_list (slots v) (Ptr p) + (if p = e then 1 else 0)" for p
    using ptrvinsert_slots [OF assms(1,4,5)]
  proof
    assume "slots v' = slots v @ [Ptr e]"
    then show ?thesis by simp
  next
    assume "nat i < plen v \<and> slots v ! nat i = Null \<and> slots v' = (slots v)[nat i := Ptr e]"
    then show ?thesis
      using count_list_update [of "nat i" "slots v" "Ptr e" "Ptr p"] assms(1) by (auto split: if_splits)
  qed
  then show ?thesis
    using assms(2,3) by (auto simp: unique_slots_def members_count)
qed

definition slot_ok :: "nat \<Rightarrow> int \<Rightarrow> 'x device \<Rightarrow> bool" where
  "slot_ok p index s \<longleftrightarrow>
     (0 \<le> index \<longrightarrow> index < int (plen (s_sessions s)) \<and> slots (s_sessions s) ! nat index = Ptr p)"

lemma remove_session_ok:
  assumes "wf_ptrv (s_sessions s)" and "unique_slots (s_sessions s)" and "slot_ok p index s"
    and "s' = SIPLeelen_remove_session p index s"
  shows "wf_ptrv (s_sessions s')" and "unique_slots (s_sessions s')"
    and "members (s_sessions s') \<subseteq> members (s_sessions s)" and "p \<notin> members (s_sessions s')"
    and "s_heap s' = s_heap s" and "s_trs s' = s_trs s" and "s_threads s' = s_threads s" and "s_next s' = s_next s"
proof -
  let ?v = "s_sessions s"
  let ?i = "if index < 0 then ptrvfind ?v (Ptr p) else index"
  obtain v w where st: "ptrvsteal ?v ?i (s_net s) = (v, w)" by fastforce
  have s': "s' = (if 0 \<le> ?i then s\<lparr>s_sessions := v, s_net := w\<rparr> else s)"
    using assms(4) st by (simp add: SIPLeelen_remove_session_def Let_def split: prod.splits)
  have "0 \<le> ?i \<longrightarrow> ?i < int (plen ?v) \<and> slots ?v ! nat ?i = Ptr p" "\<not> 0 \<le> ?i \<longrightarrow> p \<notin> members ?v"
    using ptrvfind_spec [OF assms(1), of p] assms(3) by (auto simp: slot_ok_def)
  with ptrvsteal_members [OF assms(1,2) _ _ st] assms(1,2) s'
  show "wf_ptrv (s_sessions s')" "unique_slots (s_sessions s')"
    "members (s_sessions s') \<subseteq> members (s_sessions s)" "p \<notin> members (s_sessions s')"
    by auto
  show "s_heap s' = s_heap s" "s_trs s' = s_trs s" "s_threads s' = s_threads s" "s_next s' = s_next s"
    by (simp_all add: s')
qed

lemma refs_fewer_members:
  "s_trs s' = s_trs s \<Longrightarrow> s_threads s' = s_threads s \<Longrightarrow> members (s_sessions s') \<subseteq> members (s_sessions s) \<Longrightarrow>
   refs s' p \<le> refs s p"
  by (auto simp: refs_def tr_refs_def thread_refs_def session_of_def)

text \<open>Giving up a reference: the session lives on with a smaller counter, or it is freed and the vector
  forgets it.\<close>

lemma decref_session_owing:
  assumes inv: "registry_inv s" and pos: "0 < refs s p" and ok: "slot_ok p index s"
  shows "\<exists>s'. SIPLeelen_decref_session p index s = Some s' \<and> registry_owing s' p \<and>
    s_trs s' = s_trs s \<and> s_threads s' = s_threads s \<and> s_next s' = s_next s \<and>
    members (s_sessions s') \<subseteq> members (s_sessions s) \<and>
    (s_heap s' p = None \<longrightarrow> refs s p = 1 \<and> p \<notin> members (s_sessions s'))"
proof -
  obtain self where self: "s_heap s p = Some self" "refs s p \<le> unat (n_refcount self)"
    using registry_live [OF inv pos] by blast
  let ?s1 = "put_session p (self\<lparr>n_refcount := n_refcount self - 1\<rparr>) s"
  have base: "registry_base s" using inv by (simp add: registry_inv_def)
  have u: "unat (n_refcount self - 1) + 1 = unat (n_refcount self)"
    using self(2) pos by (metis One_nat_def Suc_eq_plus1 Suc_pred le_zero_eq not_gr0 unat_eq_0 unat_minus_one)
  show ?thesis
  proof (cases "n_refcount self - 1 = 0")
    case False
    have "registry_owing ?s1 p"
      using base self u registry_live [OF inv] by (auto simp: registry_owing_def registry_base_def covered_def)
    then show ?thesis using False self by (simp add: SIPLeelen_decref_session_def)
  next
    case True
    with u self(2) pos have one: "refs s p = 1" by simp
    let ?s2 = "free_memory p (put_session p (self\<lparr>n_refcount := 1\<rparr>) ?s1)"
    define s' where "s' = SIPLeelen_remove_session p index ?s2"
    have r: "SIPLeelen_decref_session p index s = Some s'"
      using True self(1)
      by (simp add: SIPLeelen_decref_session_def SIPLeelen_may_free_session_def SIPLeelen_free_session_def s'_def
          fun_upd_same put_session_def)
    have ok2: "slot_ok p index ?s2" using ok by (simp add: slot_ok_def)
    have wf2: "wf_ptrv (s_sessions ?s2)" and unique2: "unique_slots (s_sessions ?s2)"
      using base by (simp_all add: registry_base_def)
    note rm = remove_session_ok [OF wf2 unique2 ok2 s'_def]
    have le: "refs s' q \<le> refs s q" for q
      using refs_fewer_members [of s' s q] rm by simp
    have "covered s' q 0" if "q \<noteq> p" for q
      using le [of q] registry_live [OF inv, of q] rm(5) that by (auto simp: covered_def)
    moreover have "covered s' p 1" using le [of p] one by (simp add: covered_def)
    moreover have "registry_base s'"
      using base rm by (auto simp: registry_base_def session_of_def)
    ultimately show ?thesis
      using r rm one by (auto simp: registry_owing_def)
  qed
qed

text \<open>Paying: one reference of the session is gone.\<close>

lemma registry_pay:
  assumes "registry_owing s p" and "s_heap s' = s_heap s" and "registry_base s'"
    and "\<And>q. refs s' q \<le> refs s q" and "refs s' p \<le> refs s p - 1"
  shows "registry_inv s'"
proof -
  have "covered s' q 0" for q
  proof (cases "q = p")
    case True
    then show ?thesis using assms(1,2,5) by (auto simp: registry_owing_def covered_def)
  next
    case False
    then show ?thesis using assms(1,2) assms(4) [of q] by (fastforce simp: registry_owing_def covered_def)
  qed
  then show ?thesis using assms(3) by (simp add: registry_inv_def)
qed

text \<open>The stack drops a transaction from its lists.\<close>

definition deactivate :: "nat \<Rightarrow> 'x device \<Rightarrow> 'x device" where
  "deactivate tr s =
     s\<lparr>s_trs := (\<lambda>t. if t = tr then map_option (\<lambda>x. x\<lparr>x_active := False\<rparr>) (s_trs s tr) else s_trs s t)\<rparr>"

lemma deactivate_fields [simp]:
  "s_heap (deactivate tr s) = s_heap s" "s_sessions (deactivate tr s) = s_sessions s"
  "s_threads (deactivate tr s) = s_threads s" "s_next (deactivate tr s) = s_next s"
  by (simp_all add: deactivate_def)

lemma session_of_deactivate [simp]: "session_of (deactivate tr s) t = session_of s t"
  by (cases "s_trs s tr") (auto simp: session_of_def deactivate_def)

lemma tr_refs_deactivate: "tr_refs (deactivate tr s) p = tr_refs s p - {tr}"
  by (auto simp: tr_refs_def deactivate_def)

lemma refs_deactivate:
  assumes "finite (dom (s_trs s))"
  shows "refs (deactivate tr s) p = refs s p - (if tr \<in> tr_refs s p then 1 else 0)"
proof -
  have "thread_refs (deactivate tr s) p = thread_refs s p" by (simp add: thread_refs_def)
  moreover have "card (tr_refs s p - {tr}) = card (tr_refs s p) - (if tr \<in> tr_refs s p then 1 else 0)"
    using tr_refs_finite [OF assms, of p] by simp
  moreover have "0 < card (tr_refs s p)" if "tr \<in> tr_refs s p"
    using tr_refs_finite [OF assms, of p] that by (auto simp: card_gt_0_iff)
  ultimately show ?thesis by (auto simp: refs_def tr_refs_deactivate)
qed

lemma dom_deactivate [simp]: "dom (s_trs (deactivate tr s)) = dom (s_trs s)"
  by (auto simp: deactivate_def dom_def split: if_splits)

lemma registry_base_deactivate: "registry_base s \<Longrightarrow> registry_base (deactivate tr s)"
  by (simp add: registry_base_def)

lemma kill_transaction_inv:
  assumes inv: "registry_inv s" and "lib_remove lib tr = deactivate tr"
    and x: "s_trs s tr = Some x" "x_active x"
  shows "\<exists>s'. SIPLeelen_kill_transaction lib tr s = Some s' \<and> registry_inv s'"
proof (cases "x_session x")
  case None
  have base: "registry_base s" using inv by (simp add: registry_inv_def)
  moreover have "tr \<notin> tr_refs s q" for q using None x by (simp add: tr_refs_def)
  ultimately have "covered (deactivate tr s) q 0" for q
    using registry_live [OF inv, of q] by (simp add: covered_def refs_deactivate registry_base_def)
  then show ?thesis
    using None x assms(2) registry_base_deactivate [OF base]
    by (simp add: SIPLeelen_kill_transaction_def registry_inv_def)
next
  case (Some p)
  have base: "registry_base s" using inv by (simp add: registry_inv_def)
  have tr: "tr \<in> tr_refs s p" using x Some by (simp add: tr_refs_def)
  with base have pos: "0 < refs s p" by (intro tr_refs_pos) (simp_all add: registry_base_def)
  obtain self where self: "s_heap s p = Some self" using registry_live [OF inv pos] by blast
  let ?s1 = "if n_transaction self = Some tr then put_session p (self\<lparr>n_transaction := None\<rparr>) s else s"
  have inv1: "registry_inv ?s1" using registry_put_session [OF inv self] inv by simp
  have same: "s_trs ?s1 = s_trs s" "refs ?s1 = refs s" by (auto simp: fun_eq_iff)
  obtain s2 where s2: "SIPLeelen_decref_session p (- 1) ?s1 = Some s2" "registry_owing s2 p"
    "s_trs s2 = s_trs ?s1"
    using decref_session_owing [OF inv1, of p "- 1"] pos same by (auto simp: slot_ok_def)
  have fin: "registry_base s2" using s2(2) by (simp add: registry_owing_def)
  have "tr \<in> tr_refs s2 p" using tr s2(3) same by (simp add: tr_refs_def)
  then have "registry_inv (deactivate tr s2)"
    using fin by (intro registry_pay [OF s2(2)]) (simp_all add: refs_deactivate registry_base_deactivate registry_base_def)
  then show ?thesis
    using x Some self s2(1) assms(2) by (simp add: SIPLeelen_kill_transaction_def forget_transaction_def)
qed

end
