(* ===== verification/Uac.thy ===== *)
theory Uac
  imports Registry
begin

text \<open>
  \<^verbatim>\<open>sipleelen/uac.h\<close> and \<^verbatim>\<open>sipleelen/uac.c\<close>: a session receives a LEELEN message, and the
  callbacks for the responses to our own requests.

  The labels of \<open>SIPLeelenSession_receive\<close> that leave its \<open>switch\<close> are the values of \<open>outcome\<close>. A
  list of formats is a vector, and the null pointer is the vector without memory; formats that
  \<open>LeelenDialog_receive\<close> did not store are indeterminate, and using them is undefined: \<open>None\<close>.
\<close>

section \<open>Operations\<close>

datatype outcome = Done | Failed | Neutral | Reply int

definition hex_digit :: "nat \<Rightarrow> char" where
  "hex_digit d = (if d < 10 then digit_char d else char_of (87 + d))"

definition hex8 :: "u32 \<Rightarrow> char list" where
  "hex8 i = map (\<lambda>k. hex_digit (unat (drop_bit (4 * (7 - k)) i AND 0xf))) [0..<8]"

definition LEELEN2SIP_NAME :: "char list" where
  "LEELEN2SIP_NAME = ''LEELEN2SIP''"

text \<open>Set the local tag of the request when it has none: \<open>osip_malloc\<close> and \<open>osip_to_set_tag\<close>.\<close>

definition uac_set_tag :: "nat \<Rightarrow> u32 \<Rightarrow> 'x device \<Rightarrow> (bool \<times> 'x device) option" where
  "uac_set_tag tr i s =
     (case s_trs s tr of
        None \<Rightarrow> None
      | Some x \<Rightarrow>
          (case q_to (x_orig_request x) of
             None \<Rightarrow> None
           | Some to \<Rightarrow>
               if g_tag to \<noteq> None then Some (True, s)
               else let (ok, s) = on_net sys s in
                 if \<not> ok then Some (False, s)
                 else let (ok, s) = on_net sys s in
                   if \<not> ok then Some (False, s)
                   else Some (True, put_transaction tr
                     (x\<lparr>x_orig_request := (x_orig_request x)\<lparr>q_to := Some (to\<lparr>g_tag := Some (hex8 i)\<rparr>)\<rparr>\<rparr>) s)))"

text \<open>The session description of the answer: \<open>None\<close> is any of its failures.\<close>

definition uac_sdp ::
  "'x osip_lib \<Rightarrow> af \<Rightarrow> in6_addr \<Rightarrow> u32 \<Rightarrow> u16 \<Rightarrow> u16 \<Rightarrow> char list ptrv \<Rightarrow> char list ptrv \<Rightarrow> net \<Rightarrow>
     char list option \<times> net"
where
  "uac_sdp lib f ours i audio video audio_formats video_formats w =
     (case sdp_message_create (lib_ntop lib) (BADPARAMETER (lib_codes lib)) (NOMEM (lib_codes lib)) f ours
             (showd (unat i)) LEELEN2SIP_NAME w of
        (r, None, w) \<Rightarrow> (None, w)
      | (r, Some sdp, w) \<Rightarrow>
          let (ra, medias, w) =
                (if audio \<noteq> 0 then encode_media_formats (lib_add_string lib) (lib_add_attribute lib) (lib_add_media lib)
                   [] ''audio'' audio audio_formats w else (0, [], w))
          in if ra \<noteq> 0 then (None, w)
             else let (rv, medias, w) =
                    (if video \<noteq> 0 then encode_media_formats (lib_add_string lib) (lib_add_attribute lib)
                       (lib_add_media lib) medias ''video'' video video_formats w else (0, medias, w))
               in if rv \<noteq> 0 then (None, w)
                  else let (res, body) = lib_sdp_to_str lib sdp medias
                    in if res = OSIP_SUCCESS then (Some body, w) else (None, w))"

text \<open>The response with the description, and the SIP dialog of the session.\<close>

definition uac_send_answer ::
  "'x osip_lib \<Rightarrow> nat \<Rightarrow> nat \<Rightarrow> char list \<Rightarrow> 'x device \<Rightarrow> (outcome \<times> 'x device) option"
where
  "uac_send_answer lib p tr body s =
     (case (s_trs s tr, s_heap s p) of
        (Some x, Some self) \<Rightarrow>
          (let request = x_orig_request x;
               (res, response, w) = osip_message_response (lib_codes lib) (lib_reason lib) request 200 (s_ua s) (s_net s)
           in if res \<noteq> OSIP_SUCCESS then Some (Reply 500, s\<lparr>s_net := w\<rparr>)
              else
                case build [(\<lambda>m. m\<lparr>q_bodies := q_bodies m @ [body]\<rparr>),
                     (\<lambda>m. m\<lparr>q_content_type := Some (Some ''application'', Some ''sdp'')\<rparr>),
                     set_header ''Expires'' ''5;refresher=uac''] (the response) w of
                  (None, w) \<Rightarrow> Some (Reply 500, s\<lparr>s_net := w\<rparr>)
                | (Some response, w) \<Rightarrow>
                    let s = s\<lparr>s_net := w\<rparr>;
                        (ok, s) = (if n_sip self = None then
                            let (ok, s) = on_net sys s
                            in (ok, if ok then put_session p
                                   (self\<lparr>n_sip := Some (lib_dialog_as_uas lib request response)\<rparr>) s else s)
                          else (True, s))
                    in if \<not> ok then Some (Reply 500, s)
                       else case osip_transaction_send_sipmessage lib tr response True s of
                              None \<Rightarrow> None
                            | Some (r, s) \<Rightarrow> Some (if r = OSIP_SUCCESS then Done else Reply 500, s))
      | _ \<Rightarrow> None)"

text \<open>From the label \<open>connecting\<close> on: answer the INVITE of the session's transaction.\<close>

definition uac_connecting ::
  "'x osip_lib \<Rightarrow> nat \<Rightarrow> nat option \<Rightarrow> u32 \<Rightarrow> char list ptrv \<Rightarrow> char list ptrv \<Rightarrow> 'x device \<Rightarrow>
     (outcome \<times> 'x device) option"
where
  "uac_connecting lib p tr i audio_formats video_formats s =
     (case tr of
        None \<Rightarrow> Some (Failed, s)
      | Some tr \<Rightarrow>
          (case s_trs s tr of
             None \<Rightarrow> None
           | Some x \<Rightarrow>
               if x_ctx_type x \<noteq> IST then Some (Failed, s)
               else case on_session (SIPLeelenSession_connect (s_addr s) (vec audio_formats \<noteq> [])
                           (vec video_formats \<noteq> [])) p s of
                   None \<Rightarrow> None
                 | Some ((r, pa, pv, _), s) \<Rightarrow>
                     if r \<noteq> 0 then Some (Reply 500, s)
                     else let audio = (case pa of None \<Rightarrow> 0 | Some port \<Rightarrow> port);
                              video = (case pv of None \<Rightarrow> 0 | Some port \<Rightarrow> port)
                       in case uac_set_tag tr i s of
                            None \<Rightarrow> None
                          | Some (ok, s) \<Rightarrow>
                              if \<not> ok then Some (Reply 500, s)
                              else (case s_heap s p of
                                 None \<Rightarrow> None
                               | Some self \<Rightarrow>
                                   (let (body, w) = uac_sdp lib (x_out_af x) (n_ours self) i audio video
                                          audio_formats video_formats (s_net s);
                                        s = s\<lparr>s_net := w\<rparr>
                                    in case body of
                                         None \<Rightarrow> Some (Reply 500, s)
                                       | Some body \<Rightarrow> uac_send_answer lib p tr body s))))"

definition is_invitation :: "u32 \<Rightarrow> bool" where
  "is_invitation code \<longleftrightarrow>
     code = LEELEN_CODE_CALL \<or> code = LEELEN_CODE_VIEW \<or> code = LEELEN_CODE_VOICE_MESSAGE \<or> code = LEELEN_CODE_ACCEPTED"

text \<open>The \<open>switch\<close> on the code of the message.\<close>

definition uac_dispatch ::
  "'x osip_lib \<Rightarrow> nat \<Rightarrow> u32 \<Rightarrow> LeelenDialogState \<Rightarrow> nat option \<Rightarrow> u32 \<Rightarrow> formats_out \<Rightarrow> formats_out \<Rightarrow> 'x device \<Rightarrow>
     (outcome \<times> 'x device) option"
where
  "uac_dispatch lib p code old_state tr i audio_formats video_formats s =
     (let connecting = (case (audio_formats, video_formats) of
            (Some a, Some v) \<Rightarrow> uac_connecting lib p tr i a v s
          | _ \<Rightarrow> None)
      in if code = LEELEN_CODE_BYE then
           (if old_state = DISCONNECTED then Some (Done, s)
            else if old_state = CONNECTING then
              (case tr of
                 None \<Rightarrow> Some (Neutral, s)
               | Some tr \<Rightarrow>
                   (case s_trs s tr of
                      None \<Rightarrow> None
                    | Some x \<Rightarrow> Some (if x_ctx_type x = IST then Reply 487 else Neutral, s)))
            else (case SIPLeelenSession_bye_sip lib p True s of
                    None \<Rightarrow> None
                  | Some (_, s) \<Rightarrow> Some (Done, s)))
         else if is_invitation code then
           (if old_state = DISCONNECTING then Some (Failed, s)
            else if old_state = CONNECTING then connecting
            else if old_state = CONNECTED then Some (Done, s)
            else if \<not> (s_client s \<noteq> None \<and> sa_family (s_clients s) \<noteq> AF_UNSPEC) then Some (Failed, s)
            else (case s_heap s p of
                    None \<Rightarrow> None
                  | Some self \<Rightarrow> Some (Done, put_session p (SIPLeelenSession_incref self) s)))
         else if code = LEELEN_CODE_OK then
           (if old_state \<noteq> CONNECTING then Some (Done, s) else connecting)
         else Some (Neutral, s))"

text \<open>The rest: the reply, the end of the LEELEN dialog on a failure, the result.\<close>

definition uac_finish ::
  "'x osip_lib \<Rightarrow> nat \<Rightarrow> nat option \<Rightarrow> outcome \<Rightarrow> 'x device \<Rightarrow> (int \<times> 'x device) option"
where
  "uac_finish lib p tr out s =
     (let fail = (\<lambda>s. case on_session (SIPLeelenSession_bye_leelen (s_socket_leelen s)) p s of
                        None \<Rightarrow> None | Some (_, s) \<Rightarrow> Some (1, s))
      in case out of
           Done \<Rightarrow> Some (0, s)
         | Neutral \<Rightarrow> Some (1, s)
         | Failed \<Rightarrow> fail s
         | Reply status_code \<Rightarrow>
             (case tr of
                None \<Rightarrow> None
              | Some tr \<Rightarrow>
                  (case osip_transaction_response lib tr status_code (s_ua s) True s of
                     None \<Rightarrow> None
                   | Some (r, s) \<Rightarrow>
                       if r \<noteq> OSIP_SUCCESS then fail s
                       else if 400 \<le> status_code then Some (1, s) else fail s)))"

text \<open>\<open>stack\<close>: the indeterminate local message of \<open>LeelenDialog_receive\<close>.\<close>

definition SIPLeelenSession_receive ::
  "'x osip_lib \<Rightarrow> LeelenMessage \<Rightarrow> nat \<Rightarrow> char list \<Rightarrow> int \<Rightarrow> sockaddr_in46 \<Rightarrow> 'x device \<Rightarrow> (int \<times> 'x device) option"
where
  "SIPLeelenSession_receive lib stack p msg sockfd src s =
     (case s_heap s p of
        None \<Rightarrow> None
      | Some self \<Rightarrow>
          (let i = d_id (n_leelen self); code = LEELEN_MESSAGE_CODE msg in
           if code = LEELEN_CODE_OPEN_GATE then Some (255, s)
           else case sockaddr_same (d_theirs (n_leelen self)) src of
               None \<Rightarrow> None
             | Some same \<Rightarrow>
                 let d = (if same then n_leelen self else (n_leelen self)\<lparr>d_theirs := src\<rparr>);
                     old_state = d_state d;
                     (r, d, audio_formats, video_formats, w) = LeelenDialog_receive d stack msg sockfd True True (s_net s);
                     s = put_session p (self\<lparr>n_leelen := d\<rparr>) s\<lparr>s_net := w\<rparr>
                 in if r = - 1 then Some (1, s)
                    else if r = 254 then Some (1, s)
                    else let tr = n_transaction self in
                      case uac_dispatch lib p code old_state tr i audio_formats video_formats s of
                        None \<Rightarrow> None
                      | Some (out, s) \<Rightarrow>
                          (case uac_finish lib p tr out s of
                             None \<Rightarrow> None
                           | Some (res, s) \<Rightarrow>
                               if audio_formats = None \<or> video_formats = None then None else Some (res, s))))"

text \<open>The callbacks for responses: nothing for 1xx and 2xx, the end of the LEELEN dialog for 3xx to 6xx.\<close>

definition SIPLeelen_ict_connect :: "nat \<Rightarrow> 'x device \<Rightarrow> 'x device option" where
  "SIPLeelen_ict_connect tr s = Some s"

definition SIPLeelen_ict_terminate :: "nat \<Rightarrow> 'x device \<Rightarrow> 'x device option" where
  "SIPLeelen_ict_terminate tr s =
     (case s_trs s tr of
        None \<Rightarrow> None
      | Some x \<Rightarrow>
          (case x_session x of
             None \<Rightarrow> None
           | Some p \<Rightarrow>
               (case on_session (SIPLeelenSession_bye_leelen (s_socket_leelen s)) p s of
                  None \<Rightarrow> None
                | Some (_, s) \<Rightarrow> Some s)))"

section \<open>Lemmas\<close>

text \<open>A stack that consumes an event at once and only takes note of it.\<close>

definition executes :: "'x osip_lib \<Rightarrow> ('x \<Rightarrow> (nat \<times> osip_event) list) \<Rightarrow> bool" where
  "executes lib sent \<longleftrightarrow>
     (\<forall>tr e s. \<exists>x. lib_execute lib tr e s = Some (1, s\<lparr>s_osip := x\<rparr>) \<and> sent x = sent (s_osip s) @ [(tr, e)])"

lemma executesD:
  "executes lib sent \<Longrightarrow> \<exists>x. lib_execute lib tr e s = Some (1, s\<lparr>s_osip := x\<rparr>) \<and> sent x = sent (s_osip s) @ [(tr, e)]"
  unfolding executes_def by blast

lemma send_now:
  assumes "executes lib sent" and "codes_ok (lib_codes lib)"
    and "osip_transaction_send_sipmessage lib tr m True s = Some (r, s')"
  shows "s_heap s' = s_heap s \<and> s_trs s' = s_trs s \<and>
    (if r = OSIP_SUCCESS then sent (s_osip s') = sent (s_osip s) @ [(tr, True, m)] else s_osip s' = s_osip s)"
  using assms(2,3) executesD [OF assms(1), of tr "(True, m)" "s\<lparr>s_net := step (s_net s)\<rparr>"]
  by (auto simp: osip_transaction_send_sipmessage_def codes_ok_def OSIP_SUCCESS_def split: if_splits option.splits)

lemma set_tag_result:
  assumes "uac_set_tag tr i s = Some (ok, s')" and "s_trs s tr = Some x"
  shows "s_heap s' = s_heap s \<and> s_osip s' = s_osip s \<and>
    (ok \<longrightarrow> (\<exists>x' to. s_trs s' tr = Some x' \<and> q_to (x_orig_request x') = Some to \<and> g_tag to \<noteq> None \<and>
      x_orig_request x' = (x_orig_request x)\<lparr>q_to := Some to\<rparr>))"
proof -
  obtain to where to: "q_to (x_orig_request x) = Some to"
    using assms by (auto simp: uac_set_tag_def split: option.splits)
  have same: "(x_orig_request x)\<lparr>q_to := Some to\<rparr> = x_orig_request x" using to by (cases "x_orig_request x") simp
  show ?thesis
  proof (cases "g_tag to = None")
    case False
    then show ?thesis using assms to same by (auto simp: uac_set_tag_def)
  next
    case True
    then show ?thesis using assms to by (auto simp: uac_set_tag_def put_transaction_def Let_def split: if_splits)
  qed
qed

text \<open>The response of \<open>uac_send_answer\<close>: it is the last thing that can fail.\<close>

lemma send_answer_result:
  assumes "executes lib sent" and "codes_ok (lib_codes lib)" and "uac_send_answer lib p tr body s = Some (out, s')"
    and "s_trs s tr = Some x"
  shows "out \<in> {Done, Reply 500} \<and>
    (if out = Done then
       (\<exists>m self'. sent (s_osip s') = sent (s_osip s) @ [(tr, True, m)] \<and> q_status m = 200 \<and> mirrors (x_orig_request x) m \<and>
         q_bodies m = [body] \<and> s_heap s' p = Some self' \<and> n_sip self' \<noteq> None)
     else s_osip s' = s_osip s)"
proof -
  let ?req = "x_orig_request x"
  obtain self where self: "s_heap s p = Some self"
    using assms(3) by (auto simp: uac_send_answer_def split: option.splits)
  obtain res m w where resp: "osip_message_response (lib_codes lib) (lib_reason lib) ?req 200 (s_ua s) (s_net s) =
      (res, m, w)" by (metis prod_cases3)
  let ?fs = "[(\<lambda>m. m\<lparr>q_bodies := q_bodies m @ [body]\<rparr>),
              (\<lambda>m. m\<lparr>q_content_type := Some (Some ''application'', Some ''sdp'')\<rparr>),
              set_header ''Expires'' ''5;refresher=uac'']"
  obtain m' w' where b: "build ?fs (the m) w = (m', w')" by fastforce
  show ?thesis
  proof (cases "res = OSIP_SUCCESS \<and> m' \<noteq> None")
    case False
    then show ?thesis
      using assms(3,4) self resp b by (auto simp: uac_send_answer_def Let_def simp del: build.simps split: if_splits)
  next
    case True
    then obtain response where r: "m' = Some response" by blast
    from response_SUCCESS [of "lib_codes lib" "lib_reason lib" ?req 200 "s_ua s" "s_net s" m w] resp True assms(2)
    obtain m0 where m0: "m = Some m0" "q_status m0 = 200" "mirrors ?req m0" "q_bodies m0 = []" by blast
    have "response = fold (\<lambda>f. f) ?fs m0" using build_Some [OF b [unfolded r m0(1) option.sel]] .
    then have resp_ok: "q_status response = 200" "mirrors ?req response" "q_bodies response = [body]"
      using m0 by (simp_all add: mirrors_def set_header_def)
    define ok s1 where "ok = (n_sip self \<noteq> None \<or> w_ok w' (w_tick w'))"
      and "s1 = (if n_sip self = None then
            let s = s\<lparr>s_net := step w'\<rparr>
            in if ok then put_session p (self\<lparr>n_sip := Some (lib_dialog_as_uas lib ?req response)\<rparr>) s else s
          else s\<lparr>s_net := w'\<rparr>)"
    have s1: "s_osip s1 = s_osip s" "ok \<Longrightarrow> \<exists>self'. s_heap s1 p = Some self' \<and> n_sip self' \<noteq> None"
      using self by (auto simp: s1_def Let_def ok_def)
    have ans: "(if \<not> ok then Some (Reply 500, s1)
       else case osip_transaction_send_sipmessage lib tr response True s1 of
              None \<Rightarrow> None
            | Some (r, s) \<Rightarrow> Some (if r = OSIP_SUCCESS then Done else Reply 500, s)) = Some (out, s')"
      using assms(3,4) self resp b r m0(1) True
      by (auto simp: uac_send_answer_def Let_def ok_def s1_def simp del: build.simps)
    show ?thesis
    proof (cases ok)
      case False
      then show ?thesis using ans s1 by auto
    next
      case ok: True
      obtain q s2 where snd: "osip_transaction_send_sipmessage lib tr response True s1 = Some (q, s2)"
        "out = (if q = OSIP_SUCCESS then Done else Reply 500)" "s' = s2"
        using ans ok by (auto split: option.splits)
      from send_now [OF assms(1,2) snd(1)] s1 ok snd(2,3) resp_ok show ?thesis by auto
    qed
  qed
qed

lemma connecting_result:
  assumes "executes lib sent" and "codes_ok (lib_codes lib)"
    and "uac_connecting lib p tr i fa fv s = Some (out, s')"
  shows "out \<in> {Done, Failed, Reply 500} \<and>
    (if out = Done then
       (\<exists>t x to m self'. tr = Some t \<and> s_trs s t = Some x \<and> x_ctx_type x = IST \<and>
         sent (s_osip s') = sent (s_osip s) @ [(t, True, m)] \<and> q_status m = 200 \<and> length (q_bodies m) = 1 \<and>
         mirrors ((x_orig_request x)\<lparr>q_to := Some to\<rparr>) m \<and> g_tag to \<noteq> None \<and>
         s_heap s' p = Some self' \<and> n_sip self' \<noteq> None)
     else s_osip s' = s_osip s)"
proof (cases "\<exists>t x. tr = Some t \<and> s_trs s t = Some x \<and> x_ctx_type x = IST")
  case False
  then show ?thesis using assms(3) by (auto simp: uac_connecting_def split: option.splits if_splits)
next
  case True
  then obtain t x where t: "tr = Some t" "s_trs s t = Some x" "x_ctx_type x = IST" by blast
  let ?connect = "SIPLeelenSession_connect (s_addr s) (vec fa \<noteq> []) (vec fv \<noteq> [])"
  obtain r pa pv socks s1 where c: "on_session ?connect p s = Some ((r, pa, pv, socks), s1)"
    using assms(3) t by (auto simp: uac_connecting_def split: option.splits)
  then have s1: "s_trs s1 = s_trs s" "s_osip s1 = s_osip s"
    by (auto simp: on_session_def put_session_def Let_def split: option.splits prod.splits)
  show ?thesis
  proof (cases "r = 0")
    case False
    then show ?thesis using assms(3) t c s1 by (auto simp: uac_connecting_def)
  next
    case r: True
    obtain ok s2 where st: "uac_set_tag t i s1 = Some (ok, s2)"
      using assms(3) t c r by (auto simp: uac_connecting_def Let_def split: option.splits)
    note tag = set_tag_result [OF st, of x]
    show ?thesis
    proof (cases ok)
      case False
      then show ?thesis using assms(3) t c r st s1 tag by (auto simp: uac_connecting_def Let_def)
    next
      case ok: True
      let ?audio = "case pa of None \<Rightarrow> 0 | Some port \<Rightarrow> port" and ?video = "case pv of None \<Rightarrow> 0 | Some port \<Rightarrow> port"
      obtain self where self: "s_heap s2 p = Some self"
        using assms(3) t c r st ok by (auto simp: uac_connecting_def Let_def split: option.splits)
      obtain body w where b: "uac_sdp lib (x_out_af x) (n_ours self) i ?audio ?video fa fv (s_net s2) = (body, w)"
        by fastforce
      obtain x' to where x': "s_trs s2 t = Some x'" "g_tag to \<noteq> None" "x_orig_request x' = (x_orig_request x)\<lparr>q_to := Some to\<rparr>"
        using tag s1 t ok by auto
      show ?thesis
      proof (cases body)
        case None
        then show ?thesis using assms(3) t c r st ok self b s1 tag by (auto simp: uac_connecting_def Let_def)
      next
        case (Some sdp)
        have ans: "uac_send_answer lib p t sdp (s2\<lparr>s_net := w\<rparr>) = Some (out, s')"
          using assms(3) t c r st ok self b Some by (simp add: uac_connecting_def Let_def)
        have "s_osip s2 = s_osip s" using s1 tag t by simp
        with send_answer_result [OF assms(1,2) ans, of x'] x' show ?thesis
        proof (cases "out = Done")
          case True
          with send_answer_result [OF assms(1,2) ans, of x'] x'(1,3) obtain m self' where
            m: "sent (s_osip s') = sent (s_osip s) @ [(t, True, m)]" "q_status m = 200"
              "mirrors ((x_orig_request x)\<lparr>q_to := Some to\<rparr>) m" "q_bodies m = [sdp]" "s_heap s' p = Some self'"
              "n_sip self' \<noteq> None"
            using \<open>s_osip s2 = s_osip s\<close> by auto
          with True t x'(2) show ?thesis by auto
        qed auto
      qed
    qed
  qed
qed

section \<open>Properties\<close>


definition accepted_device :: "event_log device" where
  "accepted_device = sample_log_device\<lparr>s_trs := [6 \<mapsto> sample_transaction\<lparr>x_session := Some 0\<rparr>]\<rparr>"

lemma accepted_device_fields [simp]:
  "s_heap accepted_device = [0 \<mapsto> sample_session]" "s_net accepted_device = calm1" "s_osip accepted_device = []"
  "s_trs accepted_device = [6 \<mapsto> sample_transaction\<lparr>x_session := Some 0\<rparr>]"
  by (simp_all add: accepted_device_def sample_log_device_def)

lemma sample_lib_executes: "executes sample_lib (\<lambda>x. x)"
  by (simp add: executes_def)

lemma send_answer_total:
  assumes "\<And>tr e s. lib_execute lib tr e s \<noteq> None" and "s_trs s tr = Some x" and "s_heap s p = Some self"
  shows "uac_send_answer lib p tr body s \<noteq> None"
proof -
  have send: "osip_transaction_send_sipmessage lib tr m True s = None \<longleftrightarrow> False" for m s
    using assms(1) [of tr "(True, m)" "s\<lparr>s_net := step (s_net s)\<rparr>"]
    by (auto simp: osip_transaction_send_sipmessage_def split: option.splits)
  show ?thesis
    using assms(2,3) by (auto simp: send uac_send_answer_def Let_def simp del: build.simps split: option.splits prod.splits)
qed


end
