(* ===== verification/Uas.thy ===== *)
theory Uas
  imports Registry
begin

text \<open>
  \<^verbatim>\<open>sipleelen/uas.h\<close> and \<^verbatim>\<open>sipleelen/uas.c\<close>: the callbacks for requests that the device
  receives, and the thread that serves an INVITE.

  A callback gets a transaction; its session is the reserved field of the transaction. The
  request that OSIP passes to a callback is the original request of the transaction. The result
  is \<open>None\<close> for a null or freed pointer. A started invite thread is an element of \<open>s_threads\<close> until it
  runs, as one step. \<open>found\<close> is the answer of \<open>LeelenDiscovery_discovery\<close>: its result and the address
  of the host.
\<close>

section \<open>The invite thread\<close>

definition discovery_status :: "int \<Rightarrow> int" where
  "discovery_status res = (if res = - 1 then 500 else if res = 254 then 404 else 500)"

text \<open>Discover the number and start the LEELEN dialog: a status code, or the session is ready. \<open>fuel\<close> is the
  number of draws for the dialog ID.\<close>

definition invite_discover ::
  "nat \<Rightarrow> int \<times> sockaddr_in46 \<Rightarrow> LeelenConfig \<Rightarrow> SIPLeelenSession \<Rightarrow> net \<Rightarrow>
     ((int + SIPLeelenSession) \<times> net) option"
where
  "invite_discover fuel found config self w =
     (case found of (res, host) \<Rightarrow>
        if res \<noteq> 0 then Some (Inl (discovery_status res), w)
        else let host =
               (if sa_family (c_addr config) \<noteq> sa_family host then
                  (if sa_family (c_addr config) = AF_INET6 then Inr (sockaddr_to6 host) else Inl 500)
                else Inr host)
          in case host of
               Inl status \<Rightarrow> Some (Inl status, w)
             | Inr host \<Rightarrow>
                 (case LeelenDialog_init fuel (n_leelen self) config host (Some (n_number self)) 0 w of
                    None \<Rightarrow> None
                  | Some (_, d, w) \<Rightarrow> Some (Inr (self\<lparr>n_leelen := d\<rparr>), w)))"

text \<open>Parse the offer and send the LEELEN invitation: a status code, or \<open>None\<close> for success.\<close>

definition invite_send ::
  "'x osip_lib \<Rightarrow> nat \<Rightarrow> osip_message \<Rightarrow> int \<Rightarrow> SIPLeelenSession \<Rightarrow> net \<Rightarrow> int option \<times> SIPLeelenSession \<times> net"
where
  "invite_send lib tr request socket_leelen self w =
     (let (_, sdp, w) = osip_message_get_sdp (lib_codes lib) (lib_parse_sdp lib) request w;
          (res, audio_formats, video_formats, w) = extract_media_formats sdp True True w
      in if res = 1 then (Some 400, self, w)
         else if res = - 1 then (Some 500, self, w)
         else let self = self\<lparr>n_transaction := Some tr\<rparr>;
                  (res, d, w) = LeelenDialog_send (n_leelen self) LEELEN_CODE_CALL socket_leelen
                    (the audio_formats) (the video_formats) w;
                  self = self\<lparr>n_leelen := d\<rparr>
           in if res \<noteq> 0 then (Some 500, self, w) else (None, self, w))"

definition SIPLeelen_ist_invite_process ::
  "'x osip_lib \<Rightarrow> nat \<Rightarrow> int \<times> sockaddr_in46 \<Rightarrow> nat \<Rightarrow> 'x device \<Rightarrow> (int \<times> 'x device) option"
where
  "SIPLeelen_ist_invite_process lib fuel found tr s =
     (case s_trs s tr of
        None \<Rightarrow> None
      | Some x \<Rightarrow>
          (case x_session x of
             None \<Rightarrow> None
           | Some p \<Rightarrow>
               (case s_heap s p of
                  None \<Rightarrow> None
                | Some self \<Rightarrow>
                    (case (if d_id (n_leelen self) = 0
                           then invite_discover fuel found (s_config s) self (s_net s)
                           else Some (Inr self, s_net s)) of
                       None \<Rightarrow> None
                     | Some (found, w) \<Rightarrow>
                         (let (status, self, w) =
                                (case found of
                                   Inl status \<Rightarrow> (Some status, self, w)
                                 | Inr self \<Rightarrow> invite_send lib tr (x_orig_request x) (s_socket_leelen s) self w);
                              s = put_session p self s\<lparr>s_net := w\<rparr>;
                              replied = (case status of
                                   None \<Rightarrow> Some (0, s)
                                 | Some status_code \<Rightarrow>
                                     (case osip_transaction_response lib tr status_code (s_ua s) True s of
                                        None \<Rightarrow> None
                                      | Some (_, s) \<Rightarrow> Some (1, s)))
                          in case replied of
                               None \<Rightarrow> None
                             | Some (ret, s) \<Rightarrow>
                                 (case on_session (\<lambda>self w. ((), self\<lparr>n_invite_state := single_finish (n_invite_state self)\<rparr>, w))
                                         p s of
                                    None \<Rightarrow> None
                                  | Some (_, s) \<Rightarrow>
                                      (case SIPLeelenSession_decref p s of
                                         None \<Rightarrow> None
                                       | Some (_, s) \<Rightarrow> Some (ret, s\<lparr>s_threads := remove1 tr (s_threads s)\<rparr>))))))))"

section \<open>INVITE\<close>

text \<open>\<open>stack\<close> is the indeterminate local \<open>number\<close>. The result is a status code or the number.\<close>

definition invite_number ::
  "LeelenNumber \<Rightarrow> LeelenConfig \<Rightarrow> osip_message \<Rightarrow> (int + LeelenNumber) option"
where
  "invite_number stack config request =
     (case q_to request of
        None \<Rightarrow> None
      | Some to \<Rightarrow>
          (case u_username (g_url to) of
             None \<Rightarrow> Some (Inl 400)
           | Some username \<Rightarrow>
               (case LeelenNumber_init stack username (Some (c_number config)) of
                  Inl _ \<Rightarrow> Some (Inl 410)
                | Inr number \<Rightarrow> Some (Inr number))))"

text \<open>Start the thread unless it runs: the status code, and the session. \<open>seen\<close>: the values of the flag while
  \<open>single_acquire\<close> waits for a stopping thread; \<open>None\<close>: it still waits.\<close>

definition invite_start ::
  "nat \<Rightarrow> nat \<Rightarrow> LeelenNumber \<Rightarrow> int list \<Rightarrow> 'x device \<Rightarrow> (int \<times> 'x device) option"
where
  "invite_start tr p number seen s =
     (case s_heap s p of
        None \<Rightarrow> None
      | Some self \<Rightarrow>
          if single_is_running (n_invite_state self) then
            Some (if \<not> LeelenNumber_equal (n_number self) number then 400 else 100, s)
          else let self = SIPLeelenSession_incref (self\<lparr>n_number := number\<rparr>) in
            case single_acquire (n_invite_state self # seen) of
              None \<Rightarrow> None
            | Some (False, flag) \<Rightarrow> Some (100, put_session p (self\<lparr>n_invite_state := flag\<rparr>) s)
            | Some (True, flag) \<Rightarrow>
                let (ok, s) = on_net sys (put_session p (self\<lparr>n_invite_state := flag\<rparr>) s) in
                if ok then Some (100, s\<lparr>s_threads := s_threads s @ [tr]\<rparr>)
                else case SIPLeelenSession_decref p
                            (put_session p (self\<lparr>n_invite_state := single_finish flag\<rparr>) s) of
                       None \<Rightarrow> None
                     | Some (_, s) \<Rightarrow> Some (500, s))"

definition SIPLeelen_ist_invite ::
  "'x osip_lib \<Rightarrow> LeelenNumber \<Rightarrow> int list \<Rightarrow> nat \<Rightarrow> 'x device \<Rightarrow> 'x device option"
where
  "SIPLeelen_ist_invite lib stack seen tr s =
     (case s_trs s tr of
        None \<Rightarrow> None
      | Some x \<Rightarrow>
          (case x_session x of
             None \<Rightarrow> None
           | Some p \<Rightarrow>
               (let request = x_orig_request x;
                    reply = (\<lambda>status_code s. map_option snd
                      (osip_transaction_response lib tr status_code (s_ua s) False s))
                in case on_session SIPLeelenSession_established p s of
                     None \<Rightarrow> None
                   | Some (established, s) \<Rightarrow>
                       if established then reply 488 s
                       else if \<not> osip_message_has_sdp request then reply 400 s
                       else (case invite_number stack (s_config s) request of
                               None \<Rightarrow> None
                             | Some (Inl status_code) \<Rightarrow> reply status_code s
                             | Some (Inr number) \<Rightarrow>
                                 (case invite_start tr p number seen s of
                                    None \<Rightarrow> None
                                  | Some (status_code, s) \<Rightarrow> reply status_code s)))))"

section \<open>BYE and CANCEL\<close>

datatype nist_type = OSIP_NIST_REGISTER | OSIP_NIST_OPTIONS | OSIP_NIST_BYE | OSIP_NIST_CANCEL

text \<open>A call that is not yet answered: the status of the reply, after the INVITE itself has been answered with
  487 if it still can be.\<close>

definition bye_connecting ::
  "'x osip_lib \<Rightarrow> nist_type \<Rightarrow> nat option \<Rightarrow> 'x device \<Rightarrow> (int \<times> 'x device) option"
where
  "bye_connecting lib type orig_tr s =
     (case orig_tr of
        None \<Rightarrow> None
      | Some orig_tr \<Rightarrow>
          (case s_trs s orig_tr of
             None \<Rightarrow> None
           | Some x \<Rightarrow>
               (let status_code = (if type = OSIP_NIST_CANCEL \<and> x_proceeding x \<or>
                                      type = OSIP_NIST_BYE \<and> \<not> x_proceeding x then 200 else 481)
                in if x_proceeding x then
                     (case osip_transaction_response lib orig_tr 487 (s_ua s) False s of
                        None \<Rightarrow> None
                      | Some (_, s) \<Rightarrow> Some (status_code, s))
                   else Some (status_code, s))))"

definition SIPLeelen_nist_bye ::
  "'x osip_lib \<Rightarrow> nist_type \<Rightarrow> nat \<Rightarrow> 'x device \<Rightarrow> 'x device option"
where
  "SIPLeelen_nist_bye lib type tr s =
     (case s_trs s tr of
        None \<Rightarrow> None
      | Some x \<Rightarrow>
          (let reply = (\<lambda>status_code s. map_option snd
                 (osip_transaction_response lib tr status_code (s_ua s) False s))
           in case x_session x of
                None \<Rightarrow> reply 481 s
              | Some p \<Rightarrow>
                  (case s_heap s p of
                     None \<Rightarrow> None
                   | Some self \<Rightarrow>
                       (case (if d_state (n_leelen self) = CONNECTING
                              then bye_connecting lib type (n_transaction self) s
                              else Some (200, s)) of
                          None \<Rightarrow> None
                        | Some (status_code, s) \<Rightarrow>
                            (case on_session (SIPLeelenSession_bye_leelen (s_socket_leelen s)) p s of
                               None \<Rightarrow> None
                             | Some (_, s) \<Rightarrow> reply status_code s)))))"

section \<open>REGISTER and OPTIONS\<close>

text \<open>\<open>STR(LEELEN2SIP_EXPIRES)\<close>: there is no macro of this name, so the string is the name itself.\<close>

definition register_expires :: "char list" where
  "register_expires = ''LEELEN2SIP_EXPIRES''"

definition register_headers :: "nist_type \<Rightarrow> (osip_message \<Rightarrow> osip_message) list" where
  "register_headers type =
     set_header ''Allow'' ''INVITE, ACK, CANCEL, OPTIONS, BYE'' #
     (if type = OSIP_NIST_REGISTER then [set_header ''Expires'' register_expires]
      else [set_header ''Accept'' ''application/sdp'',
            (\<lambda>m. m\<lparr>q_content_type := Some (Some ''application'', Some ''sdp'')\<rparr>)])"

text \<open>Save the address of the client: \<open>strdup\<close> may fail, and then the client is forgotten.\<close>

definition register_client ::
  "'x osip_lib \<Rightarrow> transaction \<Rightarrow> 'x device \<Rightarrow> 'x device option"
where
  "register_client lib x s =
     (case th_from (x_headers x) of
        None \<Rightarrow> None
      | Some from \<Rightarrow>
          (let (ok, s) = on_net sys s;
               s = (if ok then
                      let (ok, s) = on_net sys s
                      in s\<lparr>s_client := (if ok then Some (u_text (g_url from)) else None)\<rparr>
                    else s);
               (host, port) = lib_destination lib (x_orig_request x)
           in case sockaddr46_aton (lib_inet lib) host (s_clients s) of
                None \<Rightarrow> None
              | Some (_, addr) \<Rightarrow> Some (s\<lparr>s_clients := addr\<lparr>sa_port := htons port\<rparr>\<rparr>)))"

definition SIPLeelen_register ::
  "'x osip_lib \<Rightarrow> nist_type \<Rightarrow> nat \<Rightarrow> 'x device \<Rightarrow> 'x device option"
where
  "SIPLeelen_register lib type tr s =
     (case s_trs s tr of
        None \<Rightarrow> None
      | Some x \<Rightarrow>
          (let (res, response, w) = osip_message_response (lib_codes lib) (lib_reason lib) (x_orig_request x) 200
                 (s_ua s) (s_net s)
           in if res \<noteq> OSIP_SUCCESS then Some (s\<lparr>s_net := w\<rparr>)
              else case build (register_headers type) (the response) w of
                     (None, w) \<Rightarrow> Some (s\<lparr>s_net := w\<rparr>)
                   | (Some response, w) \<Rightarrow>
                       (case osip_transaction_send_sipmessage lib tr response False (s\<lparr>s_net := w\<rparr>) of
                          None \<Rightarrow> None
                        | Some (r, s) \<Rightarrow>
                            if r \<noteq> OSIP_SUCCESS then Some s
                            else if type = OSIP_NIST_REGISTER then register_client lib x s
                            else Some s)))"

section \<open>Lemmas\<close>

lemma sys_send_ok_env: "sys_send q w = (b, w') \<Longrightarrow> w_ok w' = w_ok w"
  by (auto simp: sys_send_def split: if_splits)

text \<open>Ending the LEELEN half, at a pointer.\<close>

lemma on_session_bye_leelen:
  assumes "s_heap s p = Some self" and "wf_dialog (n_leelen self)" and "d_id (n_leelen self) \<noteq> 0"
  shows "\<exists>r self' w'. on_session (SIPLeelenSession_bye_leelen fd) p s = Some (r, put_session p self' s\<lparr>s_net := w'\<rparr>) \<and>
    d_state (n_leelen self') \<in> {DISCONNECTED, DISCONNECTING} \<and> n_refcount self' = n_refcount self \<and>
    same_env (s_net s) w'"
proof -
  obtain r self' w' where b: "SIPLeelenSession_bye_leelen fd self (s_net s) = (r, self', w')" by (metis prod_cases3)
  note e = bye_leelen_effect [OF assms(2,3) b]
  have "n_refcount self' = n_refcount self" using bye_leelen_form [OF b] by (metis SIPLeelenSession.select_convs(4) SIPLeelenSession.surjective SIPLeelenSession.update_convs(1))
  then show ?thesis using assms(1) b e by (auto simp: on_session_def)
qed

lemma draw_id_first:
  assumes "1 \<le> fuel" and "take_bit 31 (w_rnd w (w_tick w)) \<noteq> 0"
  shows "draw_id fuel 0 w = Some (take_bit 31 (w_rnd w (w_tick w)), step w)"
proof -
  have kept: "draw_id n i v = Some (i, v)" if "i \<noteq> 0" for n i and v :: "'p world"
    using that by (cases n) simp_all
  from assms(1) obtain n where "fuel = Suc n" by (cases fuel) auto
  then show ?thesis using kept [OF assms(2), of n "step w"] by (simp add: sys_rand_def)
qed

lemma nist_bye_session:
  assumes "records lib sent" and "codes_ok (lib_codes lib)" and "s_trs s tr = Some x" and "x_session x = Some p"
    and "s_heap s p = Some self" and "wf_dialog (n_leelen self)" and "d_id (n_leelen self) \<noteq> 0"
    and "connecting = (d_state (n_leelen self) = CONNECTING)"
    and "connecting \<Longrightarrow> n_transaction self = Some otr \<and> s_trs s otr = Some ox"
    and "status = (if connecting \<and> \<not> (type = OSIP_NIST_CANCEL \<and> x_proceeding ox \<or> type = OSIP_NIST_BYE \<and> \<not> x_proceeding ox)
                   then 481 else 200)"
  shows "\<exists>s' self'. SIPLeelen_nist_bye lib type tr s = Some s' \<and> s_heap s' p = Some self' \<and>
    d_state (n_leelen self') \<in> {DISCONNECTED, DISCONNECTING} \<and>
    ((\<forall>i. w_ok (s_net s) i) \<and> answerable (x_orig_request x) \<and> (connecting \<longrightarrow> answerable (x_orig_request ox)) \<longrightarrow>
      (\<exists>y. (if connecting \<and> x_proceeding ox then replied sent otr (x_orig_request ox) 487 (s_osip s) y else y = s_osip s) \<and>
         replied sent tr (x_orig_request x) status y (s_osip s')))"
proof -
  let ?calm = "\<forall>i. w_ok (s_net s) i"
  have first: "\<exists>w o'. (if d_state (n_leelen self) = CONNECTING then bye_connecting lib type (n_transaction self) s else Some (200, s)) =
      Some (status, s\<lparr>s_net := w, s_osip := o'\<rparr>) \<and> same_env (s_net s) w \<and>
      (?calm \<and> (connecting \<longrightarrow> answerable (x_orig_request ox)) \<longrightarrow>
        (if connecting \<and> x_proceeding ox then replied sent otr (x_orig_request ox) 487 (s_osip s) o' else o' = s_osip s))"
  proof (cases connecting)
    case False
    have "s = s\<lparr>s_net := s_net s, s_osip := s_osip s\<rparr>" by simp
    with False show ?thesis using assms(8,10) by (intro exI [of _ "s_net s"] exI [of _ "s_osip s"]) simp
  next
    case True
    with assms(9) have o: "n_transaction self = Some otr" "s_trs s otr = Some ox" by blast+
    show ?thesis
    proof (cases "x_proceeding ox")
      case False
      then show ?thesis using True o assms(8,10)
        by (intro exI [of _ "s_net s"] exI [of _ "s_osip s"]) (simp add: bye_connecting_def)
    next
      case proceeding: True
      from transaction_response_queued [OF assms(1,2) o(2), of 487 "s_ua s"]
      obtain r w o' where q: "osip_transaction_response lib otr 487 (s_ua s) False s = Some (r, s\<lparr>s_net := w, s_osip := o'\<rparr>)"
        "same_env (s_net s) w" "replied sent otr (x_orig_request ox) 487 (s_osip s) o' \<or>
         o' = s_osip s \<and> \<not> (answerable (x_orig_request ox) \<and> ?calm)" by blast
      show ?thesis
        using True proceeding o q assms(8,10)
        by (intro exI [of _ w] exI [of _ o']) (auto simp: bye_connecting_def)
    qed
  qed
  then obtain w o' where f: "(if d_state (n_leelen self) = CONNECTING then bye_connecting lib type (n_transaction self) s else Some (200, s)) =
      Some (status, s\<lparr>s_net := w, s_osip := o'\<rparr>)" "same_env (s_net s) w"
    and first: "?calm \<and> (connecting \<longrightarrow> answerable (x_orig_request ox)) \<longrightarrow>
        (if connecting \<and> x_proceeding ox then replied sent otr (x_orig_request ox) 487 (s_osip s) o' else o' = s_osip s)"
    by blast
  let ?s1 = "s\<lparr>s_net := w, s_osip := o'\<rparr>"
  obtain r self' w' where bye: "on_session (SIPLeelenSession_bye_leelen (s_socket_leelen s)) p ?s1 =
      Some (r, put_session p self' ?s1\<lparr>s_net := w'\<rparr>)"
    "d_state (n_leelen self') \<in> {DISCONNECTED, DISCONNECTING}" "same_env w w'"
    using on_session_bye_leelen [of ?s1 p self "s_socket_leelen s"] assms(5-7) by auto
  let ?s2 = "put_session p self' ?s1\<lparr>s_net := w'\<rparr>"
  have x2: "s_trs ?s2 tr = Some x" using assms(3) by simp
  from transaction_response_queued [OF assms(1,2) x2, of status "s_ua s"]
  obtain r2 w2 o2 where q: "osip_transaction_response lib tr status (s_ua s) False ?s2 = Some (r2, ?s2\<lparr>s_net := w2, s_osip := o2\<rparr>)"
    "replied sent tr (x_orig_request x) status o' o2 \<or> o2 = o' \<and> \<not> (answerable (x_orig_request x) \<and> (\<forall>i. w_ok w' i))"
    by auto
  have calm: "w_ok w' = w_ok (s_net s)" using f(2) bye(3) by (simp add: same_env_def)
  have "SIPLeelen_nist_bye lib type tr s = Some (?s2\<lparr>s_net := w2, s_osip := o2\<rparr>)"
    using assms(3-5) f(1) bye(1) q(1) by (simp add: SIPLeelen_nist_bye_def)
  moreover have "?calm \<and> answerable (x_orig_request x) \<and> (connecting \<longrightarrow> answerable (x_orig_request ox)) \<longrightarrow>
      (\<exists>y. (if connecting \<and> x_proceeding ox then replied sent otr (x_orig_request ox) 487 (s_osip s) y else y = s_osip s) \<and>
         replied sent tr (x_orig_request x) status y o2)"
    using first q(2) calm by auto
  ultimately show ?thesis using bye(2) by (intro exI [of _ "?s2\<lparr>s_net := w2, s_osip := o2\<rparr>"] exI [of _ self']) simp
qed

lemma nist_bye_no_session:
  assumes "records lib sent" and "codes_ok (lib_codes lib)" and "s_trs s tr = Some x" and "x_session x = None"
    and "\<forall>i. w_ok (s_net s) i" and "answerable (x_orig_request x)"
  shows "\<exists>s'. SIPLeelen_nist_bye lib type tr s = Some s' \<and> replied sent tr (x_orig_request x) 481 (s_osip s) (s_osip s')"
  using transaction_response_queued [OF assms(1-3), of 481 "s_ua s"] assms(3-)
  by (auto simp: SIPLeelen_nist_bye_def)

section \<open>Properties\<close>

text \<open>C16. BYE and CANCEL: the LEELEN half of the session ends in every case. When nothing fails, the INVITE that is still
  proceeding is answered with 487 and nothing else is, and the request itself with 200, or with 481
  when a CANCEL comes after the answer of the INVITE or a BYE before it. A request that belongs to no session is answered with 481.\<close>

theorem SIPLeelen_nist_bye_outcome:
  assumes "records lib sent" and "codes_ok (lib_codes lib)" and "s_trs s tr = Some x" and "x_session x = Some p"
    and "s_heap s p = Some self" and "wf_dialog (n_leelen self)" and "d_id (n_leelen self) \<noteq> 0"
    and "connecting = (d_state (n_leelen self) = CONNECTING)"
    and "connecting \<Longrightarrow> n_transaction self = Some otr \<and> s_trs s otr = Some ox"
    and "status = (if connecting \<and> \<not> (type = OSIP_NIST_CANCEL \<and> x_proceeding ox \<or> type = OSIP_NIST_BYE \<and> \<not> x_proceeding ox)
                   then 481 else 200)"
  shows "(\<exists>s' self'. SIPLeelen_nist_bye lib type tr s = Some s' \<and> s_heap s' p = Some self' \<and>
    d_state (n_leelen self') \<in> {DISCONNECTED, DISCONNECTING} \<and>
    ((\<forall>i. w_ok (s_net s) i) \<and> answerable (x_orig_request x) \<and> (connecting \<longrightarrow> answerable (x_orig_request ox)) \<longrightarrow>
      (\<exists>y. (if connecting \<and> x_proceeding ox then replied sent otr (x_orig_request ox) 487 (s_osip s) y else y = s_osip s) \<and>
         replied sent tr (x_orig_request x) status y (s_osip s')))) \<and>
    (\<forall>tr x. s_trs s tr = Some x \<and> x_session x = None \<and> (\<forall>i. w_ok (s_net s) i) \<and> answerable (x_orig_request x) \<longrightarrow>
      (\<exists>s'. SIPLeelen_nist_bye lib type tr s = Some s' \<and> replied sent tr (x_orig_request x) 481 (s_osip s) (s_osip s')))"
  using nist_bye_session [OF assms] nist_bye_no_session [OF assms(1,2)] by blast

definition ringing_session :: SIPLeelenSession where
  "ringing_session = sample_session\<lparr>n_leelen := sample_dialog\<lparr>d_state := CONNECTING\<rparr>, n_transaction := Some 5\<rparr>"

definition ringing_device :: "event_log device" where
  "ringing_device = sample_log_device\<lparr>s_heap := [0 \<mapsto> ringing_session],
     s_trs := [5 \<mapsto> sample_transaction\<lparr>x_session := Some 0\<rparr>, 6 \<mapsto> sample_transaction\<lparr>x_session := Some 0\<rparr>]\<rparr>"

lemma ringing_session_fields [simp]:
  "wf_dialog (n_leelen ringing_session)" "d_id (n_leelen ringing_session) \<noteq> 0"
  "d_state (n_leelen ringing_session) = CONNECTING" "n_transaction ringing_session = Some 5"
  using wf_sample_dialog(1) by (simp_all add: ringing_session_def wf_dialog_def sample_dialog_def)

lemma ringing_device_fields [simp]:
  "s_heap ringing_device = [0 \<mapsto> ringing_session]" "s_threads ringing_device = []" "s_net ringing_device = calm1"
  "s_trs ringing_device = [5 \<mapsto> sample_transaction\<lparr>x_session := Some 0\<rparr>, 6 \<mapsto> sample_transaction\<lparr>x_session := Some 0\<rparr>]"
  "s_osip ringing_device = []" "s_config ringing_device = sample_config"
  by (simp_all add: ringing_device_def sample_log_device_def)

theorem SIPLeelen_nist_bye_outcome_witness:
  "\<exists>s' y. SIPLeelen_nist_bye sample_lib OSIP_NIST_CANCEL 6 ringing_device = Some s' \<and>
     replied (\<lambda>x. x) 5 sample_request 487 [] y \<and> replied (\<lambda>x. x) 6 sample_request 200 y (s_osip s')"
proof -
  have "\<exists>s' self'. SIPLeelen_nist_bye sample_lib OSIP_NIST_CANCEL 6 ringing_device = Some s' \<and> s_heap s' 0 = Some self' \<and>
      d_state (n_leelen self') \<in> {DISCONNECTED, DISCONNECTING} \<and>
      ((\<forall>i. w_ok (s_net ringing_device) i) \<and> answerable (x_orig_request (sample_transaction\<lparr>x_session := Some 0\<rparr>)) \<and>
        (True \<longrightarrow> answerable (x_orig_request (sample_transaction\<lparr>x_session := Some 0\<rparr>))) \<longrightarrow>
      (\<exists>y. (if True \<and> x_proceeding (sample_transaction\<lparr>x_session := Some 0\<rparr>)
            then replied (\<lambda>x. x) 5 (x_orig_request (sample_transaction\<lparr>x_session := Some 0\<rparr>)) 487 (s_osip ringing_device) y
            else y = s_osip ringing_device) \<and>
         replied (\<lambda>x. x) 6 (x_orig_request (sample_transaction\<lparr>x_session := Some 0\<rparr>)) 200 y (s_osip s')))"
    by (rule SIPLeelen_nist_bye_outcome [where otr = 5 and self = ringing_session, THEN conjunct1])
      (simp_all add: sample_lib_records sample_codes_ok)
  then show ?thesis using sample_request_answerable by auto
qed

text \<open>Discovery of the callee: without a host the INVITE is answered with 404 when nobody answered and with 500 for any other
  error; with a host of the address family of the device, or on an IPv6 device with any host, the
  session gets a fresh disconnected dialog with that host and the number that was dialled. On an
  IPv4 device a host with an IPv6 address, also a v4-mapped one that the code converts, always
  means 500.\<close>

theorem invite_discover_outcome:
  assumes "1 \<le> fuel" and "take_bit 31 (w_rnd w (w_tick w)) \<noteq> 0"
  shows "\<exists>r w'. invite_discover fuel (res, host) config self w = Some (r, w') \<and>
    (if res \<noteq> 0 then r = Inl (if res = 254 then 404 else 500)
     else if sa_family (c_addr config) \<noteq> sa_family host \<and> sa_family (c_addr config) \<noteq> AF_INET6 then r = Inl 500
     else \<exists>self'. r = Inr self' \<and> self' = self\<lparr>n_leelen := n_leelen self'\<rparr> \<and>
       d_id (n_leelen self') \<noteq> 0 \<and> d_state (n_leelen self') = DISCONNECTED \<and>
       number_str (d_their (n_leelen self')) = number_str (n_number self) \<and>
       sa_family (d_theirs (n_leelen self')) = (if sa_family host = AF_INET then sa_family (c_addr config) else sa_family host))"
  using draw_id_first [OF assms] assms(2)
  by (auto simp: invite_discover_def discovery_status_def LeelenDialog_init_def sockaddr_to6_def)

theorem invite_discover_outcome_witness:
  "\<exists>self' w'. invite_discover 1 (0, sockaddr_zero\<lparr>sa_family := AF_INET\<rparr>) (sample_config\<lparr>c_addr := sockaddr_zero\<lparr>sa_family := AF_INET6\<rparr>\<rparr>)
     sample_session (calm\<lparr>w_now := \<lambda>i. (1, 0)\<rparr>) = Some (Inr self', w') \<and> d_state (n_leelen self') = DISCONNECTED"
  using invite_discover_outcome [of 1 "calm\<lparr>w_now := \<lambda>i. (1, 0)\<rparr>" 0 "sockaddr_zero\<lparr>sa_family := AF_INET\<rparr>"
      "sample_config\<lparr>c_addr := sockaddr_zero\<lparr>sa_family := AF_INET6\<rparr>\<rparr>" sample_session]
  by (auto simp: calm_def)

lemma established_form:
  "SIPLeelenSession_established self w = (est, self', w') \<Longrightarrow>
   n_invite_state self' = n_invite_state self \<and> n_number self' = n_number self \<and> n_refcount self' = n_refcount self \<and>
   same_env w w'"
  by (auto simp: SIPLeelenSession_established_def LeelenDialog_ack_timeout_def same_env_def Let_def
      split: if_splits prod.splits option.splits)

text \<open>What an INVITE leads to: its status and what becomes of the session and the threads.\<close>

definition invite_outcome ::
  "bool \<Rightarrow> bool \<Rightarrow> (int + LeelenNumber) \<Rightarrow> nat \<Rightarrow> nat \<Rightarrow> SIPLeelenSession \<Rightarrow> 'x device \<Rightarrow> int \<Rightarrow> 'x device \<Rightarrow> bool"
where
  "invite_outcome est sdp num tr p self s status s' \<longleftrightarrow>
     (let idle = (s_threads s' = s_threads s) in
      if est then status = 488 \<and> idle
      else if \<not> sdp then status = 400 \<and> idle
      else case num of
          Inl c \<Rightarrow> status = c \<and> idle
        | Inr n \<Rightarrow>
            if n_invite_state self = SINGLE_RUNNING then
              status = (if LeelenNumber_equal (n_number self) n then 100 else 400) \<and> idle
            else
              status = 100 \<and> s_threads s' = s_threads s @ [tr] \<and>
                (\<exists>self'. s_heap s' p = Some self' \<and> n_number self' = n \<and> n_invite_state self' = SINGLE_RUNNING \<and>
                  n_refcount self' = n_refcount self + 1) \<or>
              status = 500 \<and> idle \<and> \<not> (\<forall>i. w_ok (s_net s) i))"

lemma decref_result:
  "s_heap s p = Some self \<Longrightarrow> SIPLeelenSession_decref p s =
     Some (False, put_session p (self\<lparr>n_refcount := (if n_refcount self = 1 then 1 else n_refcount self - 1)\<rparr>) s)"
  by (simp add: SIPLeelenSession_decref_def SIPLeelenSession_may_free_def refcount_dec_form put_session_def)

lemma invite_start_outcome:
  assumes self: "s_heap s p = Some self" and flag: "n_invite_state self \<in> {SINGLE_STOPPED, SINGLE_RUNNING}"
  shows "\<exists>status s'. invite_start tr p n seen s = Some (status, s') \<and> s_osip s' = s_osip s \<and> s_trs s' = s_trs s \<and>
    w_ok (s_net s') = w_ok (s_net s) \<and> invite_outcome False True (Inr n) tr p self s status s'"
proof (cases "n_invite_state self = SINGLE_RUNNING")
  case True
  then show ?thesis
    using self by (auto simp: invite_start_def invite_outcome_def single_is_running_def single_flags)
next
  case False
  let ?one = "SIPLeelenSession_incref (self\<lparr>n_number := n\<rparr>)"
  have stopped: "n_invite_state self = 0" using False flag by (simp add: single_flags)
  have acq: "single_acquire (n_invite_state ?one # seen) = Some (True, 1)"
    using stopped by (simp add: SIPLeelenSession_incref_def acquire_round_def single_flags)
  let ?s1 = "put_session p (?one\<lparr>n_invite_state := 1\<rparr>) s\<lparr>s_net := step (s_net s)\<rparr>"
  let ?bad = "put_session p (?one\<lparr>n_invite_state := single_finish 1\<rparr>) ?s1"
  have bad: "s_heap ?bad p = Some (?one\<lparr>n_invite_state := single_finish 1\<rparr>)" by simp
  obtain s2 where d: "SIPLeelenSession_decref p ?bad = Some (False, s2)"
    and s2: "s_threads s2 = s_threads s \<and> s_osip s2 = s_osip s \<and> s_trs s2 = s_trs s \<and> w_ok (s_net s2) = w_ok (s_net s)"
    using decref_result [OF bad] by simp
  show ?thesis
    using self stopped acq d s2
    by (cases "w_ok (s_net s) (w_tick (s_net s))")
      (auto simp: invite_start_def invite_outcome_def single_is_running_def single_flags Let_def
        SIPLeelenSession_incref_def refcount_inc_def simp del: single_acquire.simps)
qed


definition idle_session :: SIPLeelenSession where
  "idle_session = sample_session\<lparr>n_leelen := sample_dialog\<lparr>d_id := 0\<rparr>, n_sip := None\<rparr>"

definition sdp_request :: osip_message where
  "sdp_request = sample_request\<lparr>q_content_type := Some (Some ''application'', Some ''sdp''), q_bodies := [''v=0'']\<rparr>"

definition called_device :: "event_log device" where
  "called_device = sample_log_device\<lparr>s_heap := [0 \<mapsto> idle_session],
     s_trs := [6 \<mapsto> sample_transaction\<lparr>x_session := Some 0, x_orig_request := sdp_request\<rparr>]\<rparr>"

lemma called_device_fields [simp]:
  "s_heap called_device = [0 \<mapsto> idle_session]" "s_threads called_device = []" "s_net called_device = calm1"
  "s_trs called_device = [6 \<mapsto> sample_transaction\<lparr>x_session := Some 0, x_orig_request := sdp_request\<rparr>]"
  "s_osip called_device = []" "s_config called_device = sample_config"
  by (simp_all add: called_device_def sample_log_device_def)

lemma idle_session_fields [simp]:
  "n_invite_state idle_session = SINGLE_STOPPED" "SIPLeelenSession_established idle_session w = (False, idle_session, w)"
  by (simp_all add: idle_session_def sample_session_def single_flags SIPLeelenSession_established_def)

lemma sdp_request_fields [simp]: "osip_message_has_sdp sdp_request" "answerable sdp_request"
  using sample_request_answerable
  by (simp_all add: sdp_request_def osip_message_has_sdp_def strcasecmp_same_def tolower_def answerable_def)


text \<open>The response that \<open>SIPLeelen_register\<close> makes of the message \<open>m\<close>.\<close>

definition registered :: "nist_type \<Rightarrow> osip_message \<Rightarrow> osip_message" where
  "registered type m = fold (\<lambda>f. f) (register_headers type) m"

lemma set_header_keeps:
  "q_status (set_header h v m) = q_status m" "mirrors r (set_header h v m) = mirrors r m"
  "q_headers (set_header h v m) = q_headers m @ [(h, v)]"
  "q_status (m\<lparr>q_content_type := c\<rparr>) = q_status m" "mirrors r (m\<lparr>q_content_type := c\<rparr>) = mirrors r m"
  "q_headers (m\<lparr>q_content_type := c\<rparr>) = q_headers m"
  by (simp_all add: set_header_def mirrors_def)

lemma registered_form:
  "registered OSIP_NIST_REGISTER m = set_header ''Expires'' register_expires
     (set_header ''Allow'' ''INVITE, ACK, CANCEL, OPTIONS, BYE'' m)"
  "type \<noteq> OSIP_NIST_REGISTER \<Longrightarrow> registered type m =
     (set_header ''Accept'' ''application/sdp'' (set_header ''Allow'' ''INVITE, ACK, CANCEL, OPTIONS, BYE'' m))
       \<lparr>q_content_type := Some (Some ''application'', Some ''sdp'')\<rparr>"
  by (simp_all only: registered_def register_headers_def if_True if_False fold_simps o_apply id_apply simp_thms)

lemma registered_fields:
  "q_status (registered type m) = q_status m \<and> mirrors r (registered type m) = mirrors r m \<and>
   (''Allow'', ''INVITE, ACK, CANCEL, OPTIONS, BYE'') \<in> set (q_headers (registered type m)) \<and>
   (if type = OSIP_NIST_REGISTER then (''Expires'', register_expires) \<in> set (q_headers (registered type m))
    else (''Accept'', ''application/sdp'') \<in> set (q_headers (registered type m)))"
  by (cases "type = OSIP_NIST_REGISTER") (simp_all only: registered_form set_header_keeps set_append set_simps Un_iff
      insert_iff if_True if_False simp_thms)

lemma register_client_calm:
  assumes "\<forall>i. w_ok (s_net s) i" and "th_from (x_headers x) = Some from"
    and "lib_destination lib (x_orig_request x) = (host, port)"
    and "sockaddr46_aton (lib_inet lib) host (s_clients s) = Some (f, addr)"
  shows "\<exists>s'. register_client lib x s = Some s' \<and> s_osip s' = s_osip s \<and> s_client s' = Some (u_text (g_url from)) \<and>
    s_clients s' = addr\<lparr>sa_port := htons port\<rparr>"
  using assms by (simp add: register_client_def)

text \<open>C29. REGISTER and OPTIONS: when nothing fails, one 200 is queued that mirrors the request and lists the allowed methods. A REGISTER
  tells the client to come back after \<open>LEELEN2SIP_EXPIRES\<close> seconds, literally: the macro of that name
  does not exist, so the header has its name for its value. Then the client is remembered: the text of
  its From address and the port that responses go to.\<close>

theorem SIPLeelen_register_outcome:
  assumes "records lib sent" and "codes_ok (lib_codes lib)" and "s_trs s tr = Some x" and "th_from (x_headers x) = Some from"
    and "answerable (x_orig_request x)" and "\<forall>i. w_ok (s_net s) i" and "type \<in> {OSIP_NIST_REGISTER, OSIP_NIST_OPTIONS}"
    and "lib_destination lib (x_orig_request x) = (host, port)"
    and "sockaddr46_aton (lib_inet lib) host (s_clients s) = Some (f, addr)"
  shows "\<exists>s' m. SIPLeelen_register lib type tr s = Some s' \<and> sent (s_osip s') = sent (s_osip s) @ [(tr, True, m)] \<and>
    q_status m = 200 \<and> mirrors (x_orig_request x) m \<and>
    (''Allow'', ''INVITE, ACK, CANCEL, OPTIONS, BYE'') \<in> set (q_headers m) \<and>
    (if type = OSIP_NIST_REGISTER
     then (''Expires'', ''LEELEN2SIP_EXPIRES'') \<in> set (q_headers m) \<and>
       s_client s' = Some (u_text (g_url from)) \<and> s_clients s' = addr\<lparr>sa_port := htons port\<rparr>
     else (''Accept'', ''application/sdp'') \<in> set (q_headers m) \<and>
       s_client s' = s_client s \<and> s_clients s' = s_clients s)"
proof -
  obtain m w where resp: "osip_message_response (lib_codes lib) (lib_reason lib) (x_orig_request x) 200 (s_ua s) (s_net s) =
      (OSIP_SUCCESS, Some m, w)" "same_env (s_net s) w"
    using response_calm [OF assms(6,5)] by metis
  from response_SUCCESS [OF resp(1) assms(2)] have m: "q_status m = 200" "mirrors (x_orig_request x) m" by auto
  have calm: "\<forall>i. w_ok w i" using resp(2) assms(6) by (simp add: same_env_def)
  let ?m = "registered type m"
  obtain w1 where b: "build (register_headers type) m w = (Some ?m, w1)" "same_env w w1"
    using build_ok [OF calm, of "register_headers type" m] unfolding registered_def by metis
  have calm1: "w_ok w1 i" for i using b(2) calm by (simp add: same_env_def)
  obtain o' where add: "lib_add_event lib tr (True, ?m) (s\<lparr>s_net := step w1\<rparr>) = (OSIP_SUCCESS, s\<lparr>s_net := step w1, s_osip := o'\<rparr>)"
    "sent o' = sent (s_osip s) @ [(tr, True, ?m)]"
    using recordsD [OF assms(1), of tr "(True, ?m)" "s\<lparr>s_net := step w1\<rparr>"] by auto
  let ?s = "s\<lparr>s_net := step w1, s_osip := o'\<rparr>"
  have send: "osip_transaction_send_sipmessage lib tr ?m False (s\<lparr>s_net := w1\<rparr>) = Some (OSIP_SUCCESS, ?s)"
    using add(1) calm1 by (simp add: osip_transaction_send_sipmessage_def)
  obtain s1 where client: "register_client lib x ?s = Some s1" "s_osip s1 = o'" "s_client s1 = Some (u_text (g_url from))"
    "s_clients s1 = addr\<lparr>sa_port := htons port\<rparr>"
    using register_client_calm [of ?s x "from" lib host port f addr] calm1 assms(4,8,9) by auto
  let ?s' = "if type = OSIP_NIST_REGISTER then s1 else ?s"
  have "SIPLeelen_register lib type tr s = Some ?s'"
    using assms(3) resp(1) b(1) send client(1) by (simp add: SIPLeelen_register_def OSIP_SUCCESS_def)
  moreover have "s_osip ?s' = o'" "type = OSIP_NIST_REGISTER \<Longrightarrow> s_client ?s' = Some (u_text (g_url from)) \<and>
      s_clients ?s' = addr\<lparr>sa_port := htons port\<rparr>"
    "type \<noteq> OSIP_NIST_REGISTER \<Longrightarrow> s_client ?s' = s_client s \<and> s_clients ?s' = s_clients s"
    using client(2-4) by simp_all
  moreover note fields = registered_fields [of type m "x_orig_request x", unfolded register_expires_def]
  ultimately show ?thesis
  proof (intro exI [of _ ?s'] exI [of _ ?m] conjI)
    show "q_status ?m = 200" "mirrors (x_orig_request x) ?m" using fields m by argo+
  qed (use fields add(2) in argo)+
qed

definition client_transaction :: transaction where
  "client_transaction = sample_transaction\<lparr>x_headers :=
     (x_headers sample_transaction)\<lparr>th_from := Some \<lparr>g_url = sample_uri, g_tag = None\<rparr>\<rparr>\<rparr>"

lemma client_transaction_fields [simp]:
  "th_from (x_headers client_transaction) = Some \<lparr>g_url = sample_uri, g_tag = None\<rparr>"
  "x_orig_request client_transaction = sample_request"
  by (simp_all add: client_transaction_def)

theorem SIPLeelen_register_outcome_witness:
  "\<exists>s' m. SIPLeelen_register sample_lib OSIP_NIST_REGISTER 6 (sample_log_device\<lparr>s_trs := [6 \<mapsto> client_transaction]\<rparr>) = Some s' \<and>
     s_osip s' = [(6, True, m)] \<and> (''Expires'', ''LEELEN2SIP_EXPIRES'') \<in> set (q_headers m)"
proof -
  let ?s = "sample_log_device\<lparr>s_trs := [6 \<mapsto> client_transaction]\<rparr>"
  obtain f addr where "sockaddr46_aton (lib_inet sample_lib) ''::1'' (s_clients ?s) = Some (f, addr)"
    using sockaddr46_aton_total [of "''::1''"] by blast
  note addr = this
  have dest: "lib_destination sample_lib (x_orig_request client_transaction) = (''::1'', 5060)"
    by (simp only: sample_lib_def osip_lib.select_convs)
  have s: "s_trs ?s 6 = Some client_transaction" "s_osip ?s = []" "\<forall>i. w_ok (s_net ?s) i"
    by (simp_all add: sample_log_device_def)
  have req: "answerable (x_orig_request client_transaction)"
    by (simp only: client_transaction_fields sample_request_answerable)
  have "\<exists>s' m. SIPLeelen_register sample_lib OSIP_NIST_REGISTER 6 ?s = Some s' \<and> s_osip s' = s_osip ?s @ [(6, True, m)] \<and>
    q_status m = 200 \<and> mirrors (x_orig_request client_transaction) m \<and>
    (''Allow'', ''INVITE, ACK, CANCEL, OPTIONS, BYE'') \<in> set (q_headers m) \<and>
    (if OSIP_NIST_REGISTER = OSIP_NIST_REGISTER
     then (''Expires'', ''LEELEN2SIP_EXPIRES'') \<in> set (q_headers m) \<and>
       s_client s' = Some (u_text (g_url \<lparr>g_url = sample_uri, g_tag = None\<rparr>)) \<and> s_clients s' = addr\<lparr>sa_port := htons 5060\<rparr>
     else (''Accept'', ''application/sdp'') \<in> set (q_headers m) \<and>
       s_client s' = s_client ?s \<and> s_clients s' = s_clients ?s)"
    by (rule SIPLeelen_register_outcome [OF sample_lib_records _ s(1) client_transaction_fields(1) req s(3) _ dest addr])
      (simp_all only: sample_lib_fields sample_codes_ok insertI1)
  then show ?thesis unfolding s(2) append_Nil if_P [OF refl] by blast
qed

end
