(* ===== verification/SIPLeelen.thy ===== *)
theory SIPLeelen
  imports Uac Uas
begin

text \<open>
  \<^verbatim>\<open>sipleelen/sipleelen.c\<close>: the messages that the device receives and sends, and the thread
  that serves sockets and timeouts. The operations on the vector of sessions are in theory
  Registry.

  A message arrives with its socket, its source and, for SIP, the local address that received
  it. The result is \<open>None\<close> where the program would use a null or freed pointer, and where it would
  still wait or loop: for an invite thread that runs (\<open>seen\<close> are the values of its flag), or
  when \<open>fuel\<close> is used up.
\<close>

section \<open>SIP messages\<close>

definition is_response :: "osip_message \<Rightarrow> bool" where
  "is_response m \<longleftrightarrow> q_status m \<noteq> 0"

text \<open>The address that the source of a request is corrected with: \<open>IN6_SET_ADDR_V4MAPPED\<close> is used as a test, so
  every IPv6 address is overwritten and taken for an IPv4 address.\<close>

definition via_address :: "sockaddr_in46 \<Rightarrow> (af \<times> in6_addr \<times> u16) option" where
  "via_address src =
     (case sockaddr_get src of
        (port, None) \<Rightarrow> None
      | (port, Some host) \<Rightarrow>
          if sa_family src = AF_INET6 then Some (AF_INET, in64_get AF_INET (IN6_SET_ADDR_V4MAPPED host), port)
          else Some (sa_family src, host, port))"

definition sip_fix_via ::
  "'x osip_lib \<Rightarrow> osip_message \<Rightarrow> sockaddr_in46 \<Rightarrow> 'x device \<Rightarrow> (osip_message option \<times> 'x device) option"
where
  "sip_fix_via lib sip src s =
     (if is_response sip then Some (Some sip, s)
      else case via_address src of
             None \<Rightarrow> None
           | Some (f, host, port) \<Rightarrow>
               let (ok, s) = on_net sys s
               in Some (if ok then Some (lib_fix_via lib sip (lib_ntop lib f host) port) else None, s))"

text \<open>The session of a request: the first one whose SIP dialog matches, or whose transaction does.\<close>

fun find_session ::
  "'x osip_lib \<Rightarrow> osip_message \<Rightarrow> nat slot list \<Rightarrow> 'x device \<Rightarrow> nat option option"
where
  "find_session lib sip [] s = Some None"
| "find_session lib sip (Null # ps) s = find_session lib sip ps s"
| "find_session lib sip (Junk # ps) s = None"
| "find_session lib sip (Ptr p # ps) s =
     (case s_heap s p of
        None \<Rightarrow> None
      | Some ses \<Rightarrow>
          (case (n_sip ses, n_transaction ses) of
             (Some dialog, _) \<Rightarrow>
               if lib_match_as_uas lib dialog sip then Some (Some p) else find_session lib sip ps s
           | (None, Some tr) \<Rightarrow>
               (case s_trs s tr of
                  None \<Rightarrow> None
                | Some x \<Rightarrow>
                    if osip_transaction_match (lib_match lib) (x_headers x) sip then Some (Some p)
                    else find_session lib sip ps s)
           | _ \<Rightarrow> find_session lib sip ps s))"

text \<open>Execute the events of the new transaction; a result \<open>OSIP_SUCCESS\<close> kills it.\<close>

fun receive_events ::
  "'x osip_lib \<Rightarrow> nat \<Rightarrow> nat \<Rightarrow> nat option \<Rightarrow> 'x device \<Rightarrow> 'x device option"
where
  "receive_events lib 0 tr session s = None"
| "receive_events lib (Suc fuel) tr session s =
     (case lib_tryget lib tr s of
        (None, s) \<Rightarrow> Some s
      | (Some event, s) \<Rightarrow>
          (case lib_execute lib tr event s of
             None \<Rightarrow> None
           | Some (r, s) \<Rightarrow>
               if r \<noteq> OSIP_SUCCESS then receive_events lib fuel tr session s
               else (case session of
                       None \<Rightarrow> Some (lib_free lib tr s)
                     | Some p \<Rightarrow>
                         (case forget_transaction p tr s of
                            None \<Rightarrow> None
                          | Some s \<Rightarrow>
                              (case SIPLeelen_decref_session p (- 1) s of
                                 None \<Rightarrow> None
                               | Some s \<Rightarrow> Some (lib_free lib tr s))))))"

text \<open>Data of a new transaction, for a session or without one.\<close>

definition receive_attach ::
  "nat option \<Rightarrow> nat \<Rightarrow> int \<Rightarrow> af \<Rightarrow> 'x device \<Rightarrow> 'x device option"
where
  "receive_attach session tr sockfd out_af s =
     (case session of
        Some p \<Rightarrow> attach_transaction p tr sockfd out_af s
      | None \<Rightarrow>
          (case s_trs s tr of
             None \<Rightarrow> None
           | Some x \<Rightarrow> Some (put_transaction tr (x\<lparr>x_out_socket := sockfd, x_session := None, x_out_af := out_af\<rparr>) s)))"

text \<open>The session of a new transaction: the one that was found, a new one for an INVITE, or none.\<close>

definition receive_session ::
  "'x osip_lib \<Rightarrow> nat option \<Rightarrow> nat \<Rightarrow> in6_addr \<Rightarrow> 'x device \<Rightarrow> (nat option option \<times> 'x device) option"
where
  "receive_session lib session tr recv_dst s =
     (case s_trs s tr of
        None \<Rightarrow> None
      | Some x \<Rightarrow>
          if session = None \<and> x_ctx_type x = IST then
            (case SIPLeelen_new_session s of
               None \<Rightarrow> None
             | Some (None, s) \<Rightarrow> Some (None, lib_free lib tr s)
             | Some (Some p, s) \<Rightarrow>
                 (case s_heap s p of
                    None \<Rightarrow> None
                  | Some self \<Rightarrow> Some (Some (Some p), put_session p (self\<lparr>n_ours := recv_dst\<rparr>) s)))
          else Some (Some session, s))"

definition receive_request ::
  "'x osip_lib \<Rightarrow> nat \<Rightarrow> osip_message \<Rightarrow> int \<Rightarrow> sockaddr_in46 \<Rightarrow> in6_addr \<Rightarrow> 'x device \<Rightarrow> (int \<times> 'x device) option"
where
  "receive_request lib fuel sip sockfd src recv_dst s =
     (case find_session lib sip (slots (s_sessions s)) s of
        None \<Rightarrow> None
      | Some session \<Rightarrow>
          (case lib_create lib (False, sip) s of
             (None, s) \<Rightarrow>
               (case session of
                  None \<Rightarrow> Some (2, s)
                | Some p \<Rightarrow> map_option (Pair 2) (SIPLeelen_decref_session p (- 1) s))
           | (Some tr, s) \<Rightarrow>
               (case receive_session lib session tr recv_dst s of
                  None \<Rightarrow> None
                | Some (None, s) \<Rightarrow> Some (2, s)
                | Some (Some session, s) \<Rightarrow>
                    (case receive_attach session tr sockfd (sa_family src) s of
                       None \<Rightarrow> None
                     | Some s \<Rightarrow> map_option (Pair 0) (receive_events lib fuel tr session s)))))"

definition run_all :: "(fsm_type \<Rightarrow> 'x device \<Rightarrow> 'x device option) \<Rightarrow> 'x device \<Rightarrow> 'x device option" where
  "run_all f s = Option.bind (Option.bind (Option.bind (f ICT s) (f IST)) (f NICT)) (f NIST)"

definition SIPLeelen_receive ::
  "'x osip_lib \<Rightarrow> nat \<Rightarrow> char list \<Rightarrow> int \<Rightarrow> sockaddr_in46 \<Rightarrow> in6_addr \<Rightarrow> 'x device \<Rightarrow> (int \<times> 'x device) option"
where
  "SIPLeelen_receive lib fuel buf sockfd src recv_dst s =
     (case lib_parse lib buf of
        None \<Rightarrow> Some (1, s)
      | Some sip \<Rightarrow>
          (case sip_fix_via lib sip src s of
             None \<Rightarrow> None
           | Some (None, s) \<Rightarrow> Some (2, s)
           | Some (Some sip, s) \<Rightarrow>
               (case lib_find lib (False, sip) s of
                  (True, s) \<Rightarrow> map_option (Pair 0) (run_all (lib_run lib) s)
                | (False, s) \<Rightarrow>
                    if is_response sip then Some (2, s)
                    else receive_request lib fuel sip sockfd src recv_dst s)))"

section \<open>LEELEN messages\<close>

fun find_leelen :: "u32 \<Rightarrow> nat slot list \<Rightarrow> 'x device \<Rightarrow> nat option option" where
  "find_leelen i [] s = Some None"
| "find_leelen i (Null # ps) s = find_leelen i ps s"
| "find_leelen i (Junk # ps) s = None"
| "find_leelen i (Ptr p # ps) s =
     (case s_heap s p of
        None \<Rightarrow> None
      | Some ses \<Rightarrow> if d_id (n_leelen ses) = i then Some (Some p) else find_leelen i ps s)"

text \<open>A message for no session: an invitation makes a new one.\<close>

definition receive_leelen_new ::
  "'x osip_lib \<Rightarrow> LeelenMessage \<Rightarrow> nat \<Rightarrow> char list \<Rightarrow> int \<Rightarrow> sockaddr_in46 \<Rightarrow> 'x device \<Rightarrow> (int \<times> 'x device) option"
where
  "receive_leelen_new lib stack fuel buf sockfd src s =
     (let code = LEELEN_MESSAGE_CODE buf in
      if \<not> (code = LEELEN_CODE_CALL \<or> code = LEELEN_CODE_VIEW \<or> code = LEELEN_CODE_VOICE_MESSAGE) then Some (1, s)
      else case SIPLeelen_new_session s of
             None \<Rightarrow> None
           | Some (None, s) \<Rightarrow> Some (- 1, s)
           | Some (Some p, s) \<Rightarrow>
               (case s_heap s p of
                  None \<Rightarrow> None
                | Some self \<Rightarrow>
                    (case LeelenDialog_init fuel (n_leelen self) (s_config s) src None (LEELEN_MESSAGE_ID buf) (s_net s) of
                       None \<Rightarrow> None
                     | Some (_, d, w) \<Rightarrow>
                         (case SIPLeelenSession_receive lib stack p buf sockfd src
                                 (put_session p (self\<lparr>n_leelen := d\<rparr>) s\<lparr>s_net := w\<rparr>) of
                            None \<Rightarrow> None
                          | Some (ret, s) \<Rightarrow>
                              if ret = 0 then Some (0, s)
                              else map_option (Pair ret) (SIPLeelen_free_session p (- 1) s)))))"

definition SIPLeelen_receive_leelen ::
  "'x osip_lib \<Rightarrow> LeelenMessage \<Rightarrow> nat \<Rightarrow> int list \<Rightarrow> char list \<Rightarrow> int \<Rightarrow> sockaddr_in46 \<Rightarrow> 'x device \<Rightarrow>
     (int \<times> 'x device) option"
where
  "SIPLeelen_receive_leelen lib stack fuel seen buf sockfd src s =
     (if \<not> LEELEN_MESSAGE_HEADER_SIZE < length buf then Some (255, s)
      else let buf = buf[length buf - 1 := NUL] in
        case find_leelen (LEELEN_MESSAGE_ID buf) (slots (s_sessions s)) s of
          None \<Rightarrow> None
        | Some (Some p) \<Rightarrow>
            (case s_heap s p of
               None \<Rightarrow> None
             | Some ses \<Rightarrow>
                 if single_join (n_invite_state ses) seen = None then None
                 else SIPLeelenSession_receive lib stack p buf sockfd src s)
        | Some None \<Rightarrow> receive_leelen_new lib stack fuel buf sockfd src s)"

section \<open>Sending\<close>

definition SIPLeelen_send ::
  "'x osip_lib \<Rightarrow> nat \<Rightarrow> osip_message \<Rightarrow> char list \<Rightarrow> u16 \<Rightarrow> int \<Rightarrow> sockaddr_in46 \<Rightarrow> in6_addr \<Rightarrow> 'x device \<Rightarrow>
     (int \<times> 'x device) option"
where
  "SIPLeelen_send lib tr msg host port out_socket dst addr s =
     (case s_trs s tr of
        None \<Rightarrow> None
      | Some x \<Rightarrow>
          (let family = x_out_af x; (f, addr) = inet_aton64 (lib_inet lib) host addr in
           if f = AF_INET6 \<and> family = AF_INET \<and> \<not> IN6_IS_ADDR_V4MAPPED addr then Some (255, s)
           else case sockaddr46_set dst family (Some (in64_get family addr)) port of
                  None \<Rightarrow> None
                | Some dst \<Rightarrow>
                    let (ok, s) = on_net sys s in
                    if \<not> ok then Some (1, s)
                    else let (ok, s) = on_net (sys_send (out_socket, dst, lib_to_str lib msg)) s
                      in Some (if ok then 0 else - 1, s)))"

section \<open>Timeouts\<close>

text \<open>One session of the loop over the sessions, at index \<open>i\<close>.\<close>

definition dial_timeout :: "'x osip_lib \<Rightarrow> nat \<Rightarrow> int \<Rightarrow> 'x device \<Rightarrow> 'x device option" where
  "dial_timeout lib p i s =
     (case s_heap s p of
        None \<Rightarrow> None
      | Some self \<Rightarrow>
          (let (timeout, d, w) = LeelenDialog_ack_timeout (n_leelen self) (s_net s);
               self = self\<lparr>n_leelen := d\<rparr>; s = put_session p self s\<lparr>s_net := w\<rparr>
           in if \<not> timeout then Some s
              else case n_transaction self of
                     None \<Rightarrow> None
                   | Some tr \<Rightarrow>
                       if s_trs s tr = None then None
                       else let s = put_session p (SIPLeelenSession_incref self) s in
                         case on_session (SIPLeelenSession_bye_leelen (s_socket_leelen s)) p s of
                           None \<Rightarrow> None
                         | Some (r, s) \<Rightarrow>
                             (case (if r = 0 then Some s else SIPLeelen_decref_session p i s) of
                                None \<Rightarrow> None
                              | Some s \<Rightarrow>
                                  (case osip_transaction_response lib tr 404 (s_ua s) True s of
                                     None \<Rightarrow> None
                                   | Some (r, s) \<Rightarrow>
                                       if r = OSIP_SUCCESS then Some s else SIPLeelen_decref_session p i s))))"

definition session_timeout :: "'x osip_lib \<Rightarrow> nat \<Rightarrow> int \<Rightarrow> int \<Rightarrow> 'x device \<Rightarrow> 'x device option" where
  "session_timeout lib p i now s =
     (case s_heap s p of
        None \<Rightarrow> None
      | Some self \<Rightarrow>
          let d = n_leelen self in
          if single_still_running (n_invite_state self) then Some s
          else if d_state d = CONNECTING then dial_timeout lib p i s
          else if d_state d = CONNECTED then
            (if n_transaction self \<noteq> None then Some s
             else if \<not> LeelenDialog_dialog_timeout d now then Some s
             else case SIPLeelenSession_bye lib p True s of
                    None \<Rightarrow> None
                  | Some (res, s) \<Rightarrow> if res = 1 \<or> res = 3 then SIPLeelen_decref_session p i s else Some s)
          else if d_state d = DISCONNECTING \<and>
            fst (d_last_sent d) + int (unat (2 * d_timeout d div 1000)) < now then Some s
          else let (v, w) = ptrvsteal (s_sessions s) i (s_net s)
            in map_option snd (SIPLeelenSession_decref p (s\<lparr>s_sessions := v, s_net := w\<rparr>)))"

text \<open>\<open>forindex\<close> looks at the length again in every round.\<close>

fun sessions_timeout :: "'x osip_lib \<Rightarrow> nat \<Rightarrow> nat \<Rightarrow> int \<Rightarrow> 'x device \<Rightarrow> 'x device option" where
  "sessions_timeout lib 0 i now s = (if i < plen (s_sessions s) then None else Some s)"
| "sessions_timeout lib (Suc fuel) i now s =
     (if \<not> i < plen (s_sessions s) then Some s
      else case slot_at (vec (s_sessions s)) i of
             Junk \<Rightarrow> None
           | Null \<Rightarrow> sessions_timeout lib fuel (Suc i) now s
           | Ptr p \<Rightarrow>
               (case session_timeout lib p (int i) now s of
                  None \<Rightarrow> None
                | Some s \<Rightarrow> sessions_timeout lib fuel (Suc i) now s))"

definition SIPLeelen_tick :: "'x osip_lib \<Rightarrow> 'x device \<Rightarrow> 'x device option" where
  "SIPLeelen_tick lib s =
     (let (now, s) = on_net sys_time s in
      Option.bind (Option.bind (run_all (lib_timers lib) s)
        (\<lambda>s. sessions_timeout lib (plen (s_sessions s)) 0 (fst now) s))
        (run_all (lib_run lib)))"

section \<open>The loop\<close>

text \<open>A packet for the LEELEN socket and one for the SIP socket; \<open>None\<close>: no packet, or \<open>recvfrom\<close> failed.\<close>

record packets =
  k_leelen :: "(char list \<times> sockaddr_in46) option"
  k_sip :: "(char list \<times> sockaddr_in46 \<times> in6_addr) option"

definition SIPLeelen_packets ::
  "'x osip_lib \<Rightarrow> LeelenMessage \<Rightarrow> nat \<Rightarrow> int list \<Rightarrow> packets \<Rightarrow> 'x device \<Rightarrow> 'x device option"
where
  "SIPLeelen_packets lib stack fuel seen k s =
     Option.bind
       (case k_leelen k of
          None \<Rightarrow> Some s
        | Some (buf, src) \<Rightarrow>
            let buf = take (unat (c_mtu (s_config s))) buf in
            if buf = [] then Some s
            else map_option snd (SIPLeelen_receive_leelen lib stack fuel seen buf (s_socket_leelen s) src s))
       (\<lambda>s. case k_sip k of
          None \<Rightarrow> Some s
        | Some (buf, src, dst) \<Rightarrow>
            let buf = take (unat (s_mtu s)) buf in
            if buf = [] then Some s
            else map_option snd (SIPLeelen_receive lib fuel buf (s_socket_sip s) src dst s))"

text \<open>One turn: the timeouts every eighth time, then \<open>poll\<close>. The result says whether the loop goes on.\<close>

definition SIPLeelen_turn ::
  "'x osip_lib \<Rightarrow> LeelenMessage \<Rightarrow> nat \<Rightarrow> int list \<Rightarrow> u32 \<Rightarrow> int \<Rightarrow> packets \<Rightarrow> 'x device \<Rightarrow> (bool \<times> 'x device) option"
where
  "SIPLeelen_turn lib stack fuel seen t pollres k s =
     (case (if t mod 8 = 0 then SIPLeelen_tick lib s else Some s) of
        None \<Rightarrow> None
      | Some s \<Rightarrow>
          (let (go, flag) = single_continue (s_state s); s = s\<lparr>s_state := flag\<rparr> in
           if \<not> go then Some (False, s)
           else if pollres \<le> 0 then Some (True, s)
           else map_option (Pair True) (SIPLeelen_packets lib stack fuel seen k s)))"

section \<open>Properties\<close>

text \<open>The fixed-up Via header of a request over IPv6 is wrong unless the sender is v4-mapped: the code assigns where it means to
  test, so every IPv6 sender is taken for IPv4 and only the last 32 bits of its address are kept. Two
  senders that agree in them get the same Via, and replies go to neither.\<close>

theorem via_address_truncates:
  assumes "sa_family a = AF_INET6" and "sa_family b = AF_INET6"
    and "sa_port a = sa_port b" and "s6_3 (sin6_addr a) = s6_3 (sin6_addr b)"
  shows "\<exists>host port. via_address a = Some (AF_INET, host, port) \<and> via_address b = Some (AF_INET, host, port)"
  using assms by (simp add: via_address_def sockaddr_get_def sockaddr_addr_def in64_get_def IN6_SET_ADDR_V4MAPPED_def)

theorem via_address_truncates_witness:
  "via_address (sockaddr_zero\<lparr>sa_family := AF_INET6, sin6_addr := In6 1 0 0 9\<rparr>) =
   via_address (sockaddr_zero\<lparr>sa_family := AF_INET6, sin6_addr := In6 2 0 0 9\<rparr>)"
  using via_address_truncates [of "sockaddr_zero\<lparr>sa_family := AF_INET6, sin6_addr := In6 1 0 0 9\<rparr>"
      "sockaddr_zero\<lparr>sa_family := AF_INET6, sin6_addr := In6 2 0 0 9\<rparr>"] by auto

text \<open>The timeout of a session that waits for the acknowledgement of its BYE is inverted: while it waits the session is taken
  out of the table and gives up a reference, and once the time is over it stays for ever. A session
  that is still dialling when its transaction is gone makes the thread use a null pointer.\<close>

theorem session_timeout_inverted:
  assumes "s_heap s p = Some self" and "n_invite_state self = SINGLE_STOPPED"
    and "deadline = fst (d_last_sent (n_leelen self)) + int (unat (2 * d_timeout (n_leelen self) div 1000))"
  shows "(d_state (n_leelen self) = DISCONNECTING \<and> deadline < now \<longrightarrow> session_timeout lib p i now s = Some s) \<and>
    (d_state (n_leelen self) = DISCONNECTING \<and> now \<le> deadline \<longrightarrow>
      (\<exists>s'. session_timeout lib p i now s = Some s' \<and> s_sessions s' = fst (ptrvsteal (s_sessions s) i (s_net s)) \<and>
        s_heap s' p = Some (self\<lparr>n_refcount := (if n_refcount self = 1 then 1 else n_refcount self - 1)\<rparr>))) \<and>
    (d_state (n_leelen self) = CONNECTING \<and> n_transaction self = None \<and> fst (LeelenDialog_ack_timeout (n_leelen self) (s_net s)) \<longrightarrow>
      session_timeout lib p i now s = None)"
proof -
  obtain v w where st: "ptrvsteal (s_sessions s) i (s_net s) = (v, w)" by fastforce
  have running: "\<not> single_still_running (n_invite_state self)"
    using assms(2) by (simp add: single_still_running_def single_flags)
  have "session_timeout lib p i now s = Some s" if "d_state (n_leelen self) = DISCONNECTING" "deadline < now"
    using that assms(1,3) running by (simp add: session_timeout_def)
  moreover have "\<exists>s'. session_timeout lib p i now s = Some s' \<and> s_sessions s' = v \<and>
        s_heap s' p = Some (self\<lparr>n_refcount := (if n_refcount self = 1 then 1 else n_refcount self - 1)\<rparr>)"
    if "d_state (n_leelen self) = DISCONNECTING" "now \<le> deadline"
    using that assms(1,3) running st decref_result [of "s\<lparr>s_sessions := v, s_net := w\<rparr>" p self]
    by (simp add: session_timeout_def)
  moreover have "session_timeout lib p i now s = None"
    if "d_state (n_leelen self) = CONNECTING" "n_transaction self = None" "fst (LeelenDialog_ack_timeout (n_leelen self) (s_net s))"
    using that assms(1) running
    by (cases "LeelenDialog_ack_timeout (n_leelen self) (s_net s)") (simp add: session_timeout_def dial_timeout_def)
  ultimately show ?thesis using st by simp
qed

theorem session_timeout_inverted_witness:
  "session_timeout sample_lib 0 0 100000 (sample_log_device\<lparr>s_heap := [0 \<mapsto> sample_session\<lparr>n_leelen :=
       sample_dialog\<lparr>d_state := DISCONNECTING, d_last_sent := (1, 0), d_timeout := 1000\<rparr>\<rparr>]\<rparr>) \<noteq> None"
  using session_timeout_inverted [of "sample_log_device\<lparr>s_heap := [0 \<mapsto> sample_session\<lparr>n_leelen :=
       sample_dialog\<lparr>d_state := DISCONNECTING, d_last_sent := (1, 0), d_timeout := 1000\<rparr>\<rparr>]\<rparr>" 0 "sample_session\<lparr>n_leelen :=
       sample_dialog\<lparr>d_state := DISCONNECTING, d_last_sent := (1, 0), d_timeout := 1000\<rparr>\<rparr>" 3 100000 sample_lib 0]
  by (simp add: sample_session_def single_flags)

text \<open>C33. Where a SIP message is sent: a literal IPv4 address goes out as it is on an IPv4 socket and v4-mapped on an IPv6
  one; a literal IPv6 address goes out on an IPv6 socket, on an IPv4 socket only its last word when it
  is v4-mapped, and is otherwise refused with 255 and nothing sent. A host that is no address is not
  refused: the message goes to the indeterminate address that was on the stack.\<close>

theorem SIPLeelen_send_address:
  assumes "s_trs s tr = Some x" and "x_out_af x \<in> {AF_INET, AF_INET6}" and "\<forall>i. w_ok (s_net s) i"
    and "dst' = (case (pton4 (lib_inet lib) host, pton6 (lib_inet lib) host) of
        (Some a, _) \<Rightarrow> Some (In6 0 0 (lhtonl 0xffff) a)
      | (None, Some a) \<Rightarrow> (if x_out_af x = AF_INET \<and> \<not> IN6_IS_ADDR_V4MAPPED a then None else Some a)
      | (None, None) \<Rightarrow> Some indet)"
  shows "case dst' of
      None \<Rightarrow> SIPLeelen_send lib tr msg host port fd dst indet s = Some (255, s)
    | Some a \<Rightarrow> \<exists>s' addr. SIPLeelen_send lib tr msg host port fd dst indet s = Some (0, s') \<and>
        w_sent (s_net s') = w_sent (s_net s) @ [(fd, addr, lib_to_str lib msg)] \<and> sa_family addr = x_out_af x \<and>
        (if x_out_af x = AF_INET then sin_addr addr = s6_3 a else sin6_addr addr = a)"
proof -
  have send: "\<exists>s' addr. SIPLeelen_send lib tr msg host port fd dst indet s = Some (0, s') \<and>
        w_sent (s_net s') = w_sent (s_net s) @ [(fd, addr, lib_to_str lib msg)] \<and> sa_family addr = x_out_af x \<and>
        (if x_out_af x = AF_INET then sin_addr addr = s6_3 a else sin6_addr addr = a)"
    if "inet_aton64 (lib_inet lib) host indet = (f, a)"
      "\<not> (f = AF_INET6 \<and> x_out_af x = AF_INET \<and> \<not> IN6_IS_ADDR_V4MAPPED a)" for f a
  proof -
    obtain addr where addr: "sockaddr46_set dst (x_out_af x) (Some (in64_get (x_out_af x) a)) port = Some addr"
      "sa_family addr = x_out_af x" "if x_out_af x = AF_INET then sin_addr addr = s6_3 a else sin6_addr addr = a"
      using assms(2) by (auto simp: sockaddr46_set_def in64_get_def)
    have "SIPLeelen_send lib tr msg host port fd dst indet s = Some (0, s\<lparr>s_net :=
        (step (step (s_net s)))\<lparr>w_sent := w_sent (s_net s) @ [(fd, addr, lib_to_str lib msg)]\<rparr>\<rparr>)"
      using assms(1,3) that addr(1) by (simp add: SIPLeelen_send_def Let_def on_net_def sys_send_def sys_def)
    with addr(2,3) show ?thesis by simp
  qed
  show ?thesis
  proof (cases "pton4 (lib_inet lib) host")
    case (Some a)
    then show ?thesis
      using send [of AF_INET "In6 0 0 (lhtonl 0xffff) a"] assms(4)
      by (simp add: inet_aton64_def IN6_SET_ADDR_V4MAPPED_def)
  next
    case no4: None
    show ?thesis
    proof (cases "pton6 (lib_inet lib) host")
      case None
      then show ?thesis using no4 send [of AF_UNSPEC indet] assms(4) by (simp add: inet_aton64_def)
    next
      case (Some a)
      with no4 have f: "inet_aton64 (lib_inet lib) host indet = (AF_INET6, a)" by (simp add: inet_aton64_def)
      show ?thesis
      proof (cases "x_out_af x = AF_INET \<and> \<not> IN6_IS_ADDR_V4MAPPED a")
        case True
        with f no4 Some assms(1,4) show ?thesis by (simp add: SIPLeelen_send_def Let_def)
      next
        case False
        with no4 Some assms(4) have d: "dst' = Some a" by auto
        from False have "\<not> (AF_INET6 = AF_INET6 \<and> x_out_af x = AF_INET \<and> \<not> IN6_IS_ADDR_V4MAPPED a)" by blast
        from send [OF f this] show ?thesis unfolding d option.case .
      qed
    qed
  qed
qed

theorem SIPLeelen_send_address_witness:
  "\<exists>s' addr. SIPLeelen_send (sample_lib\<lparr>lib_inet := \<lparr>pton4 = (\<lambda>_. None), pton6 = (\<lambda>_. None), ifindex = (\<lambda>_. 0)\<rparr>\<rparr>) 6 sample_request
       ''localhost'' 5060 3 sockaddr_zero (In6 1 2 3 4) (sample_log_device\<lparr>s_trs := [6 \<mapsto> sample_transaction]\<rparr>) = Some (0, s') \<and>
     sin_addr addr = 4 \<and> (\<exists>m. w_sent (s_net s') = [(3, addr, m)])"
  using SIPLeelen_send_address [where s = "sample_log_device\<lparr>s_trs := [6 \<mapsto> sample_transaction]\<rparr>" and tr = 6
      and x = sample_transaction and dst' = "Some (In6 1 2 3 4)" and host = "''localhost''" and indet = "In6 1 2 3 4"
      and lib = "sample_lib\<lparr>lib_inet := \<lparr>pton4 = (\<lambda>_. None), pton6 = (\<lambda>_. None), ifindex = (\<lambda>_. 0)\<rparr>\<rparr>"
      and msg = sample_request and port = 5060 and fd = 3 and dst = sockaddr_zero]
  by (auto simp: sample_log_device_def)

end
