(* ===== verification/Lifetime.thy ===== *)
theory Lifetime
  imports SIPLeelen
begin

text \<open>
  The lifetime of sessions: the operations of \<^verbatim>\<open>sipleelen/sipleelen.c\<close>, \<^verbatim>\<open>sipleelen/session.c\<close>,
  \<^verbatim>\<open>sipleelen/transaction.c\<close> and \<^verbatim>\<open>sipleelen/uas.c\<close> that create, share and release a session, as the
  steps of a system. A step runs alone; the threads interleave between steps.

  The guards say what the callers make sure of: a transaction is attached once and is removed
  while the stack has it, a session is freed at once only when nothing but the vector refers to
  it, and the counter does not overflow.
\<close>

section \<open>Steps\<close>

datatype registry_op =
  NewSession | NewTransaction nat | Attach nat nat | Kill nat | StartThread nat | EndThread nat | EndSession nat |
  FreeSession nat | Update nat

definition no_overflow :: "nat \<Rightarrow> 'x device \<Rightarrow> bool" where
  "no_overflow p s \<longleftrightarrow> (\<forall>self. s_heap s p = Some self \<longrightarrow> fst (refcount_inc (n_refcount self)) = 0)"

inductive registry_step :: "'x device \<Rightarrow> registry_op \<Rightarrow> 'x device \<Rightarrow> bool" where
  new_session: "SIPLeelen_new_session s = Some (Some p, s') \<Longrightarrow> registry_step s NewSession s'"
| new_transaction: "s_trs s tr = None \<Longrightarrow> x_session x = None \<Longrightarrow>
    registry_step s (NewTransaction tr) (put_transaction tr x s)"
| attach: "s_trs s tr = Some x \<Longrightarrow> x_active x \<Longrightarrow> x_session x = None \<Longrightarrow> no_overflow p s \<Longrightarrow>
    attach_transaction p tr fd f s = Some s' \<Longrightarrow> registry_step s (Attach p tr) s'"
| kill: "s_trs s tr = Some x \<Longrightarrow> x_active x \<Longrightarrow> lib_remove lib tr = deactivate tr \<Longrightarrow>
    SIPLeelen_kill_transaction lib tr s = Some s' \<Longrightarrow> registry_step s (Kill tr) s'"
| start_thread: "session_of s tr = Some p \<Longrightarrow> no_overflow p s \<Longrightarrow> invite_start tr p number seen s = Some (r, s') \<Longrightarrow>
    registry_step s (StartThread tr) s'"
| end_thread: "tr \<in> set (s_threads s) \<Longrightarrow> session_of s tr = Some p \<Longrightarrow>
    SIPLeelenSession_decref p s = Some (b, s') \<Longrightarrow>
    registry_step s (EndThread tr) (s'\<lparr>s_threads := remove1 tr (s_threads s')\<rparr>)"
| end_session: "slot_at (vec (s_sessions s)) i = Ptr p \<Longrightarrow> i < plen (s_sessions s) \<Longrightarrow>
    ptrvsteal (s_sessions s) (int i) (s_net s) = (v, w) \<Longrightarrow>
    SIPLeelenSession_decref p (s\<lparr>s_sessions := v, s_net := w\<rparr>) = Some (b, s') \<Longrightarrow> registry_step s (EndSession p) s'"
| free_session: "p \<in> members (s_sessions s) \<Longrightarrow> refs s p = 1 \<Longrightarrow> SIPLeelen_free_session p (- 1) s = Some s' \<Longrightarrow>
    registry_step s (FreeSession p) s'"
| update: "s_heap s p = Some self \<Longrightarrow> n_refcount self' = n_refcount self \<Longrightarrow>
    registry_step s (Update p) (put_session p self' s\<lparr>s_net := w, s_osip := x\<rparr>)"

definition registry_initial :: "'x device \<Rightarrow> bool" where
  "registry_initial s \<longleftrightarrow>
     s_sessions s = ptrv_empty \<and> s_trs s = Map.empty \<and> s_threads s = [] \<and> s_heap s = Map.empty"

section \<open>Lemmas\<close>

lemma refcount_inc_unat:
  "fst (refcount_inc c) = 0 \<Longrightarrow> unat (snd (refcount_inc c)) = Suc (unat c)"
  by (auto simp: refcount_inc_def refcount_inc_overflow_def Let_def split: if_splits)
    (metis add.commute less_irrefl unatSuc)

lemma initial_inv: "registry_initial s \<Longrightarrow> registry_inv s"
  by (simp add: registry_initial_def registry_inv_def registry_base_def covered_def refs_def tr_refs_def thread_refs_def
      unique_slots_def)

text \<open>A new session: fresh memory, initialised, in the table and nowhere else.\<close>

lemma new_session_spec:
  assumes inv: "registry_inv s" and new: "SIPLeelen_new_session s = Some (Some p, s')"
  shows "p = s_next s \<and> s_next s' = Suc p \<and> s_trs s' = s_trs s \<and> s_threads s' = s_threads s \<and>
    wf_ptrv (s_sessions s') \<and> unique_slots (s_sessions s') \<and> p \<notin> members (s_sessions s) \<and>
    members (s_sessions s') = insert p (members (s_sessions s)) \<and> same_env (s_net s) (s_net s') \<and>
    (\<exists>self. s_heap s' = (s_heap s)(p \<mapsto> self) \<and> n_refcount self = 1 \<and> n_sip self = None \<and> n_transaction self = None \<and>
      d_id (n_leelen self) = 0 \<and> n_invite_state self = SINGLE_STOPPED)"
proof -
  let ?v = "s_sessions s" and ?p = "s_next s"
  have wf: "wf_ptrv ?v" and unique: "unique_slots ?v" using inv by (simp_all add: registry_inv_def registry_base_def)
  obtain i v w where c: "ptrvcreate ?v ?p (s_net s) = (i, v, w)" by (metis prod_cases3)
  have i: "0 \<le> i" using new c by (auto simp: SIPLeelen_new_session_def Let_def split: if_splits)
  with c obtain w1 where ins: "ptrvinsert ?v ?p w1 = (i, v, w)" and w1: "w1 = step (s_net s)"
    by (auto simp: ptrvcreate_def sys_def Let_def split: if_splits prod.splits)
  note spec = ptrvinsert_spec [OF wf ins]
  have env: "same_env (s_net s) w" using ptrvinsert_env [OF ins] w1 by (simp add: same_env_def)
  have "refs s ?p = 0" using registry_fresh [OF inv] by simp
  then have notin: "?p \<notin> members ?v" using member_refs by force
  have uniq: "unique_slots v" using unique_slots_insert [OF wf unique notin ins i] .
  obtain r self w' where init: "SIPLeelenSession_init (s_mtu s) (c_mtu (s_config s)) (s_junk s ?p) w = (r, self, w')"
    by (metis prod_cases3)
  have r: "r = 0" "p = ?p"
    and s': "s' = s\<lparr>s_sessions := v, s_next := Suc ?p, s_heap := (s_heap s)(?p \<mapsto> self), s_net := w'\<rparr>"
    using new c i init
    by (auto simp: SIPLeelen_new_session_def on_session_def put_session_def Let_def
        split: if_splits prod.splits slot.splits)
  have self: "n_refcount self = 1 \<and> n_sip self = None \<and> n_transaction self = None \<and> d_id (n_leelen self) = 0 \<and>
      n_invite_state self = SINGLE_STOPPED \<and> w' = step w"
    using init r(1) by (auto simp: SIPLeelenSession_init_def sys_def single_flags Let_def split: if_splits)
  have "same_env (s_net s) w'" using env self by (simp add: same_env_def)
  then show ?thesis using r(2) s' spec i uniq self notin by simp (intro exI [of _ self], simp)
qed

lemma new_session_refs:
  assumes "registry_inv s" and "SIPLeelen_new_session s = Some (Some p, s')"
  shows "refs s' q = refs s q + (if q = p then 1 else 0)" and "refs s' p = 1"
proof -
  note n = new_session_spec [OF assms]
  have so: "session_of s' t = session_of s t" for t using n by (simp add: session_of_def)
  show "refs s' q = refs s q + (if q = p then 1 else 0)" for q
    using n by (auto simp: refs_def tr_refs_def thread_refs_def so)
  from this [of p] registry_fresh [OF assms(1), of p] n show "refs s' p = 1" by simp
qed

lemma new_session_inv:
  assumes inv: "registry_inv s" and new: "SIPLeelen_new_session s = Some (Some p, s')"
  shows "registry_inv s'"
proof -
  note n = new_session_spec [OF assms] and r = new_session_refs [OF assms]
  from n obtain self where self: "s_heap s' = (s_heap s)(p \<mapsto> self)" "n_refcount self = 1" by blast
  have "covered s' q 0" for q
    using registry_live [OF inv, of q] r(1) [of q] r(2) self by (auto simp: covered_def)
  moreover have "registry_base s'"
    using inv n self by (auto simp: registry_inv_def registry_base_def session_of_def)
  ultimately show ?thesis by (simp add: registry_inv_def)
qed

lemma registry_put_more:
  assumes "registry_inv s" and "s_heap s p = Some self" and "unat (n_refcount self) \<le> unat (n_refcount self')"
  shows "registry_inv (put_session p self' s)"
proof -
  have "registry_base (put_session p self' s)"
    using assms(1,2) by (auto simp: registry_inv_def registry_base_def)
  moreover have "covered (put_session p self' s) q 0" for q
    using registry_live [OF assms(1), of q] assms(2,3) by (auto simp: covered_def)
  ultimately show ?thesis by (simp add: registry_inv_def)
qed

lemma registry_freshly_referenced:
  assumes inv: "registry_inv s" and base: "registry_base s'" and self: "s_heap s p = Some self" "no_overflow p s"
    and heap: "s_heap s' = (s_heap s)(p \<mapsto> self')" and count: "n_refcount self' = snd (refcount_inc (n_refcount self))"
    and refs: "\<And>q. refs s' q \<le> refs s q + (if q = p then 1 else 0)"
  shows "registry_inv s'"
proof -
  have u: "unat (n_refcount self') = Suc (unat (n_refcount self))"
    using refcount_inc_unat self count by (simp add: no_overflow_def)
  have "covered s' q 0" for q
  proof (cases "q = p")
    case True
    then show ?thesis
      using u self(1) heap refs [of p] registry_live [OF inv, of p] by (fastforce simp: covered_def)
  next
    case False
    then show ?thesis
      using heap refs [of q] registry_live [OF inv, of q] by (fastforce simp: covered_def)
  qed
  with base show ?thesis by (simp add: registry_inv_def)
qed

lemma attach_inv:
  assumes inv: "registry_inv s" and x: "s_trs s tr = Some x" "x_session x = None" and over: "no_overflow p s"
    and at: "attach_transaction p tr fd f s = Some s'"
  shows "registry_inv s'"
proof -
  obtain self where self: "s_heap s p = Some self"
    using at by (auto simp: attach_transaction_def split: option.splits)
  let ?x = "x\<lparr>x_out_socket := fd, x_session := Some p, x_out_af := f\<rparr>"
  let ?self = "SIPLeelenSession_incref
    (self\<lparr>n_transaction := (if n_transaction self = None then Some tr else n_transaction self)\<rparr>)"
  have s': "s' = put_session p ?self (put_transaction tr ?x s)"
    using at x self by (simp add: attach_transaction_def)
  have base: "registry_base s" using inv by (simp add: registry_inv_def)
  have notin: "tr \<notin> set (s_threads s)"
    using base x by (auto simp: registry_base_def session_of_def)
  have so: "session_of s' t = (if t = tr then Some p else session_of s t)" for t
    by (simp add: s' session_of_def)
  have same: "s_threads s' = s_threads s" "s_sessions s' = s_sessions s" "s_next s' = s_next s"
    "s_heap s' = (s_heap s)(p \<mapsto> ?self)" "s_trs s' = (s_trs s)(tr \<mapsto> ?x)"
    by (simp_all add: s')
  have th: "thread_refs s' q = thread_refs s q" for q
    using notin by (auto simp: thread_refs_def so same intro!: arg_cong [where f = length] filter_cong)
  have tr: "tr_refs s' q \<subseteq> (if q = p then insert tr (tr_refs s q) else tr_refs s q)" for q
    by (auto simp: tr_refs_def same split: if_splits)
  have fin: "finite (tr_refs s q)" for q using base by (auto intro: tr_refs_finite simp: registry_base_def)
  have "card (tr_refs s' q) \<le> card (tr_refs s q) + (if q = p then 1 else 0)" for q
    using card_mono [OF _ tr [of q]] fin [of q] card_insert_le_m1 [of "Suc (card (tr_refs s q))" "tr_refs s q" tr]
    by (auto split: if_splits simp: card_insert_if)
  then have refs: "refs s' q \<le> refs s q + (if q = p then 1 else 0)" for q
    by (auto simp: refs_def th same)
  have b': "registry_base s'"
    using base self by (auto simp: registry_base_def so same)
  show ?thesis
    by (rule registry_freshly_referenced [OF inv b' self over _ _ refs, of ?self])
      (simp_all add: same SIPLeelenSession_incref_def)
qed

text \<open>\<open>SIPLeelenSession_decref\<close> gives up a reference and never frees.\<close>

lemma decref_form:
  "SIPLeelenSession_decref p s = Some (b, s') \<Longrightarrow> s_heap s p = Some self \<Longrightarrow>
   s' = put_session p (self\<lparr>n_refcount := (if n_refcount self = 1 then 1 else n_refcount self - 1)\<rparr>) s"
  by (auto simp: SIPLeelenSession_decref_def SIPLeelenSession_may_free_def refcount_dec_form put_session_def split: if_splits)

lemma decref_covered:
  assumes inv: "registry_inv s" and pos: "0 < refs s p" and dec: "SIPLeelenSession_decref p s0 = Some (b, s')"
    and heap: "s_heap s0 = s_heap s" and base: "registry_base s'"
    and refs: "\<And>q. refs s' q \<le> refs s q - (if q = p then 1 else 0)"
  shows "registry_inv s'"
proof -
  obtain self where self: "s_heap s p = Some self" "refs s p \<le> unat (n_refcount self)"
    using registry_live [OF inv pos] by blast
  then have s': "s' = put_session p (self\<lparr>n_refcount := (if n_refcount self = 1 then 1 else n_refcount self - 1)\<rparr>) s0"
    using decref_form [OF dec] heap by simp
  have "unat (n_refcount self) = Suc (unat (n_refcount self - 1))"
    using self(2) pos by (metis Suc_pred' le_zero_eq not_gr0 unat_eq_0 unat_minus_one)
  then have "covered s' q 0" for q
    using self heap refs [of q] pos registry_live [OF inv, of q] by (fastforce simp: covered_def s')
  with base show ?thesis by (simp add: registry_inv_def)
qed

lemma start_thread_inv:
  assumes inv: "registry_inv s" and tr: "session_of s tr = Some p" and over: "no_overflow p s"
    and start: "invite_start tr p number seen s = Some (r, s')"
  shows "registry_inv s'"
proof -
  obtain self where self: "s_heap s p = Some self"
    using start by (auto simp: invite_start_def split: option.splits)
  let ?one = "SIPLeelenSession_incref (self\<lparr>n_number := number\<rparr>)"
  have count: "n_refcount ?one = snd (refcount_inc (n_refcount self))"
    and more: "unat (n_refcount ?one) = Suc (unat (n_refcount self))"
    using over self refcount_inc_unat by (simp_all add: SIPLeelenSession_incref_def no_overflow_def)
  show ?thesis
  proof (cases "single_is_running (n_invite_state self)")
    case True
    then show ?thesis using start self inv by (simp add: invite_start_def)
  next
    case False
    let ?acquired = "single_acquire (n_invite_state ?one # seen)"
    obtain got flag where a: "?acquired = Some (got, flag)"
      using start False self
      by (auto simp del: single_acquire.simps simp: invite_start_def Let_def split: option.splits prod.splits)
    let ?self = "?one\<lparr>n_invite_state := flag\<rparr>"
    let ?s1 = "put_session p ?self s"
    have put: "registry_inv ?s1" by (rule registry_put_more [OF inv self]) (simp add: more)
    consider "got = False" "s' = ?s1"
      | "got" "s' = ?s1\<lparr>s_net := step (s_net s), s_threads := s_threads s @ [tr]\<rparr>"
      | b where "got" "SIPLeelenSession_decref p
           (put_session p (?self\<lparr>n_invite_state := single_finish flag\<rparr>) (?s1\<lparr>s_net := step (s_net s)\<rparr>)) = Some (b, s')"
      using start False self a
      by (cases got) (auto simp del: single_acquire.simps simp: invite_start_def Let_def split: option.splits prod.splits if_splits)
    then show ?thesis
    proof cases
      case 1
      then show ?thesis using put by simp
    next
      case 2
      have same: "s_threads s' = s_threads s @ [tr]" "s_sessions s' = s_sessions s" "s_next s' = s_next s"
        "s_heap s' = (s_heap s)(p \<mapsto> ?self)" "s_trs s' = s_trs s"
        by (simp_all add: 2(2))
      have so: "session_of s' t = session_of s t" for t by (simp add: same session_of_def)
      have base: "registry_base s'"
        using inv tr self by (auto simp: registry_inv_def registry_base_def so same)
      have refs: "refs s' q \<le> refs s q + (if q = p then 1 else 0)" for q
        using tr by (simp add: refs_def thread_refs_def so same tr_refs_def)
      show ?thesis
        by (rule registry_freshly_referenced [OF inv base self over _ _ refs, of ?self]) (simp_all add: same count)
    next
      case 3
      let ?self' = "?self\<lparr>n_invite_state := single_finish flag,
        n_refcount := (if n_refcount ?self = 1 then 1 else n_refcount ?self - 1)\<rparr>"
      have s': "s' = put_session p ?self' (s\<lparr>s_net := step (s_net s)\<rparr>)"
        using decref_form [OF 3(2)] by (simp add: put_session_def)
      have "unat (n_refcount self) \<le> unat (n_refcount ?self')"
      proof (cases "n_refcount ?one = 1")
        case True
        then show ?thesis using more by simp
      next
        case False
        have "n_refcount ?one \<noteq> 0" using more by (metis nat.distinct(1) unat_eq_0)
        then show ?thesis using more False by (simp add: unat_minus_one)
      qed
      then show ?thesis
        unfolding s' using registry_put_more [of "s\<lparr>s_net := step (s_net s)\<rparr>" p self ?self'] inv self by simp
    qed
  qed
qed

lemma remove1_length_filter:
  "x \<in> set xs \<Longrightarrow> length (filter P (remove1 x xs)) = length (filter P xs) - (if P x then 1 else 0)"
proof (induction xs)
  case (Cons a xs)
  have "P x \<Longrightarrow> x \<in> set xs \<Longrightarrow> 0 < length (filter P xs)"
    by (auto simp: filter_empty_conv)
  with Cons show ?case by auto
qed simp

lemma end_thread_inv:
  assumes inv: "registry_inv s" and tr: "tr \<in> set (s_threads s)" "session_of s tr = Some p"
    and dec: "SIPLeelenSession_decref p s = Some (b, s1)"
  shows "registry_inv (s1\<lparr>s_threads := remove1 tr (s_threads s1)\<rparr>)"
proof -
  have pos: "0 < refs s p" using thread_refs_pos [OF tr] by (simp add: refs_def)
  obtain self where self: "s_heap s p = Some self" using registry_live [OF inv pos] by blast
  note s1 = decref_form [OF dec self]
  let ?s2 = "s\<lparr>s_threads := remove1 tr (s_threads s)\<rparr>"
  let ?s' = "s1\<lparr>s_threads := remove1 tr (s_threads s1)\<rparr>"
  have dec2: "SIPLeelenSession_decref p ?s2 = Some (b, ?s')"
    using dec self s1 by (simp add: SIPLeelenSession_decref_def SIPLeelenSession_may_free_def refcount_dec_form put_session_def
        split: if_splits)
  have same: "s_threads ?s' = remove1 tr (s_threads s)" "s_sessions ?s' = s_sessions s" "s_next ?s' = s_next s"
    "s_trs ?s' = s_trs s" "dom (s_heap ?s') = insert p (dom (s_heap s))"
    by (simp_all add: s1)
  have so: "session_of ?s' t = session_of s t" for t by (simp add: same session_of_def)
  have sub: "set (remove1 tr (s_threads s)) \<subseteq> set (s_threads s)" by (rule set_remove1_subset)
  have "s_heap ?s' q = None \<longleftrightarrow> s_heap s q = None" for q
    using self by (simp add: s1)
  then have base: "registry_base ?s'"
    using inv sub unfolding registry_inv_def registry_base_def so same by blast
  have "thread_refs ?s' q = thread_refs s q - (if q = p then 1 else 0)" for q
    using remove1_length_filter [OF tr(1), of "\<lambda>t. session_of s t = Some q"] tr(2)
    by (simp add: thread_refs_def so same)
  moreover have "0 < thread_refs s p" using thread_refs_pos [OF tr] .
  ultimately have "refs ?s' q \<le> refs s q - (if q = p then 1 else 0)" for q
    by (simp add: refs_def tr_refs_def same)
  from decref_covered [OF inv pos dec2 _ base this] show ?thesis by simp
qed

lemma slot_member: "wf_ptrv v \<Longrightarrow> i < plen v \<Longrightarrow> slot_at (vec v) i = slots v ! i"
  by (auto simp: slot_at_def slots_def wf_ptrv_def)

lemma end_session_inv:
  assumes inv: "registry_inv s" and slot: "slot_at (vec (s_sessions s)) i = Ptr p" "i < plen (s_sessions s)"
    and steal: "ptrvsteal (s_sessions s) (int i) (s_net s) = (v, w)"
    and dec: "SIPLeelenSession_decref p (s\<lparr>s_sessions := v, s_net := w\<rparr>) = Some (b, s')"
  shows "registry_inv s'"
proof -
  have base: "registry_base s" using inv by (simp add: registry_inv_def)
  then have wf: "wf_ptrv (s_sessions s)" "unique_slots (s_sessions s)" by (simp_all add: registry_base_def)
  have at: "slots (s_sessions s) ! nat (int i) = Ptr p" using slot slot_member [OF wf(1)] by simp
  note steals = ptrvsteal_members [OF wf _ _ steal]
  have sv: "wf_ptrv v" "unique_slots v" "members v \<subseteq> members (s_sessions s)" "p \<notin> members v"
    using steals at slot(2) by simp_all
  have mem: "p \<in> members (s_sessions s)"
    using at slot(2) wf(1) nth_mem [of i "slots (s_sessions s)"] by (simp add: members_def)
  have pos: "0 < refs s p" using mem by (rule member_refs)
  obtain self where self: "s_heap s p = Some self" using registry_live [OF inv pos] by blast
  obtain self' where s': "s' = put_session p self' (s\<lparr>s_sessions := v, s_net := w\<rparr>)"
    using decref_form [OF dec] self by simp
  have same: "s_threads s' = s_threads s" "s_sessions s' = v" "s_next s' = s_next s" "s_trs s' = s_trs s"
    "s_heap s' = (s_heap s)(p \<mapsto> self')"
    by (simp_all add: s')
  have so: "session_of s' t = session_of s t" for t by (simp add: same session_of_def)
  have b': "registry_base s'"
    using base sv(1,2) self by (auto simp: registry_base_def so same)
  have "refs s' q \<le> refs s q - (if q = p then 1 else 0)" for q
    using sv(3,4) mem by (auto simp: refs_def tr_refs_def thread_refs_def so same)
  from decref_covered [OF inv pos dec _ b' this] show ?thesis by simp
qed

lemma free_session_inv:
  assumes inv: "registry_inv s" and mem: "p \<in> members (s_sessions s)" and one: "refs s p = 1"
    and free: "SIPLeelen_free_session p (- 1) s = Some s'"
  shows "registry_inv s'"
proof -
  have base: "registry_base s" using inv by (simp add: registry_inv_def)
  have s': "s' = SIPLeelen_remove_session p (- 1) (free_memory p s)"
    using free by (auto simp: SIPLeelen_free_session_def split: option.splits)
  have wf: "wf_ptrv (s_sessions (free_memory p s))" "unique_slots (s_sessions (free_memory p s))"
    and ok: "slot_ok p (- 1) (free_memory p s)"
    using base by (simp_all add: registry_base_def slot_ok_def)
  note rm = remove_session_ok [OF wf ok s']
  have so: "session_of s' t = session_of s t" for t using rm by (simp add: session_of_def)
  have le: "refs s' q \<le> refs s q" for q using refs_fewer_members [of s' s q] rm by simp
  have "refs s' p < refs s p"
    using rm(4) mem by (simp add: refs_def tr_refs_def thread_refs_def so rm(6,7))
  then have "covered s' q 0" for q
    using one le [of q] registry_live [OF inv, of q] by (cases "q = p") (auto simp: covered_def rm(5))
  moreover have "registry_base s'"
    using base rm(1,2,5-8) by (auto simp: registry_base_def so)
  ultimately show ?thesis by (simp add: registry_inv_def)
qed

lemma new_transaction_inv:
  assumes inv: "registry_inv s" and "s_trs s tr = None" and "x_session x = None"
  shows "registry_inv (put_transaction tr x s)"
proof -
  let ?s' = "put_transaction tr x s"
  have base: "registry_base s" using inv by (simp add: registry_inv_def)
  have so: "session_of ?s' t = session_of s t" for t
    using assms by (simp add: session_of_def)
  have "tr_refs ?s' q = tr_refs s q" for q using assms(2,3) by (auto simp: tr_refs_def)
  then have "refs ?s' q = refs s q" for q by (simp add: refs_def thread_refs_def so)
  then show ?thesis
    using inv by (simp add: registry_inv_def registry_base_def covered_def so)
qed

interpretation registry: invariant_system registry_initial registry_step registry_inv
proof unfold_locales
  show "registry_initial s \<Longrightarrow> registry_inv s" for s :: "'x device" by (rule initial_inv)
next
  fix s :: "'x device" and l s'
  assume inv: "registry_inv s" and "registry_step s l s'"
  from this(2) show "registry_inv s'"
  proof cases
    case (new_session p)
    then show ?thesis using new_session_inv [OF inv] by simp
  next
    case (new_transaction tr x)
    then show ?thesis using new_transaction_inv [OF inv] by simp
  next
    case (attach tr x p fd f)
    then show ?thesis using attach_inv [OF inv] by blast
  next
    case (kill tr x lib)
    then show ?thesis using kill_transaction_inv [OF inv, of lib tr x] by auto
  next
    case (start_thread tr p number seen r)
    then show ?thesis using start_thread_inv [OF inv] by blast
  next
    case (end_thread tr p b s1)
    then show ?thesis using end_thread_inv [OF inv] by simp
  next
    case (end_session i p v w b)
    then show ?thesis using end_session_inv [OF inv] by blast
  next
    case (free_session p)
    then show ?thesis using free_session_inv [OF inv] by blast
  next
    case (update p self self' w x)
    then show ?thesis using registry_put_session [OF inv] by simp
  qed
qed

section \<open>Properties\<close>


definition empty_device :: "event_log device" where
  "empty_device = sample_log_device\<lparr>s_sessions := ptrv_empty, s_heap := Map.empty, s_next := 0\<rparr>"

lemma empty_device_fields [simp]:
  "s_sessions empty_device = ptrv_empty" "s_heap empty_device = Map.empty" "s_next empty_device = 0"
  "s_trs empty_device = Map.empty" "s_threads empty_device = []" "s_net empty_device = calm1"
  by (simp_all add: empty_device_def sample_log_device_def)

lemma empty_device_initial: "registry_initial empty_device"
  by (simp add: registry_initial_def)

lemma empty_device_new_session:
  "\<exists>s self. SIPLeelen_new_session empty_device = Some (Some 0, s) \<and> 0 \<in> members (s_sessions s) \<and> s_trs s = Map.empty \<and>
     s_heap s 0 = Some self \<and> n_refcount self = 1 \<and> reach registry_initial registry_step s"
proof -
  let ?w = "step calm1"
  obtain i v w where ins: "ptrvinsert ptrv_empty (0 :: nat) ?w = (i, v, w)" by (metis prod_cases3)
  have env: "w_ok ?w k" "w_ok calm1 k" for k by (simp_all add: calm1_def)
  have i: "0 \<le> i" using ptrvinsert_fails [OF wf_ptrv_empty(1) ins] env by force
  have c: "ptrvcreate ptrv_empty (0 :: nat) calm1 = (i, v, w)"
    using ins i env by (simp add: ptrvcreate_def sys_def)
  note spec = ptrvinsert_spec [OF wf_ptrv_empty(1) ins i]
  have "w_ok w k" for k using ptrvinsert_env [OF ins] env by (simp add: same_env_def)
  then obtain s self where s: "SIPLeelen_new_session empty_device = Some (Some 0, s)" "s_sessions s = v"
    "s_trs s = Map.empty" "s_heap s 0 = Some self" "n_refcount self = 1"
    using c i by (auto simp: SIPLeelen_new_session_def on_session_def SIPLeelenSession_init_def sys_def Let_def put_session_def
      split: prod.splits)
  moreover have "reach registry_initial registry_step s"
    using reach.start [of registry_initial, OF empty_device_initial] registry_step.new_session [OF s(1)] by (rule reach.run)
  ultimately show ?thesis using spec by auto
qed


text \<open>The termination callback is safe: in every reachable state it finds the session of an active
  transaction allocated, gives up its reference and leads to a state in which again nothing
  dangles.\<close>

theorem kill_transaction_safe:
  assumes "reach registry_initial registry_step s" and "s_trs s tr = Some x" and "x_active x"
    and "lib_remove lib tr = deactivate tr"
  shows "\<exists>s'. SIPLeelen_kill_transaction lib tr s = Some s' \<and> registry_inv s' \<and>
    reach registry_initial registry_step s'"
proof -
  obtain s' where s': "SIPLeelen_kill_transaction lib tr s = Some s'" "registry_inv s'"
    using kill_transaction_inv [OF registry.reach_inv [OF assms(1)] assms(4,2,3)] by blast
  moreover have "registry_step s (Kill tr) s'" using assms(2-4) s'(1) by (rule kill)
  ultimately show ?thesis using assms(1) by (meson reach.run)
qed

theorem kill_transaction_safe_witness:
  "\<exists>(s :: event_log device) s' p. session_of s 7 = Some p \<and> s_heap s p \<noteq> None \<and>
     SIPLeelen_kill_transaction (sample_lib\<lparr>lib_remove := deactivate\<rparr>) 7 s = Some s' \<and> registry_inv s'"
proof -
  obtain s self where s: "s_trs s = Map.empty" "s_heap s 0 = Some self" "n_refcount self = 1"
    "reach registry_initial registry_step (s :: event_log device)"
    using empty_device_new_session by blast
  let ?s1 = "put_transaction 7 sample_transaction s"
  have "registry_step s (NewTransaction 7) ?s1" by (rule registry_step.new_transaction) (simp_all add: s)
  with s(4) have r1: "reach registry_initial registry_step ?s1" by (rule reach.run)
  obtain s2 where s2: "attach_transaction 0 7 3 AF_INET ?s1 = Some s2"
    "s_trs s2 7 = Some (sample_transaction\<lparr>x_out_socket := 3, x_session := Some 0, x_out_af := AF_INET\<rparr>)"
    "s_heap s2 0 \<noteq> None"
    using s(2) by (auto simp: attach_transaction_def)
  have "no_overflow 0 ?s1"
    using s(2,3) by (simp add: no_overflow_def refcount_inc_def)
  then have "registry_step ?s1 (Attach 0 7) s2"
    using s2(1) by (intro registry_step.attach [where x = sample_transaction]) simp_all
  with r1 have "reach registry_initial registry_step s2" by (rule reach.run)
  from kill_transaction_safe [OF this s2(2), of "sample_lib\<lparr>lib_remove := deactivate\<rparr>"]
  obtain s3 where "SIPLeelen_kill_transaction (sample_lib\<lparr>lib_remove := deactivate\<rparr>) 7 s2 = Some s3" "registry_inv s3"
    by auto
  moreover have "session_of s2 7 = Some 0" using s2(2) by (simp add: session_of_def)
  ultimately show ?thesis using s2(3) by blast
qed

end
