(* ===== verification/Safety.thy ===== *)
theory Safety
  imports Lifetime
begin

text \<open>
  The references of sessions across whole operations: what \<^verbatim>\<open>sipleelen/uac.c\<close> and the LEELEN side
  of \<^verbatim>\<open>sipleelen/sipleelen.c\<close> do keeps the invariant of theory Registry, as long as the stack does.
\<close>

section \<open>The stack\<close>

text \<open>A state that follows another one: the references stay covered and no session leaves the table.\<close>

definition evolves :: "'x device \<Rightarrow> 'x device \<Rightarrow> bool" where
  "evolves s s' \<longleftrightarrow> (registry_inv s \<longrightarrow> registry_inv s' \<and> members (s_sessions s) \<subseteq> members (s_sessions s'))"

text \<open>What the stack promises: a new transaction is not shared and has no session yet, and what a callback does
  to the sessions is one of their operations.\<close>

definition stack_safe :: "'x osip_lib \<Rightarrow> bool" where
  "stack_safe lib \<longleftrightarrow>
     (\<forall>e s s'. lib_create lib e s = (None, s') \<longrightarrow> (\<exists>o'. s' = s\<lparr>s_osip := o'\<rparr>)) \<and>
     (\<forall>e s tr s'. lib_create lib e s = (Some tr, s') \<longrightarrow>
        s_trs s tr = None \<and> (\<exists>x o'. x_session x = None \<and> s' = put_transaction tr x (s\<lparr>s_osip := o'\<rparr>))) \<and>
     (\<forall>tr e s r s'. lib_execute lib tr e s = Some (r, s') \<longrightarrow> evolves s s') \<and>
     (\<forall>tr e s r s'. lib_add_event lib tr e s = (r, s') \<longrightarrow> evolves s s')"

section \<open>Lemmas: the steps\<close>

lemma evolves_refl [simp]: "evolves s s"
  by (simp add: evolves_def)

lemma evolves_trans: "evolves s t \<Longrightarrow> evolves t u \<Longrightarrow> evolves s u"
  by (auto simp: evolves_def)

lemma evolves_net [simp]:
  "evolves (s\<lparr>s_net := w\<rparr>) u = evolves s u" "evolves (s\<lparr>s_osip := o'\<rparr>) u = evolves s u"
  "evolves s (u\<lparr>s_net := w\<rparr>) = evolves s u" "evolves s (u\<lparr>s_osip := o'\<rparr>) = evolves s u"
  by (simp_all add: evolves_def)

lemma evolves_on_net: "on_net f s = (r, s') \<Longrightarrow> evolves s s'"
  by (auto simp: on_net_def split: prod.splits)

lemma evolves_put_session:
  "s_heap s p = Some self \<Longrightarrow> n_refcount self' = n_refcount self \<Longrightarrow> evolves s (put_session p self' s)"
  using registry_put_session [of s p self self'] by (auto simp: evolves_def)

lemma evolves_on_session:
  assumes "on_session f p s = Some (r, s')"
    and "\<And>self w q self' w'. f self w = (q, self', w') \<Longrightarrow> n_refcount self' = n_refcount self"
  shows "evolves s s'"
proof -
  obtain self self' w' where o: "s_heap s p = Some self" "f self (s_net s) = (r, self', w')"
    "s' = (put_session p self' s)\<lparr>s_net := w'\<rparr>"
    using assms(1) by (auto simp: on_session_def put_session_def Let_def split: option.splits prod.splits)
  from assms(2) [OF o(2)] evolves_put_session [OF o(1)] o(3) show ?thesis by simp
qed

lemma put_transaction_inv:
  assumes "registry_inv s" and "s_trs s tr = Some x" and "x_active x' = x_active x" and "x_session x' = x_session x"
  shows "registry_inv (put_transaction tr x' s)"
proof -
  let ?s' = "put_transaction tr x' s"
  have so: "session_of ?s' t = session_of s t" for t using assms(2,4) by (simp add: session_of_def)
  have "tr_refs ?s' q = tr_refs s q" for q using assms(2-4) by (auto simp: tr_refs_def)
  then have "refs ?s' q = refs s q" for q by (simp add: refs_def thread_refs_def so)
  then show ?thesis
    using assms(1,2) by (simp add: registry_inv_def registry_base_def covered_def so)
qed

lemma evolves_put_transaction:
  "s_trs s tr = Some x \<Longrightarrow> x_active x' = x_active x \<Longrightarrow> x_session x' = x_session x \<Longrightarrow> evolves s (put_transaction tr x' s)"
  using put_transaction_inv [of s tr x x'] by (simp add: evolves_def)

lemma evolves_put_transaction_net:
  "s_trs s tr = Some x \<Longrightarrow> x_active x' = x_active x \<Longrightarrow> x_session x' = x_session x \<Longrightarrow>
   evolves s (put_transaction tr x' (s\<lparr>s_net := w\<rparr>))"
  using evolves_put_transaction [of "s\<lparr>s_net := w\<rparr>" tr x x'] by simp

lemma evolves_execute:
  "stack_safe lib \<Longrightarrow> lib_execute lib tr e s = Some (r, s') \<Longrightarrow> evolves s s'"
  unfolding stack_safe_def by blast

lemma evolves_add_event:
  "stack_safe lib \<Longrightarrow> lib_add_event lib tr e s = (r, s') \<Longrightarrow> evolves s s'"
  unfolding stack_safe_def by blast

lemma evolves_send:
  assumes "stack_safe lib" and "osip_transaction_send_sipmessage lib tr m now s = Some (r, s')"
  shows "evolves s s'"
  using assms(2)
  by (auto simp: osip_transaction_send_sipmessage_def split: if_splits option.splits
      dest!: evolves_execute [OF assms(1)] evolves_add_event [OF assms(1)])

lemma evolves_response:
  assumes "stack_safe lib" and "osip_transaction_response lib tr status ua now s = Some (r, s')"
  shows "evolves s s'"
  using assms(2)
  by (auto simp: osip_transaction_response_def Let_def split: option.splits prod.splits if_splits
      dest!: evolves_send [OF assms(1)])

lemma attach_sessions: "attach_transaction p tr fd f s = Some s' \<Longrightarrow> s_sessions s' = s_sessions s"
  by (auto simp: attach_transaction_def split: option.splits)

text \<open>A new transaction that is attached to a session at once.\<close>

lemma evolves_create_attach:
  assumes "stack_safe lib" and "lib_create lib e s = (Some tr, s1)" and "attach_transaction p tr fd f s1 = Some s2"
    and "no_overflow p s"
  shows "evolves s s2"
proof -
  obtain x o' where x: "s_trs s tr = None" "x_session x = None" "s1 = put_transaction tr x (s\<lparr>s_osip := o'\<rparr>)"
    using assms(1,2) unfolding stack_safe_def by blast
  let ?s = "s\<lparr>s_osip := o'\<rparr>"
  have "registry_inv s2" if "registry_inv s"
  proof -
    have "registry_inv s1" using new_transaction_inv [of ?s tr x] that x by simp
    moreover have "s_trs s1 tr = Some x" "no_overflow p s1" using x assms(4) by (simp_all add: no_overflow_def)
    ultimately show ?thesis using attach_inv [of s1 tr x p fd f s2] x(2) assms(3) by blast
  qed
  moreover have "s_sessions s2 = s_sessions s" using attach_sessions [OF assms(3)] x(3) by simp
  ultimately show ?thesis by (simp add: evolves_def)
qed

lemma evolves_bye_sip:
  assumes safe: "stack_safe lib" and over: "no_overflow p s" and bye: "SIPLeelenSession_bye_sip lib p now s = Some (r, s')"
  shows "evolves s s'"
proof -
  obtain self where self: "s_heap s p = Some self"
    using bye by (auto simp: SIPLeelenSession_bye_sip_def split: option.splits)
  show ?thesis
  proof (cases "n_sip self")
    case None
    then show ?thesis using bye self by (simp add: SIPLeelenSession_bye_sip_def)
  next
    case (Some sip)
    obtain res request sip' w where req: "osip_message_request (lib_codes lib) (lib_via lib) (lib_list_add lib)
        sip ''BYE'' (s_ua s) (s_net s) = (res, request, sip', w)"
      by (metis prod_cases4)
    let ?s1 = "put_session p (self\<lparr>n_sip := Some sip'\<rparr>) s"
    let ?s2 = "?s1\<lparr>s_net := step w\<rparr>"
    have e1: "evolves s ?s1" using evolves_put_session [OF self] by simp
    show ?thesis
    proof (cases "res = OSIP_SUCCESS \<and> w_ok w (w_tick w)")
      case False
      then show ?thesis using bye self Some req e1 by (auto simp: SIPLeelenSession_bye_sip_def Let_def split: if_splits)
    next
      case ok: True
      obtain t s3 where cr: "lib_create lib (True, the request) ?s2 = (t, s3)" by fastforce
      show ?thesis
      proof (cases t)
        case None
        then have "evolves ?s2 s3" using safe cr unfolding stack_safe_def by fastforce
        then show ?thesis
          using bye self Some req e1 ok None cr evolves_trans [OF e1, of s3]
          by (simp add: SIPLeelenSession_bye_sip_def Let_def)
      next
        case t: (Some tr)
        obtain s4 where at: "attach_transaction p tr (s_socket_sip s3) (sa_family (s_addr s3)) s3 = Some s4"
          using bye self Some req ok t cr by (auto simp: SIPLeelenSession_bye_sip_def Let_def split: option.splits)
        have "no_overflow p ?s2" using over self by (simp add: no_overflow_def)
        from evolves_create_attach [OF safe cr [unfolded t] at this] have e4: "evolves s s4"
          using evolves_trans [OF e1] by simp
        show ?thesis
          using bye self Some req ok t cr at e4
          by (auto simp: SIPLeelenSession_bye_sip_def Let_def split: option.splits if_splits
              dest!: evolves_execute [OF safe] intro: evolves_trans)
            (metis evolves_add_event [OF safe] evolves_trans prod.collapse)+
      qed
    qed
  qed
qed

lemma connect_count: "SIPLeelenSession_connect a b c self w = (q, self', w') \<Longrightarrow> n_refcount self' = n_refcount self"
  by (auto simp: SIPLeelenSession_connect_def Let_def split: if_splits prod.splits sum.splits)

lemma bye_leelen_count: "SIPLeelenSession_bye_leelen fd self w = (q, self', w') \<Longrightarrow> n_refcount self' = n_refcount self"
  by (auto simp: SIPLeelenSession_bye_leelen_def Let_def split: if_splits prod.splits)

lemma evolves_bye_leelen:
  "on_session (SIPLeelenSession_bye_leelen fd) p s = Some (r, s') \<Longrightarrow> evolves s s'"
  by (rule evolves_on_session) (auto dest: bye_leelen_count)

lemma evolves_connect:
  "on_session (SIPLeelenSession_connect a b c) p s = Some (r, s') \<Longrightarrow> evolves s s'"
  by (rule evolves_on_session) (auto dest: connect_count)

section \<open>Lemmas: receiving a LEELEN message\<close>

lemma evolves_set_tag: "uac_set_tag tr i s = Some (ok, s') \<Longrightarrow> evolves s s'"
  by (auto simp: uac_set_tag_def Let_def evolves_put_transaction_net split: option.splits if_splits)

lemma evolves_send_answer:
  assumes safe: "stack_safe lib" and "uac_send_answer lib p tr body s = Some (out, s')"
  shows "evolves s s'"
proof -
  obtain x self where x: "s_trs s tr = Some x" "s_heap s p = Some self"
    using assms(2) by (auto simp: uac_send_answer_def split: option.splits)
  obtain res m w where resp: "osip_message_response (lib_codes lib) (lib_reason lib) (x_orig_request x) 200 (s_ua s) (s_net s) =
      (res, m, w)" by (metis prod_cases3)
  let ?fs = "[(\<lambda>m. m\<lparr>q_bodies := q_bodies m @ [body]\<rparr>),
              (\<lambda>m. m\<lparr>q_content_type := Some (Some ''application'', Some ''sdp'')\<rparr>),
              set_header ''Expires'' ''5;refresher=uac'']"
  obtain m' w' where b: "build ?fs (the m) w = (m', w')" by fastforce
  show ?thesis
  proof (cases "res = OSIP_SUCCESS \<and> m' \<noteq> None")
    case False
    then show ?thesis
      using assms(2) x resp b by (auto simp: uac_send_answer_def Let_def simp del: build.simps split: if_splits)
  next
    case True
    then obtain response where r: "m' = Some response" by blast
    define ok s1 where "ok = (n_sip self \<noteq> None \<or> w_ok w' (w_tick w'))"
      and "s1 = (if n_sip self = None then
            let s = s\<lparr>s_net := step w'\<rparr>
            in if ok then put_session p (self\<lparr>n_sip := Some (lib_dialog_as_uas lib (x_orig_request x) response)\<rparr>) s else s
          else s\<lparr>s_net := w'\<rparr>)"
    have e1: "evolves s s1"
      using evolves_put_session [of "s\<lparr>s_net := step w'\<rparr>" p self] x(2) by (simp add: s1_def Let_def)
    have "(if \<not> ok then Some (Reply 500, s1)
       else case osip_transaction_send_sipmessage lib tr response True s1 of
              None \<Rightarrow> None
            | Some (r, s) \<Rightarrow> Some (if r = OSIP_SUCCESS then Done else Reply 500, s)) = Some (out, s')"
      using assms(2) x resp b r True
      by (auto simp: uac_send_answer_def Let_def ok_def s1_def simp del: build.simps)
    then show ?thesis
      using e1 by (auto split: if_splits option.splits dest!: evolves_send [OF safe] intro: evolves_trans)
  qed
qed

lemma evolves_connecting:
  assumes safe: "stack_safe lib" and con: "uac_connecting lib p tr i fa fv s = Some (out, s')"
  shows "evolves s s'"
proof (cases tr)
  case None
  then show ?thesis using con by (simp add: uac_connecting_def)
next
  case (Some t)
  obtain x where x: "s_trs s t = Some x" using con Some by (auto simp: uac_connecting_def split: option.splits)
  show ?thesis
  proof (cases "x_ctx_type x = IST")
    case False
    then show ?thesis using con Some x by (simp add: uac_connecting_def)
  next
    case True
    let ?connect = "SIPLeelenSession_connect (s_addr s) (vec fa \<noteq> []) (vec fv \<noteq> [])"
    obtain r pa pv os s1 where c: "on_session ?connect p s = Some ((r, pa, pv, os), s1)"
      using con Some x True by (auto simp: uac_connecting_def split: option.splits)
    note e1 = evolves_connect [OF c]
    show ?thesis
    proof (cases "r = 0")
      case False
      then show ?thesis using con Some x True c e1 by (simp add: uac_connecting_def)
    next
      case r: True
      obtain ok s2 where t: "uac_set_tag t i s1 = Some (ok, s2)"
        using con Some x True c r by (auto simp: uac_connecting_def Let_def split: option.splits)
      have e2: "evolves s s2" using evolves_trans [OF e1 evolves_set_tag [OF t]] .
      show ?thesis
      proof (cases ok)
        case False
        then show ?thesis using con Some x True c r t e2 by (simp add: uac_connecting_def Let_def)
      next
        case ok: True
        let ?audio = "case pa of None \<Rightarrow> 0 | Some port \<Rightarrow> port" and ?video = "case pv of None \<Rightarrow> 0 | Some port \<Rightarrow> port"
        obtain self where self: "s_heap s2 p = Some self"
          using con Some x True c r t ok by (auto simp: uac_connecting_def Let_def split: option.splits)
        obtain body w where b: "uac_sdp lib (x_out_af x) (n_ours self) i ?audio ?video fa fv (s_net s2) = (body, w)"
          by fastforce
        have e3: "evolves s (s2\<lparr>s_net := w\<rparr>)" using e2 by simp
        show ?thesis
        proof (cases body)
          case None
          then show ?thesis using con Some x True c r t ok self b e3 by (simp add: uac_connecting_def Let_def)
        next
          case body: (Some sdp)
          have "uac_send_answer lib p t sdp (s2\<lparr>s_net := w\<rparr>) = Some (out, s')"
            using con Some x True c r t ok self b body by (simp add: uac_connecting_def Let_def)
          from evolves_trans [OF e3 evolves_send_answer [OF safe this]] show ?thesis .
        qed
      qed
    qed
  qed
qed

lemma evolves_incref:
  assumes "s_heap s p = Some self" and "no_overflow p s"
  shows "evolves s (put_session p (SIPLeelenSession_incref self) s)"
  using registry_put_more [of s p self "SIPLeelenSession_incref self"] assms refcount_inc_unat [of "n_refcount self"]
  by (simp add: evolves_def SIPLeelenSession_incref_def no_overflow_def)

lemma evolves_dispatch:
  assumes "stack_safe lib" and "no_overflow p s" and "uac_dispatch lib p code st tr i fa fv s = Some (out, s')"
  shows "evolves s s'"
  using assms(3) evolves_incref [OF _ assms(2)]
  by (auto simp: uac_dispatch_def Let_def split: if_splits option.splits
      dest!: evolves_connecting [OF assms(1)] evolves_bye_sip [OF assms(1,2)])

lemma evolves_finish:
  assumes "stack_safe lib" and "uac_finish lib p tr out s = Some (res, s')"
  shows "evolves s s'"
  using assms(2)
  by (auto simp: uac_finish_def Let_def split: outcome.splits option.splits if_splits
      dest!: evolves_response [OF assms(1)] evolves_bye_leelen intro: evolves_trans)

lemma evolves_receive:
  assumes safe: "stack_safe lib" and over: "no_overflow p s"
    and rec: "SIPLeelenSession_receive lib stack p msg fd src s = Some (res, s')"
  shows "evolves s s'"
proof -
  obtain self where self: "s_heap s p = Some self"
    using rec by (auto simp: SIPLeelenSession_receive_def split: option.splits)
  have over': "no_overflow p (put_session p (self\<lparr>n_leelen := d\<rparr>) s\<lparr>s_net := w\<rparr>)" for d w
    using over self by (simp add: no_overflow_def)
  have e: "evolves s (put_session p (self\<lparr>n_leelen := d\<rparr>) s\<lparr>s_net := w\<rparr>)" for d w
    using evolves_put_session [OF self] by simp
  show ?thesis
    using rec self e
    by (auto simp: SIPLeelenSession_receive_def Let_def split: if_splits option.splits prod.splits
        dest!: evolves_dispatch [OF safe over'] evolves_finish [OF safe] intro: evolves_trans) (meson evolves_trans)+
qed

text \<open>A session that has neither a SIP dialog nor a transaction: the stack is not called.\<close>

definition same_refs :: "'x device \<Rightarrow> 'x device \<Rightarrow> bool" where
  "same_refs s s' \<longleftrightarrow> s_trs s' = s_trs s \<and> s_threads s' = s_threads s \<and> s_sessions s' = s_sessions s"

lemma same_refs_put [simp]: "same_refs s (put_session p self s)" "same_refs s (s\<lparr>s_net := w\<rparr>)"
  by (simp_all add: same_refs_def)

lemma on_session_refs: "on_session f p s = Some (r, s') \<Longrightarrow> same_refs s s'"
  by (auto simp: on_session_def same_refs_def put_session_def Let_def split: option.splits prod.splits)

lemma receive_unattached:
  assumes self: "s_heap s p = Some self" "n_sip self = None" "n_transaction self = None"
    and rec: "SIPLeelenSession_receive lib stack p msg fd src s = Some (res, s')"
  shows "same_refs s s'"
proof -
  have dispatch: "same_refs t t'"
    if "uac_dispatch lib p code st None i fa fv t = Some (out, t')" "s_heap t p = Some (self\<lparr>n_leelen := d\<rparr>)"
    for code st i fa fv t out t' d
    using that self
    by (auto simp: uac_dispatch_def uac_connecting_def SIPLeelenSession_bye_sip_def Let_def same_refs_def
        split: if_splits option.splits)
  have finish: "same_refs t t'" if "uac_finish lib p None out t = Some (res, t')" for out t t'
    using that by (auto simp: uac_finish_def same_refs_def split: outcome.splits option.splits dest!: on_session_refs)
  show ?thesis
  proof (cases "LEELEN_MESSAGE_CODE msg = LEELEN_CODE_OPEN_GATE")
    case True
    then show ?thesis using rec self by (simp add: SIPLeelenSession_receive_def same_refs_def)
  next
    case False
    then obtain same where same: "sockaddr_same (d_theirs (n_leelen self)) src = Some same"
      using rec self by (auto simp: SIPLeelenSession_receive_def Let_def split: option.splits)
    let ?d = "if same then n_leelen self else (n_leelen self)\<lparr>d_theirs := src\<rparr>"
    obtain r d fa fv w where r: "LeelenDialog_receive ?d stack msg fd True True (s_net s) = (r, d, fa, fv, w)"
      by (metis prod_cases5)
    let ?s1 = "put_session p (self\<lparr>n_leelen := d\<rparr>) (s\<lparr>s_net := w\<rparr>)"
    have s1: "same_refs s ?s1" "s_heap ?s1 p = Some (self\<lparr>n_leelen := d\<rparr>)" by (simp_all add: same_refs_def)
    have eq: "(put_session p (self\<lparr>n_leelen := d\<rparr>) s)\<lparr>s_net := w\<rparr> = ?s1" by (simp add: put_session_def)
    consider "s' = ?s1" | out s2 where "uac_dispatch lib p (LEELEN_MESSAGE_CODE msg) (d_state ?d) None (d_id (n_leelen self)) fa fv ?s1 =
        Some (out, s2)" "uac_finish lib p None out s2 = Some (res, s')"
      using rec self False same r
      by (auto simp: SIPLeelenSession_receive_def Let_def eq split: if_splits option.splits)
    then show ?thesis
    proof cases
      case 1
      then show ?thesis using s1(1) by simp
    next
      case (2 out s2)
      from dispatch [OF 2(1) s1(2)] finish [OF 2(2)] s1(1) show ?thesis by (simp add: same_refs_def)
    qed
  qed
qed

lemma same_refs_refs: "same_refs s s' \<Longrightarrow> refs s' p = refs s p"
  by (rule refs_cong) (simp_all add: same_refs_def)

lemma refs_net [simp]: "refs (s\<lparr>s_net := w\<rparr>) p = refs s p"
  by (rule refs_cong) simp_all

text \<open>A failed creation: no memory, or the new slot is given back.\<close>

lemma new_session_fail_inv:
  assumes inv: "registry_inv s" and new: "SIPLeelen_new_session s = Some (None, s')"
  shows "registry_inv s'"
proof -
  let ?v = "s_sessions s" and ?p = "s_next s"
  have base: "registry_base s" using inv by (simp add: registry_inv_def)
  then have wf: "wf_ptrv ?v" and unique: "unique_slots ?v" by (simp_all add: registry_base_def)
  obtain i v w where c: "ptrvcreate ?v ?p (s_net s) = (i, v, w)" by (metis prod_cases3)
  show ?thesis
  proof (cases "0 \<le> i")
    case False
    then have "v = ?v"
      using c ptrvinsert_fails [OF wf] by (fastforce simp: ptrvcreate_def sys_def Let_def split: if_splits prod.splits)
    moreover have "s' = s\<lparr>s_sessions := v, s_net := w\<rparr>" using new c False by (simp add: SIPLeelen_new_session_def)
    ultimately show ?thesis using inv by simp
  next
    case i: True
    with c obtain w1 where ins: "ptrvinsert ?v ?p w1 = (i, v, w)"
      by (auto simp: ptrvcreate_def sys_def Let_def split: if_splits prod.splits)
    note spec = ptrvinsert_spec [OF wf ins i]
    have "refs s ?p = 0" using registry_fresh [OF inv] by simp
    then have notin: "?p \<notin> members ?v" using member_refs by force
    have uniq: "unique_slots v" using unique_slots_insert [OF wf unique notin ins i] .
    obtain r self w2 where init: "SIPLeelenSession_init (s_mtu s) (c_mtu (s_config s)) (s_junk s ?p) w = (r, self, w2)"
      by (metis prod_cases3)
    obtain v2 w3 where st: "ptrvsteal v i w2 = (v2, w3)" by fastforce
    have s': "s' = s\<lparr>s_sessions := v2, s_next := Suc ?p, s_heap := (s_heap s)(?p \<mapsto> self), s_net := w3\<rparr>"
      using new c i init st
      by (auto simp: SIPLeelen_new_session_def on_session_def put_session_def Let_def
          split: if_splits prod.splits slot.splits)
    have iv: "i < int (plen v)" using spec i by linarith
    note steals = ptrvsteal_members [OF _ uniq i iv st]
    have v2: "wf_ptrv v2" "unique_slots v2" "members v2 \<subseteq> members ?v"
      using steals spec by auto
    have same: "s_trs s' = s_trs s" "s_threads s' = s_threads s" "s_sessions s' = v2" "s_next s' = Suc ?p"
      "s_heap s' = (s_heap s)(?p \<mapsto> self)" by (simp_all add: s')
    have so: "session_of s' t = session_of s t" for t by (simp add: same session_of_def)
    have le: "refs s' q \<le> refs s q" for q
      using refs_fewer_members [of s' s q] v2(3) same by simp
    have "covered s' q 0" for q
      using le [of q] registry_live [OF inv, of q] \<open>refs s ?p = 0\<close> by (auto simp: covered_def same)
    moreover have "registry_base s'" using base v2(1,2) by (auto simp: registry_base_def so same)
    ultimately show ?thesis by (simp add: registry_inv_def)
  qed
qed

lemma find_leelen_member: "find_leelen i ps s = Some (Some p) \<Longrightarrow> Ptr p \<in> set ps"
  by (induction i ps s rule: find_leelen.induct) (auto split: option.splits if_splits)

lemma receive_new_inv:
  assumes inv: "registry_inv s" and safe: "stack_safe lib"
    and rec: "receive_leelen_new lib stack fuel buf fd src s = Some (r, s')"
  shows "registry_inv s'"
proof (cases "\<exists>p s1. SIPLeelen_new_session s = Some (Some p, s1)")
  case False
  then have "r = 1 \<and> s' = s \<or> SIPLeelen_new_session s = Some (None, s')"
    using rec by (auto simp: receive_leelen_new_def Let_def split: if_splits option.splits prod.splits)
  then show ?thesis using inv new_session_fail_inv [OF inv] by blast
next
  case True
  then obtain p s1 where new: "SIPLeelen_new_session s = Some (Some p, s1)" by blast
  note inv1 = new_session_inv [OF inv new] and one = new_session_refs(2) [OF inv new] and n = new_session_spec [OF inv new]
  obtain self where self: "s_heap s1 p = Some self" "n_refcount self = 1" "n_sip self = None" "n_transaction self = None"
    using n by fastforce
  show ?thesis
  proof (cases "r = 1 \<and> s' = s")
    case True
    then show ?thesis using inv by simp
  next
    case False
    then obtain x d w s2 where init: "LeelenDialog_init fuel (n_leelen self) (s_config s1) src None (LEELEN_MESSAGE_ID buf) (s_net s1) =
        Some (x, d, w)"
      and r2: "SIPLeelenSession_receive lib stack p buf fd src ((put_session p (self\<lparr>n_leelen := d\<rparr>) s1)\<lparr>s_net := w\<rparr>) = Some (r, s2)"
      and s': "if r = 0 then s' = s2 else SIPLeelen_free_session p (- 1) s2 = Some s'"
      using rec new self(1)
      by (auto simp: receive_leelen_new_def Let_def split: if_splits option.splits prod.splits)
    let ?t = "(put_session p (self\<lparr>n_leelen := d\<rparr>) s1)\<lparr>s_net := w\<rparr>"
    have over: "no_overflow p ?t" using self by (simp add: no_overflow_def refcount_inc_def)
    have "evolves s1 s2"
      using evolves_trans [OF _ evolves_receive [OF safe over r2], of s1] evolves_put_session [OF self(1)] by simp
    then have inv2: "registry_inv s2" and mem: "p \<in> members (s_sessions s2)" using inv1 n by (auto simp: evolves_def)
    have "same_refs ?t s2" using receive_unattached [OF _ _ _ r2, of "self\<lparr>n_leelen := d\<rparr>"] self by simp
    then have "refs s2 p = 1" using same_refs_refs [of ?t s2 p] one by simp
    from free_session_inv [OF inv2 mem this] s' inv2 show ?thesis by (auto split: if_splits)
  qed
qed

section \<open>Properties\<close>

text \<open>C8. A LEELEN datagram never leaves a dangling session behind: whatever bytes arrive, for a session or for none, the
  references of all sessions are covered again when \<open>SIPLeelen_receive_leelen\<close> returns, new sessions
  that were refused included, provided the stack only uses the operations of sessions and no counter
  is at its maximum.\<close>

theorem SIPLeelen_receive_leelen_covers:
  assumes "registry_inv s" and "stack_safe lib" and "\<And>p. no_overflow p s"
    and "SIPLeelen_receive_leelen lib stack fuel seen buf fd src s = Some (r, s')"
  shows "registry_inv s' \<and> (\<forall>p \<in> members (s_sessions s'). s_heap s' p \<noteq> None)"
proof -
  let ?buf = "buf[length buf - 1 := NUL]"
  have "registry_inv s'"
  proof (cases "LEELEN_MESSAGE_HEADER_SIZE < length buf")
    case False
    then show ?thesis using assms(1,4) by (simp add: SIPLeelen_receive_leelen_def)
  next
    case True
    then consider p where "SIPLeelenSession_receive lib stack p ?buf fd src s = Some (r, s')"
      | "receive_leelen_new lib stack fuel ?buf fd src s = Some (r, s')"
      using assms(4) by (auto simp: SIPLeelen_receive_leelen_def Let_def split: option.splits if_splits)
    then show ?thesis
    proof cases
      case (1 p)
      from evolves_receive [OF assms(2,3) this] assms(1) show ?thesis by (simp add: evolves_def)
    next
      case 2
      from receive_new_inv [OF assms(1,2) this] show ?thesis .
    qed
  qed
  moreover from this have "s_heap s' p \<noteq> None" if "p \<in> members (s_sessions s')" for p
    using registry_live [of s' p] member_refs [OF that] by auto
  ultimately show ?thesis by blast
qed

lemma sample_lib_safe: "stack_safe sample_lib"
proof -
  have "\<exists>o'. s = s\<lparr>s_osip := o'\<rparr>" for s :: "event_log device" by (intro exI [of _ "s_osip s"]) simp
  then show ?thesis unfolding stack_safe_def by auto
qed

theorem SIPLeelen_receive_leelen_covers_witness:
  "\<exists>s'. SIPLeelen_receive_leelen sample_lib sample_message 1 [] (replicate 9 NUL) 4 sockaddr_zero empty_device = Some (1, s') \<and>
     registry_inv s'"
proof -
  have "LEELEN_MESSAGE_CODE ((replicate 9 NUL)[length (replicate 9 NUL) - 1 := NUL]) = 0" by code_simp
  then have "SIPLeelen_receive_leelen sample_lib sample_message 1 [] (replicate 9 NUL) 4 sockaddr_zero empty_device =
      Some (1, empty_device)"
    by (simp add: SIPLeelen_receive_leelen_def receive_leelen_new_def Let_def LEELEN_MESSAGE_HEADER_SIZE_def leelen_codes)
  moreover have "no_overflow p empty_device" for p by (simp add: no_overflow_def)
  ultimately show ?thesis
    using SIPLeelen_receive_leelen_covers [OF initial_inv [OF empty_device_initial] sample_lib_safe] by blast
qed

text \<open>C23. A new session is fresh: its address was never used and is in the table and nowhere else, its counter is 1 for the table, it
  has no SIP dialog, no transaction, no LEELEN dialog and no thread, and every other session, transaction
  and thread is as before.\<close>

theorem SIPLeelen_new_session_fresh:
  assumes "registry_inv s" and "SIPLeelen_new_session s = Some (Some p, s')"
  shows "s_heap s p = None \<and> members (s_sessions s') = insert p (members (s_sessions s)) \<and> p \<notin> members (s_sessions s) \<and>
    refs s' p = 1 \<and> (\<exists>self. s_heap s' = (s_heap s)(p \<mapsto> self) \<and> n_refcount self = 1 \<and> n_sip self = None \<and>
      n_transaction self = None \<and> d_id (n_leelen self) = 0 \<and> n_invite_state self = SINGLE_STOPPED) \<and>
    s_trs s' = s_trs s \<and> s_threads s' = s_threads s \<and> registry_inv s'"
proof -
  note n = new_session_spec [OF assms]
  have "s_heap s p = None" using assms(1) n by (simp add: registry_inv_def registry_base_def)
  with n new_session_refs(2) [OF assms] new_session_inv [OF assms] show ?thesis by blast
qed

theorem SIPLeelen_new_session_fresh_witness:
  "\<exists>s' self. SIPLeelen_new_session empty_device = Some (Some 0, s') \<and> s_heap s' 0 = Some self \<and> n_refcount self = 1 \<and> refs s' 0 = 1"
proof -
  obtain s' where n: "SIPLeelen_new_session empty_device = Some (Some 0, s')" using empty_device_new_session by blast
  from SIPLeelen_new_session_fresh [OF initial_inv [OF empty_device_initial] n] n show ?thesis by auto
qed

text \<open>Which session a LEELEN message is for.\<close>

definition found_session :: "u32 \<Rightarrow> nat slot list \<Rightarrow> 'x device \<Rightarrow> nat option \<Rightarrow> bool" where
  "found_session i ps s r \<longleftrightarrow>
     (r = None \<longrightarrow> (\<forall>p self. Ptr p \<in> set ps \<and> s_heap s p = Some self \<longrightarrow> d_id (n_leelen self) \<noteq> i)) \<and>
     (\<forall>p. r = Some p \<longrightarrow> Ptr p \<in> set ps \<and> (\<exists>self. s_heap s p = Some self \<and> d_id (n_leelen self) = i))"

lemma find_leelen_live:
  assumes "Junk \<notin> set ps" and "\<And>p. Ptr p \<in> set ps \<Longrightarrow> s_heap s p \<noteq> None"
  shows "\<exists>r. find_leelen i ps s = Some r \<and> found_session i ps s r"
  using assms
proof (induction i ps s rule: find_leelen.induct)
  case (4 i p ps s)
  then obtain self where self: "s_heap s p = Some self" by fastforce
  show ?case
  proof (cases "d_id (n_leelen self) = i")
    case True
    with self show ?thesis by (simp add: found_session_def)
  next
    case False
    with 4 self obtain r where "find_leelen i ps s = Some r" "found_session i ps s r" by fastforce
    with self False show ?thesis by (auto simp: found_session_def)
  qed
qed (auto simp: found_session_def)

lemma registry_slots:
  assumes "registry_inv s"
  shows "Junk \<notin> set (slots (s_sessions s))" and "Ptr p \<in> set (slots (s_sessions s)) \<Longrightarrow> s_heap s p \<noteq> None"
proof -
  have "wf_ptrv (s_sessions s)" using assms by (simp add: registry_inv_def registry_base_def)
  then show "Junk \<notin> set (slots (s_sessions s))" by (auto simp: wf_ptrv_iff slots_def dest: in_set_takeD)
  show "s_heap s p \<noteq> None" if "Ptr p \<in> set (slots (s_sessions s))"
    using registry_live [OF assms, of p] member_refs [of p s] that by (auto simp: members_def)
qed

text \<open>C20. LEELEN messages are routed by dialog ID: in a state with covered references the search never meets a freed session; a
  message for a session in the table goes to a session with its ID, once the invite thread of the session
  is through; a message for no session that is no invitation is refused with 1, and one that is
  too short with 255, and nothing changes.\<close>

theorem SIPLeelen_receive_leelen_routes:
  assumes "registry_inv s"
  shows "(length buf \<le> 8 \<longrightarrow> SIPLeelen_receive_leelen lib stack fuel seen buf fd src s = Some (255, s)) \<and>
    (8 < length buf \<longrightarrow>
      (let m = buf[length buf - 1 := NUL]; known = (\<exists>p \<in> members (s_sessions s). \<exists>self. s_heap s p = Some self \<and>
             d_id (n_leelen self) = LEELEN_MESSAGE_ID m)
       in (known \<longrightarrow> (\<exists>p \<in> members (s_sessions s). \<exists>self. s_heap s p = Some self \<and> d_id (n_leelen self) = LEELEN_MESSAGE_ID m \<and>
            (single_join (n_invite_state self) seen \<noteq> None \<longrightarrow>
             SIPLeelen_receive_leelen lib stack fuel seen buf fd src s = SIPLeelenSession_receive lib stack p m fd src s))) \<and>
          (\<not> known \<and> LEELEN_MESSAGE_CODE m \<notin> {LEELEN_CODE_CALL, LEELEN_CODE_VIEW, LEELEN_CODE_VOICE_MESSAGE} \<longrightarrow>
            SIPLeelen_receive_leelen lib stack fuel seen buf fd src s = Some (1, s))))"
proof (cases "8 < length buf")
  case False
  then show ?thesis by (simp add: SIPLeelen_receive_leelen_def LEELEN_MESSAGE_HEADER_SIZE_def)
next
  case True
  define m where "m = buf[length buf - 1 := NUL]"
  let ?rec = "SIPLeelen_receive_leelen lib stack fuel seen buf fd src s"
  note live = registry_slots [OF assms]
  obtain r where f: "find_leelen (LEELEN_MESSAGE_ID m) (slots (s_sessions s)) s = Some r"
    and spec: "found_session (LEELEN_MESSAGE_ID m) (slots (s_sessions s)) s r"
    using find_leelen_live [OF live, of "LEELEN_MESSAGE_ID m"] by blast
  have r: "?rec = (case r of
      Some p \<Rightarrow> (case s_heap s p of None \<Rightarrow> None | Some ses \<Rightarrow>
        if single_join (n_invite_state ses) seen = None then None else SIPLeelenSession_receive lib stack p m fd src s)
    | None \<Rightarrow> receive_leelen_new lib stack fuel m fd src s)"
    using True f unfolding SIPLeelen_receive_leelen_def LEELEN_MESSAGE_HEADER_SIZE_def Let_def m_def [symmetric]
    by (cases r) simp_all
  show ?thesis
  proof (cases r)
    case None
    have "\<not> (\<exists>p \<in> members (s_sessions s). \<exists>self. s_heap s p = Some self \<and> d_id (n_leelen self) = LEELEN_MESSAGE_ID m)"
      using spec None by (auto simp: members_def found_session_def)
    moreover have "?rec = Some (1, s)"
      if "LEELEN_MESSAGE_CODE m \<notin> {LEELEN_CODE_CALL, LEELEN_CODE_VIEW, LEELEN_CODE_VOICE_MESSAGE}"
      using that r None by (simp add: receive_leelen_new_def)
    ultimately show ?thesis using True unfolding Let_def m_def by (meson not_less)
  next
    case (Some p)
    with spec obtain self where self: "p \<in> members (s_sessions s)" "s_heap s p = Some self"
      "d_id (n_leelen self) = LEELEN_MESSAGE_ID m" by (auto simp: members_def found_session_def)
    moreover have "single_join (n_invite_state self) seen \<noteq> None \<longrightarrow> ?rec = SIPLeelenSession_receive lib stack p m fd src s"
      using r Some self(2) by simp
    moreover have "\<not> length buf \<le> 8" using True by simp
    ultimately show ?thesis unfolding Let_def m_def by blast
  qed
qed

theorem SIPLeelen_receive_leelen_routes_witness:
  "SIPLeelen_receive_leelen sample_lib sample_message 1 [] [] 4 sockaddr_zero empty_device = Some (255, empty_device)"
  using SIPLeelen_receive_leelen_routes [OF initial_inv [OF empty_device_initial], of "[]"] by simp

text \<open>A request that the stack cannot make a transaction of costs its session a reference that nobody took: when
  the table is the only one to refer to the session, a live call, it is freed and disappears from the
  table, and the request is dropped with result 2.\<close>

theorem receive_request_drops_session:
  assumes "registry_inv s" and "find_session lib sip (slots (s_sessions s)) s = Some (Some p)"
    and "lib_create lib (False, sip) s = (None, s)" and "s_heap s p = Some self" and "n_refcount self = 1"
  shows "\<exists>s'. receive_request lib fuel sip fd src dst s = Some (2, s') \<and> s_heap s' p = None \<and> p \<notin> members (s_sessions s')"
proof -
  have base: "wf_ptrv (s_sessions s)" "unique_slots (s_sessions s)"
    using assms(1) by (simp_all add: registry_inv_def registry_base_def)
  let ?s1 = "put_session p (self\<lparr>n_refcount := 0\<rparr>) s"
  let ?s2 = "free_memory p (put_session p (self\<lparr>n_refcount := 1\<rparr>) ?s1)"
  define s' where "s' = SIPLeelen_remove_session p (- 1) ?s2"
  have dec: "SIPLeelen_decref_session p (- 1) s = Some s'"
    using assms(4,5)
    by (simp add: SIPLeelen_decref_session_def SIPLeelen_may_free_session_def SIPLeelen_free_session_def s'_def put_session_def)
  have "wf_ptrv (s_sessions ?s2)" "unique_slots (s_sessions ?s2)" "slot_ok p (- 1) ?s2"
    using base by (simp_all add: slot_ok_def)
  note rm = remove_session_ok [OF this s'_def]
  have "receive_request lib fuel sip fd src dst s = Some (2, s')"
    using assms(2,3) dec by (simp add: receive_request_def)
  with rm(4,5) show ?thesis by simp
qed

theorem receive_request_drops_session_witness:
  "\<exists>s s' p. p \<in> members (s_sessions s) \<and> find_session sample_lib sample_request (slots (s_sessions s)) s = Some (Some p) \<and>
     receive_request sample_lib 1 sample_request 3 sockaddr_zero in6addr_any s = Some (2, s') \<and> s_heap s' p = None"
proof -
  obtain s self where s: "0 \<in> members (s_sessions s)" "s_heap s 0 = Some self" "n_refcount self = 1"
    "reach registry_initial registry_step (s :: event_log device)"
    and new: "SIPLeelen_new_session empty_device = Some (Some 0, s)"
    using empty_device_new_session by blast
  let ?self = "self\<lparr>n_sip := Some sample_osip_dialog\<rparr>"
  let ?s = "put_session 0 ?self s"
  have inv: "registry_inv ?s" using registry_put_session [OF registry.reach_inv [OF s(4)] s(2)] by simp
  have mem: "members (s_sessions s) = {0}" using new_session_spec [OF initial_inv [OF empty_device_initial] new] by simp
  have find: "find_session sample_lib sample_request ps ?s = Some (Some 0)"
    if "\<forall>p. Ptr p \<in> set ps \<longrightarrow> p = 0" "Ptr 0 \<in> set ps" "Junk \<notin> set ps" for ps
    using that
  proof (induction ps)
    case (Cons a ps)
    then show ?case by (cases a) (auto simp: sample_lib_def)
  qed simp
  have "Junk \<notin> set (slots (s_sessions s))" using registry_slots(1) [OF inv] by simp
  then have f: "find_session sample_lib sample_request (slots (s_sessions ?s)) ?s = Some (Some 0)"
    using find [of "slots (s_sessions s)"] mem by (auto simp: members_def)
  have "s_heap ?s 0 = Some ?self" "n_refcount ?self = 1" using s(3) by simp_all
  from receive_request_drops_session [OF inv f _ this, of 1 3 sockaddr_zero in6addr_any] obtain s' where
    "receive_request sample_lib 1 sample_request 3 sockaddr_zero in6addr_any ?s = Some (2, s')" "s_heap s' 0 = None"
    by auto
  with f s(1) show ?thesis by (intro exI [of _ ?s] exI [of _ s'] exI [of _ 0]) simp
qed

end
