(* ===== verification/Device.thy ===== *)
theory Device
  imports Discovery Safety
begin

text \<open>
  The life of the whole device, \<open>SIPLeelen_init\<close> to \<open>SIPLeelen_destroy\<close> in
  \<^verbatim>\<open>sipleelen/sipleelen.c\<close>: the record \<open>device\<close> and the discovery daemon that the structure starts
  with, which share the configuration.

  The main loop runs on a list of turns: what \<open>poll\<close> returns and the packets that arrive. \<open>seen\<close> are
  the values of a flag while a thread waits for it. \<open>None\<close> is a wait that they do not end, or a use
  of memory that is not there.
\<close>

section \<open>Running\<close>

text \<open>\<open>t\<close> counts the turns of the loop.\<close>

fun SIPLeelen_mainloop ::
  "'x osip_lib \<Rightarrow> LeelenMessage \<Rightarrow> nat \<Rightarrow> int list \<Rightarrow> u32 \<Rightarrow> (int \<times> packets) list \<Rightarrow> 'x device \<Rightarrow> 'x device option" where
  "SIPLeelen_mainloop lib stack fuel seen t [] s = Some s"
| "SIPLeelen_mainloop lib stack fuel seen t ((pollres, k) # turns) s =
     (case SIPLeelen_turn lib stack fuel seen t pollres k s of
        None \<Rightarrow> None
      | Some (go_on, s) \<Rightarrow> if go_on then SIPLeelen_mainloop lib stack fuel seen (t + 1) turns s else Some s)"

text \<open>The sockets are open and the discovery daemon could be started.\<close>

definition start_discovery ::
  "int list \<Rightarrow> LeelenDiscovery \<Rightarrow> 'x device \<Rightarrow> (int \<times> LeelenDiscovery \<times> 'x device) option" where
  "start_discovery seen y s =
     (if \<not> (0 \<le> s_socket_leelen s \<and> 0 \<le> s_socket_sip s) then Some (255, y, s)
      else map_option (\<lambda>(r, y, created, w). (r, y, s\<lparr>s_net := w\<rparr>)) (LeelenDiscovery_start seen y (s_net s)))"

definition SIPLeelen_run ::
  "'x osip_lib \<Rightarrow> LeelenMessage \<Rightarrow> nat \<Rightarrow> int list \<Rightarrow> int list \<Rightarrow> (int \<times> packets) list \<Rightarrow> LeelenDiscovery \<Rightarrow> 'x device \<Rightarrow>
   (int \<times> LeelenDiscovery \<times> 'x device) option" where
  "SIPLeelen_run lib stack fuel seen_discovery seen turns y s =
     (case start_discovery seen_discovery y s of
        None \<Rightarrow> None
      | Some (r, y, s) \<Rightarrow>
          if r \<noteq> 0 then Some (r, y, s)
          else case single_acquire (s_state s # seen) of
                 None \<Rightarrow> None
               | Some (False, flag) \<Rightarrow> Some (- 1, y, s)
               | Some (True, flag) \<Rightarrow>
                   map_option (\<lambda>s. (0, y, s)) (SIPLeelen_mainloop lib stack fuel [] 1 turns (s\<lparr>s_state := flag\<rparr>)))"

definition SIPLeelen_start ::
  "int list \<Rightarrow> int list \<Rightarrow> LeelenDiscovery \<Rightarrow> 'x device \<Rightarrow> (int \<times> LeelenDiscovery \<times> 'x device) option" where
  "SIPLeelen_start seen_discovery seen y s =
     (case start_discovery seen_discovery y s of
        None \<Rightarrow> None
      | Some (r, y, s) \<Rightarrow>
          if r \<noteq> 0 then Some (r, y, s)
          else map_option (\<lambda>(r, flag, created, w). (r, y, s\<lparr>s_state := flag, s_net := w\<rparr>))
                 (single_start (s_state s) seen (s_net s)))"

definition SIPLeelen_stop :: "LeelenDiscovery \<Rightarrow> 'x device \<Rightarrow> LeelenDiscovery \<times> 'x device" where
  "SIPLeelen_stop y s = (LeelenDiscovery_stop y, s\<lparr>s_state := single_stop (s_state s)\<rparr>)"

section \<open>Sockets\<close>

definition connect_leelen_socket :: "'x device \<Rightarrow> int \<times> 'x device" where
  "connect_leelen_socket s =
     (if s_socket_leelen s < 0 then
        (let (fd, s) = on_net (openaddr46 ((c_addr (s_config s))\<lparr>sa_port := htons (c_voip_src (s_config s))\<rparr>)
               OPENADDR_REUSEADDR) s
         in (if 0 \<le> fd then 0 else 2, s\<lparr>s_socket_leelen := fd\<rparr>))
      else (0, s))"

definition connect_sip_socket :: "'x device \<Rightarrow> int \<times> 'x device" where
  "connect_sip_socket s =
     (if s_socket_sip s < 0 then
        (let (fd, s) = on_net (openaddr46 (s_addr s) OPENADDR_REUSEADDR) s in
         if \<not> 0 \<le> fd then (4, s)
         else let (ok, s) = on_net sys s in
           if \<not> ok then (4, s) else (0, s\<lparr>s_socket_sip := fd\<rparr>))
      else (0, s))"

definition SIPLeelen_connect :: "LeelenDiscovery \<Rightarrow> 'x device \<Rightarrow> int \<times> LeelenDiscovery \<times> 'x device" where
  "SIPLeelen_connect y s =
     (let (r, y, w) = LeelenDiscovery_connect y (s_net s); s = s\<lparr>s_net := w\<rparr> in
      if r \<noteq> 0 then (1, y, s)
      else let (r, s) = connect_leelen_socket s in
        if r \<noteq> 0 then (r, y, s)
        else let (r, s) = connect_sip_socket s in (r, y, s))"

section \<open>The beginning and the end\<close>

text \<open>The descriptors that the sessions in the slots close; a hole in the table is passed over.\<close>

fun destroy_sessions :: "nat slot list \<Rightarrow> 'x device \<Rightarrow> int list option" where
  "destroy_sessions [] s = Some []"
| "destroy_sessions (Null # arr) s = destroy_sessions arr s"
| "destroy_sessions (Junk # arr) s = None"
| "destroy_sessions (Ptr p # arr) s =
     (case s_heap s p of
        None \<Rightarrow> None
      | Some self \<Rightarrow>
          (case SIPLeelenSession_destroy self of
             (fds, joins) \<Rightarrow> if None \<in> set joins then None else map_option ((@) fds) (destroy_sessions arr s)))"

definition SIPLeelen_destroy :: "int list \<Rightarrow> int list \<Rightarrow> LeelenDiscovery \<Rightarrow> 'x device \<Rightarrow> int list option" where
  "SIPLeelen_destroy seen_discovery seen y s =
     (let (y, s) = SIPLeelen_stop y s in
      case LeelenDiscovery_destroy seen_discovery y of
        (_, None) \<Rightarrow> None
      | (fds, Some _) \<Rightarrow>
          (case destroy_sessions (map (slot_at (vec (s_sessions s))) [0..<plen (s_sessions s)]) s of
             None \<Rightarrow> None
           | Some fds' \<Rightarrow>
               map_option (\<lambda>_. fds @ fds' @ filter (\<lambda>fd. 0 \<le> fd) [s_socket_sip s, s_socket_leelen s])
                 (single_join (s_state s) seen)))"

definition SIPLEELEN_PORT :: u16 where "SIPLEELEN_PORT = 5060"
definition SIPLEELEN_MAX_MESSAGE_LENGTH :: u16 where "SIPLEELEN_MAX_MESSAGE_LENGTH = 1500 - 20 - 8"

text \<open>\<open>osip_init\<close> is a call that may fail; the callbacks of the stack are the functions of \<open>osip_lib\<close>.\<close>

definition SIPLeelen_init :: "print_lib \<Rightarrow> LeelenConfig \<Rightarrow> LeelenDiscovery \<Rightarrow> 'x device \<Rightarrow> int \<times> LeelenDiscovery \<times> 'x device" where
  "SIPLeelen_init lib config y s =
     (let (r, y, w) = LeelenDiscovery_init lib config y (s_net s); s = s\<lparr>s_net := w\<rparr> in
      if r \<noteq> 0 then (r, y, s)
      else let (ok, s) = on_net sys s in
        if \<not> ok then (- 1, the (snd (LeelenDiscovery_destroy [] y)), s)
        else let (ok, s) = on_net sys s in
          if \<not> ok then (- 1, the (snd (LeelenDiscovery_destroy [] y)), s)
          else (0, y, s\<lparr>s_config := config, s_ua := None,
                 s_addr := sockaddr_zero\<lparr>sa_family := AF_INET6, sa_port := htons SIPLEELEN_PORT\<rparr>,
                 s_mtu := SIPLEELEN_MAX_MESSAGE_LENGTH, s_client := None, s_clients := (s_clients s)\<lparr>sa_family := AF_UNSPEC\<rparr>,
                 s_sessions := ptrv_empty, s_socket_sip := - 1, s_socket_leelen := - 1, s_state := SINGLE_FLAG_INIT\<rparr>))"

section \<open>Lemmas\<close>

lemma on_net_fields:
  assumes "on_net f s = (r, s')"
  shows "s' = s\<lparr>s_net := s_net s'\<rparr> \<and> f (s_net s) = (r, s_net s')"
  using assms by (auto simp: on_net_def split: prod.splits)

lemma connect_leelen_socket_result:
  assumes "connect_leelen_socket s = (r, s')"
  shows "s' = s\<lparr>s_net := s_net s', s_socket_leelen := s_socket_leelen s'\<rparr> \<and> r \<in> {0, 2} \<and>
    (r = 0 \<longrightarrow> 0 \<le> s_socket_leelen s') \<and> same_env (s_net s) (s_net s') \<and> ((\<forall>i. w_ok (s_net s) i) \<longrightarrow> r = 0)"
proof (cases "s_socket_leelen s < 0")
  case True
  let ?open = "openaddr46 ((c_addr (s_config s))\<lparr>sa_port := htons (c_voip_src (s_config s))\<rparr>) OPENADDR_REUSEADDR"
  obtain fd w where o: "?open (s_net s) = (fd, w)" by (metis surj_pair)
  with True assms have "s' = s\<lparr>s_net := w, s_socket_leelen := fd\<rparr>" "r = (if 0 \<le> fd then 0 else 2)"
    by (auto simp: connect_leelen_socket_def on_net_def)
  with openaddr46_env [OF o] openaddr46_ok [OF _ o] show ?thesis by simp
next
  case False
  with assms show ?thesis by (auto simp: connect_leelen_socket_def)
qed

lemma connect_sip_socket_result:
  assumes "connect_sip_socket s = (r, s')"
  shows "s' = s\<lparr>s_net := s_net s', s_socket_sip := s_socket_sip s'\<rparr> \<and> r \<in> {0, 4} \<and>
    (r = 0 \<longrightarrow> 0 \<le> s_socket_sip s') \<and> same_env (s_net s) (s_net s') \<and> ((\<forall>i. w_ok (s_net s) i) \<longrightarrow> r = 0)"
proof (cases "s_socket_sip s < 0")
  case True
  obtain fd w where o: "openaddr46 (s_addr s) OPENADDR_REUSEADDR (s_net s) = (fd, w)" by (metis surj_pair)
  note env = openaddr46_env [OF o]
  obtain ok w' where y: "sys w = (ok, w')" by (metis surj_pair)
  then have w': "same_env (s_net s) w'" and ok: "ok = w_ok (s_net s) (w_tick w)"
    using env by (auto simp: sys_def same_env_def)
  show ?thesis
  proof (cases "0 \<le> fd \<and> ok")
    case True
    with o y \<open>s_socket_sip s < 0\<close> assms have "s' = s\<lparr>s_net := w', s_socket_sip := fd\<rparr>" "r = 0"
      by (auto simp: connect_sip_socket_def on_net_def)
    with True w' show ?thesis by simp
  next
    case False
    with o y \<open>s_socket_sip s < 0\<close> assms have "s' = s\<lparr>s_net := if 0 \<le> fd then w' else w\<rparr>" "r = 4"
      by (auto simp: connect_sip_socket_def on_net_def split: if_splits)
    with False w' env ok openaddr46_ok [OF _ o] show ?thesis by auto
  qed
next
  case False
  with assms show ?thesis by (auto simp: connect_sip_socket_def)
qed

lemma discovery_init_result:
  assumes "LeelenDiscovery_init plib config y w = (r, y', w')"
  shows "(r = 0 \<or> r = - 1) \<and> same_env w w' \<and> ((\<forall>i. w_ok w i) \<longrightarrow> r = 0) \<and>
    (r = 0 \<longrightarrow> y_state y' = SINGLE_STOPPED \<and> poll_fds y' = [])"
  using assms
  by (auto simp: LeelenDiscovery_init_def LeelenDiscovery_syncown_def sys_def Let_def same_env_def poll_fds_def single_flags
      split: if_splits)

lemma device_init_result:
  assumes "SIPLeelen_init plib config y s = (r, y1, s1)"
  shows "(r = 0 \<or> r = - 1) \<and> same_env (s_net s) (s_net s1) \<and> ((\<forall>i. w_ok (s_net s) i) \<longrightarrow> r = 0) \<and>
    (r = 0 \<longrightarrow> y_state y1 = SINGLE_STOPPED \<and> poll_fds y1 = [] \<and> s_state s1 = SINGLE_STOPPED \<and> s_config s1 = config \<and>
      s_sessions s1 = ptrv_empty \<and> s_heap s1 = s_heap s \<and> s_trs s1 = s_trs s \<and> s_threads s1 = s_threads s \<and>
      s_socket_sip s1 = - 1 \<and> s_socket_leelen s1 = - 1)"
proof -
  obtain r0 y0 w0 where d: "LeelenDiscovery_init plib config y (s_net s) = (r0, y0, w0)" by (metis prod_cases3)
  note d0 = discovery_init_result [OF d]
  show ?thesis
  proof (cases "r0 = 0 \<and> w_ok w0 (w_tick w0) \<and> w_ok w0 (Suc (w_tick w0))")
    case True
    with assms d d0 show ?thesis
      by (auto simp: SIPLeelen_init_def on_net_def sys_def same_env_def single_flags Let_def)
  next
    case False
    with assms d d0 show ?thesis
      by (auto simp: SIPLeelen_init_def on_net_def sys_def same_env_def Let_def split: if_splits)
  qed
qed

lemma device_connect_result:
  assumes "SIPLeelen_connect y s = (r, y', s')"
  shows "r \<in> {0, 1, 2, 4} \<and> ((\<forall>i. w_ok (s_net s) i) \<longrightarrow> r = 0) \<and>
    (r = 0 \<longrightarrow> 0 \<le> s_socket_leelen s' \<and> 0 \<le> s_socket_sip s' \<and> s_sessions s' = s_sessions s \<and> s_heap s' = s_heap s)"
proof -
  obtain r0 y0 w0 where d: "LeelenDiscovery_connect y (s_net s) = (r0, y0, w0)" by (metis prod_cases3)
  note d0 = connect_result [OF d]
  let ?s0 = "s\<lparr>s_net := w0\<rparr>"
  obtain r1 s1 where c: "connect_leelen_socket ?s0 = (r1, s1)" by (metis surj_pair)
  note c1 = connect_leelen_socket_result [OF c]
  obtain r2 s2 where e: "connect_sip_socket s1 = (r2, s2)" by (metis surj_pair)
  note e2 = connect_sip_socket_result [OF e]
  have keep: "s_sessions s1 = s_sessions s" "s_heap s1 = s_heap s" "s_sessions s2 = s_sessions s1" "s_heap s2 = s_heap s1"
    "s_socket_leelen s2 = s_socket_leelen s1"
    using arg_cong [OF conjunct1 [OF c1], of s_sessions] arg_cong [OF conjunct1 [OF c1], of s_heap]
      arg_cong [OF conjunct1 [OF e2], of s_sessions] arg_cong [OF conjunct1 [OF e2], of s_heap]
      arg_cong [OF conjunct1 [OF e2], of s_socket_leelen]
    by simp_all
  have env: "same_env (s_net s) w0" "same_env w0 (s_net s1)" using d0 c1 by simp_all
  consider "r0 \<noteq> 0" | "r0 = 0" "r1 \<noteq> 0" | "r0 = 0" "r1 = 0" by blast
  then show ?thesis
  proof cases
    case 1
    with assms d d0 show ?thesis by (auto simp: SIPLeelen_connect_def)
  next
    case 2
    with assms d c have "r = r1" "y' = y0" "s' = s1" by (simp_all add: SIPLeelen_connect_def)
    with 2 c1 env show ?thesis by (auto simp: same_env_def)
  next
    case 3
    with assms d c e have "r = r2" "y' = y0" "s' = s2" by (simp_all add: SIPLeelen_connect_def)
    with 3 c1 e2 env keep show ?thesis by (auto simp: same_env_def)
  qed
qed

section \<open>Properties\<close>

text \<open>C25. Setting up the device: \<open>SIPLeelen_init\<close> fails with \<open>- 1\<close> or leaves a stopped device without sockets and sessions,
  which is a state that the lifetime of sessions starts from when the heap is empty; running or
  starting it is refused with 255 until \<open>SIPLeelen_connect\<close> has opened both sockets.\<close>

theorem SIPLeelen_init_connect:
  assumes "SIPLeelen_init plib config y s = (r, y1, s1)"
    and "SIPLeelen_connect y1 s1 = (r', y2, s2)"
  shows "(r = 0 \<or> r = - 1) \<and> ((\<forall>i. w_ok (s_net s) i) \<longrightarrow> r = 0) \<and>
    (r = 0 \<longrightarrow>
      s_state s1 = SINGLE_STOPPED \<and> y_state y1 = SINGLE_STOPPED \<and> s_config s1 = config \<and> poll_fds y1 = [] \<and>
      (s_heap s = Map.empty \<and> s_trs s = Map.empty \<and> s_threads s = [] \<longrightarrow> registry_initial s1) \<and>
      SIPLeelen_run lib stack fuel seen seen' turns y1 s1 = Some (255, y1, s1) \<and>
      SIPLeelen_start seen seen' y1 s1 = Some (255, y1, s1) \<and>
      r' \<in> {0, 1, 2, 4} \<and> ((\<forall>i. w_ok (s_net s) i) \<longrightarrow> r' = 0) \<and>
      (r' = 0 \<longrightarrow> 0 \<le> s_socket_leelen s2 \<and> 0 \<le> s_socket_sip s2 \<and> s_sessions s2 = s_sessions s1 \<and> s_heap s2 = s_heap s1))"
proof -
  note i = device_init_result [OF assms(1)] and c = device_connect_result [OF assms(2)]
  have ok: "(\<forall>i. w_ok (s_net s1) i) = (\<forall>i. w_ok (s_net s) i)" using i by (simp add: same_env_def)
  have "start_discovery seen y1 s1 = Some (255, y1, s1)" if "r = 0"
    using i that by (simp add: start_discovery_def)
  then have refused: "SIPLeelen_run lib stack fuel seen seen' turns y1 s1 = Some (255, y1, s1)"
    "SIPLeelen_start seen seen' y1 s1 = Some (255, y1, s1)" if "r = 0"
    using that by (simp_all add: SIPLeelen_run_def SIPLeelen_start_def)
  have init: "registry_initial s1" if "r = 0" "s_heap s = Map.empty" "s_trs s = Map.empty" "s_threads s = []"
    using i that by (simp add: registry_initial_def)
  have "r' \<in> {0, 1, 2, 4}" and
    "(\<forall>i. w_ok (s_net s) i) \<longrightarrow> r' = 0" and
    "r' = 0 \<longrightarrow> 0 \<le> s_socket_leelen s2 \<and> 0 \<le> s_socket_sip s2 \<and> s_sessions s2 = s_sessions s1 \<and> s_heap s2 = s_heap s1"
    using c ok by blast+
  with i refused init show ?thesis by blast
qed

theorem SIPLeelen_init_connect_witness:
  "case SIPLeelen_init sample_print_lib fixed_config running_discovery empty_device of (r, y1, s1) \<Rightarrow>
     r = 0 \<and> registry_initial s1 \<and> fst (SIPLeelen_connect y1 s1) = 0"
proof -
  obtain r y1 s1 where i: "SIPLeelen_init sample_print_lib fixed_config running_discovery empty_device = (r, y1, s1)"
    by (metis prod_cases3)
  obtain r' y2 s2 where c: "SIPLeelen_connect y1 s1 = (r', y2, s2)" by (metis prod_cases3)
  have "\<forall>i. w_ok (s_net empty_device) i" by simp
  with SIPLeelen_init_connect [OF i c, of sample_lib "dialog_message sample_dialog LEELEN_CODE_BYE" 0 "[]" "[]" "[]"] i c show ?thesis
    by simp
qed

end
