(* ===== verification/Program.thy ===== *)
theory Program
  imports Device
begin

text \<open>
  \<^verbatim>\<open>utils/arg.h\<close>, \<^verbatim>\<open>utils/arg.c\<close>, \<^verbatim>\<open>leelen2sip.h\<close> and \<^verbatim>\<open>leelen2sip.c\<close>: the command line and the
  program.

  \<open>getopt_long\<close> is the list of what it returns, the index of an option and its argument; a letter
  is its character code. \<open>regcomp\<close> is a parameter: does the expression compile? Messages to the user
  are left out. \<open>None\<close> is a use of memory that is not there.
\<close>

section \<open>arg.c\<close>

text \<open>The result of \<open>strtol\<close> is stored in an \<open>int\<close> of 32 bits.\<close>

definition argtoi :: "char list \<Rightarrow> int \<Rightarrow> int \<Rightarrow> int \<times> int" where
  "argtoi s least greatest =
     (let (n, rest) = strtol s; res = sint (word_of_int n :: u32)
      in (if rest = [] \<and> least \<le> res \<and> res \<le> greatest then 0 else 1, res))"

definition argtoport :: "char list \<Rightarrow> bool \<Rightarrow> bool \<Rightarrow> int \<times> u16" where
  "argtoport s allow_unspec network_endian =
     (let (ret, port) = argtoi s (if allow_unspec then 0 else 1) 65535
      in (ret, if network_endian then htons (word_of_int port) else word_of_int port))"

text \<open>The address in \<open>in46i_addr\<close> is a union; it holds the index of an interface or an address.\<close>

definition argtoifaceip :: "inet_lib \<Rightarrow> char list \<Rightarrow> int \<times> (u32 + address)" where
  "argtoifaceip lib s =
     (let addr = inet_aton46i lib s in (if addr = Inr NoAddr then 1 else 0, addr))"

definition argtosockaddr :: "inet_lib \<Rightarrow> char list \<Rightarrow> sockaddr_in46 \<Rightarrow> (af \<times> sockaddr_in46) option" where
  "argtosockaddr lib s addr = sockaddr46_aton lib s addr"

section \<open>Options\<close>

record main_flags =
  o_daemonize :: bool
  o_use_v6 :: bool
  o_n_positional :: nat
  o_discovery_listen_set :: bool
  o_voip_listen_set :: bool
  o_control_listen_set :: bool

definition no_flags :: main_flags where
  "no_flags = \<lparr>o_daemonize = False, o_use_v6 = False, o_n_positional = 0, o_discovery_listen_set = False,
     o_voip_listen_set = False, o_control_listen_set = False\<rparr>"

type_synonym 'x main_state = "main_flags \<times> LeelenDiscovery \<times> 'x device"

definition EXIT_SUCCESS :: int where "EXIT_SUCCESS = 0"
definition EXIT_FAILURE :: int where "EXIT_FAILURE = 1"
definition LEELEN2SIP_USER_AGENT :: "char list" where "LEELEN2SIP_USER_AGENT = ''LEELEN2SIP/0.0''"
definition LEELEN2SIP_DEVICE_DESC :: "char list" where "LEELEN2SIP_DEVICE_DESC = ''AK01-FJV31001-V0.01-V11.38_20180410''"

definition set_config :: "(LeelenConfig \<Rightarrow> LeelenConfig) \<Rightarrow> 'x device \<Rightarrow> 'x device" where
  "set_config f s = s\<lparr>s_config := f (s_config s)\<rparr>"

text \<open>A positional argument: the phone number, then the interface for LEELEN.\<close>

definition positional :: "inet_lib \<Rightarrow> char list \<Rightarrow> 'x main_state \<Rightarrow> (int + 'x main_state) option" where
  "positional lib optarg = (\<lambda>(o1, y, s).
     if o_n_positional o1 = 0 then
       (case LeelenNumber_init (c_number (s_config s)) optarg None of
          Inl e \<Rightarrow> Some (Inl EXIT_FAILURE)
        | Inr number \<Rightarrow> Some (Inr (o1\<lparr>o_n_positional := 1\<rparr>, y, set_config (c_number_update (\<lambda>_. number)) s)))
     else if o_n_positional o1 = 1 then
       (case argtosockaddr lib optarg (c_addr (s_config s)) of
          None \<Rightarrow> None
        | Some (f, addr) \<Rightarrow>
            if f = AF_UNSPEC then Some (Inl EXIT_FAILURE)
            else Some (Inr (o1\<lparr>o_n_positional := 2\<rparr>, y, set_config (c_addr_update (\<lambda>_. addr\<lparr>sa_family := f\<rparr>)) s)))
     else Some (Inl EXIT_FAILURE))"

text \<open>The options 514 to 521, which take a port.\<close>

definition port_option :: "int \<Rightarrow> u16 \<Rightarrow> main_flags \<Rightarrow> LeelenConfig \<Rightarrow> main_flags \<times> LeelenConfig" where
  "port_option index port o1 config =
     (if index = 514 then (o1, config\<lparr>c_audio := port\<rparr>)
      else if index = 515 then (o1, config\<lparr>c_video := port\<rparr>)
      else if index = 516 then
        (o1, config\<lparr>c_discovery := port, c_discovery_src := (if o_discovery_listen_set o1 then c_discovery_src config else port)\<rparr>)
      else if index = 519 then (o1\<lparr>o_discovery_listen_set := True\<rparr>, config\<lparr>c_discovery_src := port\<rparr>)
      else if index = 517 then
        (o1, config\<lparr>c_voip := port, c_voip_src := (if o_voip_listen_set o1 then c_voip_src config else port)\<rparr>)
      else if index = 520 then (o1\<lparr>o_voip_listen_set := True\<rparr>, config\<lparr>c_voip_src := port\<rparr>)
      else if index = 518 then
        (o1, config\<lparr>c_control := port, c_control_src := (if o_control_listen_set o1 then c_control_src config else port)\<rparr>)
      else (o1\<lparr>o_control_listen_set := True\<rparr>, config\<lparr>c_control_src := port\<rparr>))"

text \<open>\<open>strdup\<close> into a field.\<close>

definition strdup_to :: "(char list \<Rightarrow> 'x device \<Rightarrow> 'x device) \<Rightarrow> char list \<Rightarrow> main_flags \<Rightarrow> LeelenDiscovery \<Rightarrow> 'x device \<Rightarrow> int + 'x main_state" where
  "strdup_to f str o1 y s =
     (let (ok, s) = on_net sys s in if ok then Inr (o1, y, f str s) else Inl EXIT_FAILURE)"

abbreviation "OPT_INTERFACE \<equiv> (105 :: int)"
abbreviation "OPT_PORT \<equiv> (112 :: int)"
abbreviation "OPT_DAEMONIZE \<equiv> (68 :: int)"
abbreviation "OPT_DEBUG \<equiv> (100 :: int)"
abbreviation "OPT_IPV6 \<equiv> (54 :: int)"
abbreviation "OPT_HELP \<equiv> (104 :: int)"

definition main_option ::
  "inet_lib \<Rightarrow> (char list \<Rightarrow> bool) \<Rightarrow> int \<Rightarrow> char list \<Rightarrow> 'x main_state \<Rightarrow> (int + 'x main_state) option" where
  "main_option lib regcomp index optarg = (\<lambda>(o1, y, s).
     if index = 1 then positional lib optarg (o1, y, s)
     else if index = OPT_INTERFACE then
       (if sa_family (s_addr s) \<noteq> AF_UNSPEC then Some (Inl EXIT_FAILURE)
        else case argtosockaddr lib optarg (s_addr s) of
               None \<Rightarrow> None
             | Some (f, addr) \<Rightarrow>
                 if \<not> f = AF_UNSPEC then Some (Inl EXIT_FAILURE) else Some (Inr (o1, y, s\<lparr>s_addr := addr\<rparr>)))
     else if index = OPT_PORT then
       (let (r, port) = argtoport optarg False True in
        Some (if r \<noteq> 0 then Inl EXIT_FAILURE else Inr (o1, y, s\<lparr>s_addr := (s_addr s)\<lparr>sa_port := port\<rparr>\<rparr>)))
     else if index = OPT_DAEMONIZE then Some (Inr (o1\<lparr>o_daemonize := True\<rparr>, y, s))
     else if index = OPT_DEBUG then Some (Inr (o1, y, s))
     else if index = OPT_IPV6 then Some (Inr (o1\<lparr>o_use_v6 := True\<rparr>, y, s))
     else if index = OPT_HELP then Some (Inl EXIT_SUCCESS)
     else if index = 256 then
       Some (if \<not> length optarg < INET6_ADDRSTRLEN - 1 then Inl EXIT_FAILURE
             else Inr (o1, y\<lparr>y_adv := (y_adv y)\<lparr>a_report := optarg\<rparr>\<rparr>, s))
     else if index = 257 then Some (strdup_to (\<lambda>str s. s\<lparr>s_ua := Some str\<rparr>) optarg o1 y s)
     else if index = 258 then
       Some (if \<not> regcomp optarg then Inl EXIT_FAILURE else Inr (o1, y\<lparr>y_adv := (y_adv y)\<lparr>a_regex := Some optarg\<rparr>\<rparr>, s))
     else if index = 512 then
       Some (if c_desc (s_config s) \<noteq> None then Inl EXIT_FAILURE
             else strdup_to (\<lambda>str. set_config (c_desc_update (\<lambda>_. Some str))) optarg o1 y s)
     else if index = 513 then
       (let (r, type) = argtoi optarg 1 127 in
        Some (if r \<noteq> 0 then Inl EXIT_FAILURE else Inr (o1, y, set_config (c_type_update (\<lambda>_. word_of_int type)) s)))
     else if 514 \<le> index \<and> index \<le> 521 then
       (let (r, port) = argtoport optarg False False in
        Some (if r \<noteq> 0 then Inl EXIT_FAILURE
              else let (o1, config) = port_option index port o1 (s_config s) in Inr (o1, y, set_config (\<lambda>_. config) s)))
     else Some (Inl EXIT_FAILURE))"

fun main_options ::
  "inet_lib \<Rightarrow> (char list \<Rightarrow> bool) \<Rightarrow> (int \<times> char list) list \<Rightarrow> 'x main_state \<Rightarrow> (int + 'x main_state) option" where
  "main_options lib regcomp [] st = Some (Inr st)"
| "main_options lib regcomp ((index, optarg) # opts) st =
     (case main_option lib regcomp index optarg st of
        Some (Inr st) \<Rightarrow> main_options lib regcomp opts st
      | r \<Rightarrow> r)"

text \<open>What follows the options: the number is required, and the defaults.\<close>

definition main_defaults :: "'x main_state \<Rightarrow> int + 'x main_state" where
  "main_defaults = (\<lambda>(o1, y, s).
     if at (number_bytes (c_number (s_config s))) 0 = NUL then Inl EXIT_FAILURE
     else
       case (if c_desc (s_config s) = None
             then strdup_to (\<lambda>str. set_config (c_desc_update (\<lambda>_. Some str))) LEELEN2SIP_DEVICE_DESC o1 y s
             else Inr (o1, y, s)) of
         Inl e \<Rightarrow> Inl e
       | Inr (o1, y, s) \<Rightarrow>
           (case (if s_ua s = None then strdup_to (\<lambda>str s. s\<lparr>s_ua := Some str\<rparr>) LEELEN2SIP_USER_AGENT o1 y s
                  else Inr (o1, y, s)) of
              Inl e \<Rightarrow> Inl e
            | Inr (o1, y, s) \<Rightarrow>
                let s = (if sa_family (s_addr s) \<noteq> AF_INET then s\<lparr>s_addr := (s_addr s)\<lparr>sa_family := AF_INET6\<rparr>\<rparr> else s);
                    family = sa_family (c_addr (s_config s));
                    family = (if family = AF_LOCAL then (if o_use_v6 o1 then AF_INET6 else AF_INET) else family)
                in Inr (o1, y, set_config (c_addr_update (sa_family_update (\<lambda>_. family))) s)))"

section \<open>Starting\<close>

definition config_ports :: "LeelenConfig \<Rightarrow> u16 list" where
  "config_ports config = [c_discovery_src config, c_voip_src config, c_control_src config]"

definition ports_conflict :: "LeelenConfig \<Rightarrow> bool" where
  "ports_conflict config =
     (\<exists>i \<in> set [0..<3]. \<exists>j \<in> set [0..<i]. config_ports config ! i = config_ports config ! j)"

text \<open>\<open>junk\<close> is what the two local addresses hold: \<open>in64_set\<close> leaves them as they are for another family.\<close>

definition sip_port_conflict :: "in6_addr \<times> in6_addr \<Rightarrow> LeelenConfig \<Rightarrow> sockaddr_in46 \<Rightarrow> bool" where
  "sip_port_conflict junk config sip_addr =
     (let sip_port = ntohs (sa_port sip_addr) in
      (c_discovery config = sip_port \<or> c_control config = sip_port) \<and>
      (let leelen_host = snd (in64_set (sa_family (c_addr config)) (fst junk) (sockaddr_addr (c_addr config)));
           sip_host = snd (in64_set (sa_family sip_addr) (snd junk) (sockaddr_addr sip_addr))
       in (IN64_IS_ADDR_UNSPECIFIED leelen_host \<and> IN64_IS_ADDR_UNSPECIFIED sip_host \<or> leelen_host = sip_host) \<and>
          sa_scope_id sip_addr = sa_scope_id (c_addr config)))"

text \<open>What the program runs on: the libraries, the arguments of the loop, and the turns.\<close>

record 'x program_env =
  g_lib :: "'x osip_lib"
  g_print :: print_lib
  g_regcomp :: "char list \<Rightarrow> bool"
  g_junk :: "in6_addr \<times> in6_addr"
  g_stack :: LeelenMessage
  g_fuel :: nat
  g_seen :: "int list \<times> int list"
  g_turns :: "(int \<times> packets) list"

text \<open>The report address is set again from the configuration, then once more when it is empty.\<close>

definition start_sync :: "print_lib \<Rightarrow> LeelenConfig \<Rightarrow> LeelenDiscovery \<Rightarrow> LeelenDiscovery" where
  "start_sync lib config y = snd (LeelenDiscovery_sync lib config y)"

definition start_report :: "print_lib \<Rightarrow> LeelenConfig \<Rightarrow> LeelenDiscovery \<Rightarrow> LeelenDiscovery" where
  "start_report lib config y =
     (if a_report (y_adv y) = [] then y\<lparr>y_adv := snd (LeelenAdvertiser_sync lib config (y_adv y))\<rparr> else y)"

definition start_leelen2sip ::
  "'x program_env \<Rightarrow> bool \<Rightarrow> LeelenDiscovery \<Rightarrow> 'x device \<Rightarrow> (int \<times> LeelenDiscovery \<times> 'x device) option" where
  "start_leelen2sip env daemonize y s =
     (if ports_conflict (s_config s) \<or> sip_port_conflict (g_junk env) (s_config s) (s_addr s) then Some (255, y, s)
      else
        let y = start_sync (g_print env) (s_config s) y;
            (res, y, s) = SIPLeelen_connect y s
        in if res \<noteq> 0 then Some (- 1, y, s)
           else
             let y = start_report (g_print env) (s_config s) y;
                 (ok, s) = (if daemonize then on_net sys s else (True, s))
             in if \<not> ok then Some (- 1, y, s)
                else
                  let (_, s) = on_net sys_time s in
                  case SIPLeelen_run (g_lib env) (g_stack env) (g_fuel env) (fst (g_seen env)) (snd (g_seen env)) (g_turns env) y s of
                    None \<Rightarrow> None
                  | Some (r, y, s) \<Rightarrow>
                      if r \<noteq> 0 then Some (- 1, y, s)
                      else Some (0, y, s\<lparr>s_state := (if single_is_running (s_state s) then single_stop (s_state s) else s_state s)\<rparr>))"

text \<open>The program, on a device and a configuration that are not initialised: the exit code and the descriptors that are
  closed at the end. \<open>argc\<close> counts the program name.\<close>

definition leelen2sip_main ::
  "'x program_env \<Rightarrow> nat \<Rightarrow> (int \<times> char list) list \<Rightarrow> LeelenDiscovery \<Rightarrow> 'x device \<Rightarrow> (int \<times> int list) option" where
  "leelen2sip_main env argc opts y s =
     (if \<not> 1 < argc then Some (EXIT_FAILURE, [])
      else
        let config = snd (LeelenConfig_init (s_config s));
            (r, y, s) = SIPLeelen_init (g_print env) config y s
        in if r \<noteq> 0 then Some (EXIT_FAILURE, [])
           else
             let s = s\<lparr>s_addr := (s_addr s)\<lparr>sa_family := AF_UNSPEC\<rparr>\<rparr> in
             case main_options (lib_inet (g_lib env)) (g_regcomp env) opts (no_flags, y, s) of
               None \<Rightarrow> None
             | Some (Inl code) \<Rightarrow> map_option (Pair code) (SIPLeelen_destroy [] [] y s)
             | Some (Inr st) \<Rightarrow>
                 (case main_defaults st of
                    Inl code \<Rightarrow> map_option (Pair code) (SIPLeelen_destroy [] [] (fst (snd st)) (snd (snd st)))
                  | Inr (o1, y, s) \<Rightarrow>
                      (case start_leelen2sip env (o_daemonize o1) y s of
                         None \<Rightarrow> None
                       | Some (r, y, s) \<Rightarrow>
                           map_option (Pair (if r = 0 then EXIT_SUCCESS else EXIT_FAILURE))
                             (SIPLeelen_destroy (fst (g_seen env)) (snd (g_seen env)) y s))))"

text \<open>The handler of \<^verbatim>\<open>SIGINT\<close>. It may run between any two steps of the device.\<close>

definition shutdown_leelen2sip :: "'x device \<Rightarrow> 'x device" where
  "shutdown_leelen2sip s =
     (if single_is_running (s_state s) then s\<lparr>s_state := single_stop (s_state s)\<rparr> else s)"

section \<open>Lemmas\<close>

lemma int_port_word: "sint (ucast (p :: u16) :: u32) = uint p"
proof -
  have u: "- 2147483648 \<le> uint p" "uint p < 65536"
    using unsigned_less [of p, where ?'a = int] unsigned_greater_eq [of p, where ?'a = int] by (simp, linarith, simp)
  have "signed_take_bit 31 (uint p) = uint p"
    by (intro signed_take_bit_int_eq_self) (use u in simp_all)
  moreover have "sint (word_of_int n :: u32) = signed_take_bit 31 n" for n
    using sint_sbintrunc' [of n, where ?'a = 32] by simp
  moreover have "ucast p = (word_of_int (uint p) :: u32)" by simp
  ultimately show ?thesis by (simp only:)
qed

lemma argtoport_showd:
  "argtoport (showd (unat p)) allow net = (if p = 0 \<and> \<not> allow then 1 else 0, if net then htons p else p)"
proof -
  have u: "unat p < 65536" using unsigned_less [of p, where ?'a = nat] by simp
  then have "int (unat p) \<le> int 65535" by (simp only: of_nat_le_iff)
  moreover have "int 65535 \<le> LONG_MAX" by (simp add: LONG_MAX_def)
  ultimately have n: "strtol (showd (unat p)) = (int (unat p), [])"
    by (intro strtol_showd_end) linarith
  have "uint p < 65536" "0 \<le> uint p" "uint p = 0 \<longleftrightarrow> p = 0"
    using unsigned_less [of p, where ?'a = int] uint_0_iff by simp_all
  then have "uint p \<le> 65535" "1 \<le> uint p \<longleftrightarrow> p \<noteq> 0" by linarith+
  then show ?thesis
    by (auto simp: argtoport_def argtoi_def n int_port_word Let_def)
qed

text \<open>The ports of the command line: the last port of an option, if it was given.\<close>

definition given_port :: "(int \<times> u16) list \<Rightarrow> int \<Rightarrow> u16 option" where
  "given_port opts index = map_of (rev opts) index"

lemma given_port_Cons:
  "given_port ((i, p) # opts) index = (case given_port opts index of Some q \<Rightarrow> Some q | None \<Rightarrow> if i = index then Some p else None)"
  by (auto simp: given_port_def map_add_def split: option.splits)

definition port_or :: "(int \<times> u16) list \<Rightarrow> int \<Rightarrow> u16 \<Rightarrow> u16" where
  "port_or opts index d = (case given_port opts index of Some p \<Rightarrow> p | None \<Rightarrow> d)"

text \<open>The reference: the ports that a command line means. A listening port follows the port of the same service
  unless it is given itself.\<close>

definition listen_or :: "bool \<Rightarrow> (int \<times> u16) list \<Rightarrow> int \<Rightarrow> int \<Rightarrow> u16 \<Rightarrow> u16" where
  "listen_or was_set opts listen service d = port_or opts listen (if was_set then d else port_or opts service d)"

definition meant_ports :: "main_flags \<Rightarrow> (int \<times> u16) list \<Rightarrow> LeelenConfig \<Rightarrow> LeelenConfig" where
  "meant_ports o1 opts config = config\<lparr>
     c_discovery := port_or opts 516 (c_discovery config), c_voip := port_or opts 517 (c_voip config),
     c_control := port_or opts 518 (c_control config),
     c_discovery_src := listen_or (o_discovery_listen_set o1) opts 519 516 (c_discovery_src config),
     c_voip_src := listen_or (o_voip_listen_set o1) opts 520 517 (c_voip_src config),
     c_control_src := listen_or (o_control_listen_set o1) opts 521 518 (c_control_src config),
     c_audio := port_or opts 514 (c_audio config), c_video := port_or opts 515 (c_video config)\<rparr>"

lemma port_or_Cons: "port_or ((i, p) # opts) index d = port_or opts index (if i = index then p else d)"
  by (auto simp: port_or_def given_port_Cons split: option.splits)

lemma meant_ports_Cons:
  assumes "514 \<le> i" and "i \<le> 521" and "port_option i p o1 config = (o2, config')"
  shows "meant_ports o1 ((i, p) # opts) config = meant_ports o2 opts config'"
proof -
  have "i \<in> {514, 515, 516, 517, 518, 519, 520, 521}" using assms(1,2) by auto
  with assms(3) [symmetric] show ?thesis
    by (elim insertE emptyE) (simp_all add: port_option_def meant_ports_def listen_or_def port_or_Cons)
qed

lemma meant_ports_nil: "meant_ports o1 [] config = config"
  by (simp add: meant_ports_def listen_or_def port_or_def given_port_def)

lemma main_options_ports:
  assumes "\<forall>(i, p) \<in> set opts. 514 \<le> i \<and> i \<le> 521 \<and> p \<noteq> 0"
  shows "\<exists>o2. main_options lib regcomp (map (\<lambda>(i, p). (i, showd (unat p))) opts) (o1, y, s) =
    Some (Inr (o2, y, s\<lparr>s_config := meant_ports o1 opts (s_config s)\<rparr>))"
  using assms
proof (induction opts arbitrary: o1 s)
  case Nil
  then show ?case by (simp add: meant_ports_nil)
next
  case (Cons x opts)
  obtain i p where x: "x = (i, p)" by (cases x)
  with Cons.prems have i: "514 \<le> i" "i \<le> 521" and p: "p \<noteq> 0" by auto
  obtain o2 config where o2: "port_option i p o1 (s_config s) = (o2, config)" by (metis surj_pair)
  have "main_option lib regcomp i (showd (unat p)) (o1, y, s) = Some (Inr (o2, y, set_config (\<lambda>_. config) s))"
    using i p o2 by (simp add: main_option_def argtoport_showd)
  moreover have "\<exists>o3. main_options lib regcomp (map (\<lambda>(i, p). (i, showd (unat p))) opts) (o2, y, set_config (\<lambda>_. config) s) =
      Some (Inr (o3, y, (set_config (\<lambda>_. config) s)\<lparr>s_config := meant_ports o2 opts config\<rparr>))"
    using Cons.IH [of o2 "set_config (\<lambda>_. config) s"] Cons.prems x by (simp add: set_config_def)
  ultimately show ?case
    using meant_ports_Cons [OF i o2, of opts] x by (auto simp: set_config_def)
qed

text \<open>After the signal the loop handles no packet any more, and its flag says that it has stopped.\<close>

lemma shutdown_ends_loop:
  assumes "s_state s = SINGLE_RUNNING" and "t mod 8 \<noteq> 0"
  shows "SIPLeelen_mainloop lib stack fuel seen t (turn # turns) (shutdown_leelen2sip s) = Some (s\<lparr>s_state := SINGLE_STOPPED\<rparr>)"
    and "shutdown_leelen2sip (shutdown_leelen2sip s) = shutdown_leelen2sip s"
  using assms
  by (cases turn) (simp_all add: shutdown_leelen2sip_def SIPLeelen_turn_def single_continue_def single_is_running_def
      single_stop_def single_finish_def single_flags)

section \<open>Properties\<close>

text \<open>C19. The port options mean what the help says, in any order: whatever sequence of them the command line has, the
  configuration afterwards has the last port given for each service, and listens on the last port given for
  listening, or else on the port of the service, also when the listening option came first.\<close>

theorem port_options_meaning:
  assumes "\<forall>(i, p) \<in> set opts. 514 \<le> i \<and> i \<le> 521 \<and> p \<noteq> 0"
  shows "\<exists>o1. main_options lib regcomp (map (\<lambda>(i, p). (i, showd (unat p))) opts) (no_flags, y, s) =
    Some (Inr (o1, y, s\<lparr>s_config := meant_ports no_flags opts (s_config s)\<rparr>))"
  using assms by (rule main_options_ports)

theorem port_options_meaning_witness:
  "\<exists>o1. main_options sample_inet_lib (\<lambda>_. True) [(519, showd 7000), (516, showd 6000)] (no_flags, running_discovery, empty_device) =
     Some (Inr (o1, running_discovery, empty_device\<lparr>s_config := (s_config empty_device)\<lparr>c_discovery := 6000, c_discovery_src := 7000\<rparr>\<rparr>))"
  using port_options_meaning [of "[(519, 7000), (516, 6000)]" sample_inet_lib "\<lambda>_. True" running_discovery empty_device]
  by (simp add: meant_ports_def listen_or_def port_or_def given_port_def no_flags_def)

text \<open>The option for the SIP interface is inverted: an address or interface that can be parsed ends the program, and only one
  that cannot be parsed is accepted, without effect.\<close>

theorem interface_option_inverted:
  assumes "sa_family (s_addr s) = AF_UNSPEC" and "argtosockaddr lib optarg (s_addr s) = Some (f, addr)"
  shows "main_option lib regcomp OPT_INTERFACE optarg (o1, y, s) =
    Some (if f = AF_UNSPEC then Inr (o1, y, s\<lparr>s_addr := addr\<rparr>) else Inl EXIT_FAILURE)"
  using assms by (simp add: main_option_def)


definition sample_program :: "event_log program_env" where
  "sample_program = \<lparr>g_lib = sample_lib, g_print = sample_print_lib, g_regcomp = (\<lambda>_. True), g_junk = (in6addr_any, in6addr_any),
     g_stack = dialog_message sample_dialog LEELEN_CODE_BYE, g_fuel = 0, g_seen = ([], []), g_turns = []\<rparr>"


text \<open>Numbers wrap before they are checked: a port is accepted together with 4294967296 more.\<close>

theorem argtoi_wraps: "argtoi (showd (4294967296 + unat (p :: u16))) least greatest = argtoi (showd (unat p)) least greatest"
proof -
  have "unat p < 65536" using unsigned_less [of p, where ?'a = nat] by simp
  then have "int (4294967296 + unat p) \<le> int 4295032832" "int (unat p) \<le> int 4295032832" by (simp_all only: of_nat_le_iff)
  moreover have "int 4295032832 \<le> LONG_MAX" by (simp add: LONG_MAX_def)
  ultimately have "strtol (showd (4294967296 + unat p)) = (int (4294967296 + unat p), [])" "strtol (showd (unat p)) = (int (unat p), [])"
    by (intro strtol_showd_end; linarith)+
  moreover have "word_of_int (int (4294967296 + unat p)) = (word_of_int (int (unat p)) :: u32)"
    by (simp only: word_of_int_eq_iff) (simp add: take_bit_eq_mod del: int_nat_eq)
  ultimately show ?thesis by (simp only: argtoi_def prod.case Let_def)
qed

end
