(* ===== verification/Callbacks.thy ===== *)
theory Callbacks
  imports Safety
begin

text \<open>
  The callbacks that the device registers with the stack: the tables of \<^verbatim>\<open>SIPLeelen_set_uax_callbacks\<close>
  (\<^verbatim>\<open>sipleelen/transaction.c\<close>), \<^verbatim>\<open>SIPLeelen_set_uas_callbacks\<close> (\<^verbatim>\<open>sipleelen/uas.c\<close>) and
  \<^verbatim>\<open>SIPLeelen_set_uac_callbacks\<close> (\<^verbatim>\<open>sipleelen/uac.c\<close>), and what they do when the stack calls them.

  The other theories ask of a stack that running a transaction leaves the references of sessions covered
  (\<open>stack_safe\<close>). Here this is proved of every stack that does so by calling what is registered, to any depth of nesting.
\<close>

section \<open>The tables\<close>

datatype message_event =
  OSIP_ICT_STATUS_1XX_RECEIVED | OSIP_ICT_STATUS_2XX_RECEIVED | OSIP_ICT_STATUS_2XX_RECEIVED_AGAIN
  | OSIP_ICT_STATUS_3XX_RECEIVED | OSIP_ICT_STATUS_4XX_RECEIVED | OSIP_ICT_STATUS_5XX_RECEIVED
  | OSIP_ICT_STATUS_6XX_RECEIVED | OSIP_ICT_STATUS_3456XX_RECEIVED_AGAIN
  | OSIP_IST_INVITE_RECEIVED | OSIP_IST_INVITE_RECEIVED_AGAIN | NistReceived nist_type

datatype kill_event =
  OSIP_ICT_KILL_TRANSACTION | OSIP_IST_KILL_TRANSACTION | OSIP_NICT_KILL_TRANSACTION | OSIP_NIST_KILL_TRANSACTION

text \<open>The functions of the program that are registered.\<close>

datatype message_callback = Ict_connect | Ict_terminate | Ist_invite | Nist_bye | Register

datatype kill_callback = Kill_transaction

record callbacks =
  cb_message :: "message_event \<Rightarrow> message_callback option"
  cb_kill :: "kill_event \<Rightarrow> kill_callback option"

definition no_callbacks :: callbacks where
  "no_callbacks = \<lparr>cb_message = Map.empty, cb_kill = Map.empty\<rparr>"

definition osip_set_message_callback :: "message_event \<Rightarrow> message_callback \<Rightarrow> callbacks \<Rightarrow> callbacks" where
  "osip_set_message_callback ev f cb = cb\<lparr>cb_message := (cb_message cb)(ev \<mapsto> f)\<rparr>"

definition osip_set_kill_transaction_callback :: "kill_event \<Rightarrow> kill_callback \<Rightarrow> callbacks \<Rightarrow> callbacks" where
  "osip_set_kill_transaction_callback ev f cb = cb\<lparr>cb_kill := (cb_kill cb)(ev \<mapsto> f)\<rparr>"

definition SIPLeelen_set_uax_callbacks :: "callbacks \<Rightarrow> callbacks" where
  "SIPLeelen_set_uax_callbacks cb =
     fold (\<lambda>ev. osip_set_kill_transaction_callback ev Kill_transaction)
       [OSIP_ICT_KILL_TRANSACTION, OSIP_IST_KILL_TRANSACTION, OSIP_NICT_KILL_TRANSACTION, OSIP_NIST_KILL_TRANSACTION] cb"

definition SIPLeelen_set_uas_callbacks :: "callbacks \<Rightarrow> callbacks" where
  "SIPLeelen_set_uas_callbacks cb =
     fold (\<lambda>(ev, f). osip_set_message_callback ev f)
       [(NistReceived OSIP_NIST_REGISTER, Register), (NistReceived OSIP_NIST_OPTIONS, Register),
        (OSIP_IST_INVITE_RECEIVED, Ist_invite), (OSIP_IST_INVITE_RECEIVED_AGAIN, Ist_invite),
        (NistReceived OSIP_NIST_BYE, Nist_bye), (NistReceived OSIP_NIST_CANCEL, Nist_bye)] cb"

definition SIPLeelen_set_uac_callbacks :: "callbacks \<Rightarrow> callbacks" where
  "SIPLeelen_set_uac_callbacks cb =
     fold (\<lambda>(ev, f). osip_set_message_callback ev f)
       [(OSIP_ICT_STATUS_1XX_RECEIVED, Ict_connect), (OSIP_ICT_STATUS_2XX_RECEIVED, Ict_connect),
        (OSIP_ICT_STATUS_2XX_RECEIVED_AGAIN, Ict_connect), (OSIP_ICT_STATUS_3XX_RECEIVED, Ict_terminate),
        (OSIP_ICT_STATUS_4XX_RECEIVED, Ict_terminate), (OSIP_ICT_STATUS_5XX_RECEIVED, Ict_terminate),
        (OSIP_ICT_STATUS_6XX_RECEIVED, Ict_terminate), (OSIP_ICT_STATUS_3456XX_RECEIVED_AGAIN, Ict_terminate)] cb"

text \<open>What \<^verbatim>\<open>SIPLeelen_init\<close> registers.\<close>

definition device_callbacks :: callbacks where
  "device_callbacks = SIPLeelen_set_uas_callbacks (SIPLeelen_set_uax_callbacks no_callbacks)"

section \<open>Calls\<close>

fun message_callback_run ::
  "'x osip_lib \<Rightarrow> LeelenNumber \<Rightarrow> int list \<Rightarrow> message_callback \<Rightarrow> message_event \<Rightarrow> nat \<Rightarrow> 'x device \<Rightarrow> 'x device option" where
  "message_callback_run lib stack seen Ict_connect ev tr s = SIPLeelen_ict_connect tr s"
| "message_callback_run lib stack seen Ict_terminate ev tr s = SIPLeelen_ict_terminate tr s"
| "message_callback_run lib stack seen Ist_invite ev tr s = SIPLeelen_ist_invite lib stack seen tr s"
| "message_callback_run lib stack seen Nist_bye (NistReceived type) tr s = SIPLeelen_nist_bye lib type tr s"
| "message_callback_run lib stack seen Register (NistReceived type) tr s = SIPLeelen_register lib type tr s"
| "message_callback_run lib stack seen Nist_bye ev tr s = None"
| "message_callback_run lib stack seen Register ev tr s = None"

text \<open>A call of the stack: the callback that is registered for the event, if there is one, and the function that sends a
  message, which has the address on its stack uninitialised (\<open>dst\<close>, \<open>addr\<close>).\<close>

datatype stack_call =
  Received message_event nat | Terminated kill_event nat | Send nat osip_message "char list" u16 int sockaddr_in46 in6_addr

fun stack_call_run ::
  "'x osip_lib \<Rightarrow> LeelenNumber \<Rightarrow> int list \<Rightarrow> callbacks \<Rightarrow> stack_call \<Rightarrow> 'x device \<Rightarrow> 'x device option" where
  "stack_call_run lib stack seen cb (Received ev tr) s =
     (case cb_message cb ev of None \<Rightarrow> Some s | Some f \<Rightarrow> message_callback_run lib stack seen f ev tr s)"
| "stack_call_run lib stack seen cb (Terminated ev tr) s =
     (case cb_kill cb ev of None \<Rightarrow> Some s | Some Kill_transaction \<Rightarrow> SIPLeelen_kill_transaction lib tr s)"
| "stack_call_run lib stack seen cb (Send tr m host port fd dst addr) s =
     map_option snd (SIPLeelen_send lib tr m host port fd dst addr s)"

text \<open>A stack calls back for transactions that it has, and tells of the end of one only once. The counter of the
  session does not overflow.\<close>

definition call_allowed :: "stack_call \<Rightarrow> 'x device \<Rightarrow> bool" where
  "call_allowed c s = (case c of
     Received ev tr \<Rightarrow> (case session_of s tr of None \<Rightarrow> True | Some p \<Rightarrow> no_overflow p s)
   | Terminated ev tr \<Rightarrow> (case s_trs s tr of None \<Rightarrow> False | Some x \<Rightarrow> x_active x)
   | Send _ _ _ _ _ _ _ \<Rightarrow> True)"

primrec stack_calls ::
  "'x osip_lib \<Rightarrow> LeelenNumber \<Rightarrow> int list \<Rightarrow> callbacks \<Rightarrow> stack_call list \<Rightarrow> 'x device \<Rightarrow> 'x device option" where
  "stack_calls lib stack seen cb [] s = Some s"
| "stack_calls lib stack seen cb (c # cs) s =
     (if call_allowed c s then
        (case stack_call_run lib stack seen cb c s of None \<Rightarrow> None | Some s \<Rightarrow> stack_calls lib stack seen cb cs s)
      else stack_calls lib stack seen cb cs s)"

text \<open>A stack that calls back: when a transaction runs on an event, at depth \<open>n\<close>, it makes the calls of a plan one after the other
  and then what \<open>lib\<close> does. What a callback asks the stack to run is one level deeper.\<close>

primrec calling_stack ::
  "(nat \<Rightarrow> nat \<Rightarrow> osip_event \<Rightarrow> 'x device \<Rightarrow> stack_call list) \<Rightarrow> LeelenNumber \<Rightarrow> int list \<Rightarrow> callbacks \<Rightarrow> 'x osip_lib \<Rightarrow> nat \<Rightarrow>
   'x osip_lib" where
  "calling_stack plan stack seen cb lib 0 = lib"
| "calling_stack plan stack seen cb lib (Suc n) = lib\<lparr>lib_execute := (\<lambda>tr e s.
     case stack_calls (calling_stack plan stack seen cb lib n) stack seen cb (plan n tr e s) s of
       None \<Rightarrow> None
     | Some s \<Rightarrow> lib_execute lib tr e s)\<rparr>"

section \<open>Lemmas: every callback keeps the references covered\<close>

lemma evolves_ict_terminate: "SIPLeelen_ict_terminate tr s = Some s' \<Longrightarrow> evolves s s'"
  by (auto simp: SIPLeelen_ict_terminate_def split: option.splits dest!: evolves_bye_leelen)

lemma evolves_bye_connecting:
  "stack_safe lib \<Longrightarrow> bye_connecting lib type tr s = Some (r, s') \<Longrightarrow> evolves s s'"
  by (auto simp: bye_connecting_def Let_def split: option.splits if_splits dest!: evolves_response)

lemma evolves_nist_bye:
  assumes "stack_safe lib" and "SIPLeelen_nist_bye lib type tr s = Some s'"
  shows "evolves s s'"
  using assms(2)
  by (auto simp: SIPLeelen_nist_bye_def Let_def split: option.splits if_splits
      dest!: evolves_response [OF assms(1)] evolves_bye_connecting [OF assms(1)] evolves_bye_leelen) (meson evolves_trans)+

lemma invite_start_sessions: "invite_start tr p number seen s = Some (r, s') \<Longrightarrow> s_sessions s' = s_sessions s"
  by (auto simp del: single_acquire.simps simp: invite_start_def Let_def on_net_def SIPLeelenSession_decref_def
      SIPLeelenSession_may_free_def split: option.splits prod.splits if_splits bool.splits)

lemma evolves_invite_start:
  "session_of s tr = Some p \<Longrightarrow> no_overflow p s \<Longrightarrow> invite_start tr p number seen s = Some (r, s') \<Longrightarrow> evolves s s'"
  using start_thread_inv [of s tr p number seen r s'] invite_start_sessions [of tr p number seen s r s']
  by (auto simp: evolves_def)

lemma established_count: "SIPLeelenSession_established self w = (r, self', w') \<Longrightarrow> n_refcount self' = n_refcount self"
  by (auto simp: SIPLeelenSession_established_def Let_def split: option.splits prod.splits if_splits)

lemma evolves_ist_invite:
  assumes safe: "stack_safe lib" and over: "\<And>p. session_of s tr = Some p \<Longrightarrow> no_overflow p s"
    and run: "SIPLeelen_ist_invite lib stack seen tr s = Some s'"
  shows "evolves s s'"
proof -
  obtain x p where x: "s_trs s tr = Some x" "x_session x = Some p"
    using run by (auto simp: SIPLeelen_ist_invite_def split: option.splits)
  then have p: "session_of s tr = Some p" by (simp add: session_of_def)
  obtain established s1 where e: "on_session SIPLeelenSession_established p s = Some (established, s1)"
    using run x by (auto simp: SIPLeelen_ist_invite_def Let_def split: option.splits)
  then obtain self self' w where f: "s_heap s p = Some self" "SIPLeelenSession_established self (s_net s) = (established, self', w)"
    "s1 = put_session p self' s\<lparr>s_net := w\<rparr>"
    by (auto simp: on_session_def split: option.splits prod.splits)
  have count: "n_refcount self' = n_refcount self" by (rule established_count [OF f(2)])
  have e1: "evolves s s1" using f(3) evolves_put_session [OF f(1) count] by simp
  have "session_of s1 tr = Some p" "no_overflow p s1"
    using p over [OF p] f count by (simp_all add: session_of_def no_overflow_def)
  note start = evolves_invite_start [OF this]
  show ?thesis
    using run x e e1
    by (auto simp: SIPLeelen_ist_invite_def Let_def split: option.splits sum.splits if_splits
        dest!: start evolves_response [OF safe]) (meson evolves_trans)+
qed

lemma evolves_register_client: "register_client lib x s = Some s' \<Longrightarrow> evolves s s'"
  by (auto simp: register_client_def evolves_def on_net_def Let_def registry_inv_def registry_base_def covered_def refs_def
      tr_refs_def thread_refs_def session_of_def split: option.splits prod.splits if_splits)

lemma evolves_register:
  assumes "stack_safe lib" and "SIPLeelen_register lib type tr s = Some s'"
  shows "evolves s s'"
  using assms(2)
  by (auto simp: SIPLeelen_register_def Let_def split: option.splits prod.splits if_splits
      dest!: evolves_send [OF assms(1)] evolves_register_client intro: evolves_trans)

lemma evolves_send_callback: "SIPLeelen_send lib tr m host port fd dst addr s = Some (r, s') \<Longrightarrow> evolves s s'"
  by (auto simp: SIPLeelen_send_def on_net_def Let_def split: option.splits prod.splits if_splits)

text \<open>The end of a transaction gives up its own reference, never the last one of a session in the table.\<close>

lemma remove_session_absent:
  assumes "wf_ptrv (s_sessions s)" and "p \<notin> members (s_sessions s)"
  shows "SIPLeelen_remove_session p (- 1) s = s"
proof -
  have len: "length (slots (s_sessions s)) = plen (s_sessions s)"
    using iffD1 [OF wf_ptrv_iff assms(1)] by (elim disjE) (simp_all add: slots_def)
  have "slots (s_sessions s) ! k \<noteq> Ptr p" if "k < plen (s_sessions s)" for k
    using assms(2) nth_mem [of k "slots (s_sessions s)"] that unfolding len members_def by auto
  then have "ptrvfind (s_sessions s) (Ptr p) = - 1"
    using ptrvfind_spec [OF assms(1), of p] by blast
  then show ?thesis by (simp add: SIPLeelen_remove_session_def)
qed

lemma kill_sessions:
  assumes inv: "registry_inv s" and remove: "lib_remove lib tr = deactivate tr"
    and x: "s_trs s tr = Some x" "x_active x" and kill: "SIPLeelen_kill_transaction lib tr s = Some s'"
  shows "s_sessions s' = s_sessions s"
proof (cases "x_session x")
  case None
  then show ?thesis using kill x remove by (auto simp: SIPLeelen_kill_transaction_def)
next
  case (Some p)
  have base: "registry_base s" using inv by (simp add: registry_inv_def)
  have "tr \<in> tr_refs s p" using x Some by (simp add: tr_refs_def)
  then have tr: "0 < card (tr_refs s p)"
    using base tr_refs_finite [of s p] by (auto simp: card_gt_0_iff registry_base_def)
  then have "0 < refs s p" by (simp add: refs_def)
  then obtain self where self: "s_heap s p = Some self" "refs s p \<le> unat (n_refcount self)"
    using registry_live [OF inv] by blast
  obtain s1 self1 where s1: "forget_transaction p tr s = Some s1" "s_sessions s1 = s_sessions s" "s_heap s1 p = Some self1"
      "n_refcount self1 = n_refcount self"
    using self(1) by (cases "n_transaction self = Some tr") (auto simp: forget_transaction_def)
  then obtain s2 where s2: "SIPLeelen_decref_session p (- 1) s1 = Some s2" "s' = deactivate tr s2"
    using kill x Some remove by (auto simp: SIPLeelen_kill_transaction_def split: option.splits)
  have "s_sessions s2 = s_sessions s"
  proof (cases "n_refcount self - 1 = 0")
    case True
    then have "n_refcount self = 1" by (metis eq_iff_diff_eq_0)
    with self(2) tr have "p \<notin> members (s_sessions s)" by (auto simp: refs_def split: if_splits)
    with base s1 s2(1) True show ?thesis
      by (auto simp: SIPLeelen_decref_session_def SIPLeelen_may_free_session_def SIPLeelen_free_session_def
          remove_session_absent registry_base_def split: prod.splits if_splits)
  qed (use s1 s2(1) in \<open>auto simp: SIPLeelen_decref_session_def\<close>)
  with s2(2) show ?thesis by simp
qed

lemma evolves_kill:
  assumes "lib_remove lib tr = deactivate tr" and "s_trs s tr = Some x" and "x_active x"
    and "SIPLeelen_kill_transaction lib tr s = Some s'"
  shows "evolves s s'"
proof -
  have "registry_inv s' \<and> s_sessions s' = s_sessions s" if inv: "registry_inv s"
    using kill_transaction_inv [OF inv assms(1-3)] kill_sessions [OF inv assms] assms(4) by auto
  then show ?thesis by (auto simp: evolves_def)
qed

section \<open>Lemmas: stacks that call back\<close>

definition removes :: "'x osip_lib \<Rightarrow> bool" where
  "removes lib \<longleftrightarrow> (\<forall>tr. lib_remove lib tr = deactivate tr)"

lemma evolves_message_callback:
  assumes "stack_safe lib" and "\<And>p. session_of s tr = Some p \<Longrightarrow> no_overflow p s"
    and "message_callback_run lib stack seen f ev tr s = Some s'"
  shows "evolves s s'"
  using assms(3)
  by (cases "(lib, stack, seen, f, ev, tr, s)" rule: message_callback_run.cases)
    (auto simp: SIPLeelen_ict_connect_def dest!: evolves_ict_terminate evolves_nist_bye [OF assms(1)] evolves_register [OF assms(1)]
      intro: evolves_ist_invite [OF assms(1,2)])

lemma evolves_stack_call:
  assumes "stack_safe lib" and "removes lib" and "call_allowed c s" and "stack_call_run lib stack seen cb c s = Some s'"
  shows "evolves s s'"
proof (cases c)
  case (Received ev tr)
  then have "\<And>p. session_of s tr = Some p \<Longrightarrow> no_overflow p s" using assms(3) by (simp add: call_allowed_def)
  from evolves_message_callback [OF assms(1) this] assms(4) Received show ?thesis
    by (auto split: option.splits)
next
  case (Terminated ev tr)
  then obtain x where "s_trs s tr = Some x" "x_active x" using assms(3) by (auto simp: call_allowed_def split: option.splits)
  from evolves_kill [OF _ this, of lib] assms(2,4) Terminated show ?thesis
    by (auto simp: removes_def split: option.splits kill_callback.splits)
next
  case (Send tr m host port fd dst addr)
  then show ?thesis using assms(4) by (auto dest: evolves_send_callback)
qed

lemma evolves_stack_calls:
  assumes "stack_safe lib" and "removes lib"
  shows "stack_calls lib stack seen cb cs s = Some s' \<Longrightarrow> evolves s s'"
proof (induction cs arbitrary: s)
  case (Cons c cs)
  then show ?case
    by (auto split: if_splits option.splits dest!: evolves_stack_call [OF assms] intro: evolves_trans)
qed simp

lemma calling_stack_safe:
  assumes "stack_safe lib" and "removes lib"
  shows "stack_safe (calling_stack plan stack seen cb lib n) \<and> removes (calling_stack plan stack seen cb lib n)"
proof (induction n)
  case (Suc n)
  then have calls: "evolves s s'" if "stack_calls (calling_stack plan stack seen cb lib n) stack seen cb cs s = Some s'" for cs s s'
    using evolves_stack_calls that by blast
  have "evolves s s'" if "lib_execute (calling_stack plan stack seen cb lib (Suc n)) tr e s = Some (r, s')" for tr e s r s'
    using that by (auto split: option.splits dest!: calls evolves_execute [OF assms(1)] intro: evolves_trans)
  moreover have "lib_create (calling_stack plan stack seen cb lib (Suc n)) = lib_create lib"
    "lib_add_event (calling_stack plan stack seen cb lib (Suc n)) = lib_add_event lib"
    "lib_remove (calling_stack plan stack seen cb lib (Suc n)) = lib_remove lib" by simp_all
  ultimately show ?case using assms unfolding stack_safe_def removes_def by simp
qed (use assms in simp)

section \<open>Properties\<close>

text \<open>C27. A stack that calls back what the device registers, nested to any depth and in any order, keeps the references of sessions
  covered when it runs a transaction: no session leaves the table, and every session in the table is still
  allocated with a counter of at least 1.\<close>

theorem callbacks_keep_covered:
  assumes "stack_safe lib" and "removes lib" and "registry_inv s"
    and "lib_execute (calling_stack plan stack seen device_callbacks lib n) tr e s = Some (r, s')"
  shows "registry_inv s' \<and> members (s_sessions s) \<subseteq> members (s_sessions s') \<and>
    (\<forall>p \<in> members (s_sessions s'). \<exists>self. s_heap s' p = Some self \<and> 0 < unat (n_refcount self))"
proof -
  have "evolves s s'"
    using calling_stack_safe [OF assms(1,2)] evolves_execute assms(4) by blast
  then have inv: "registry_inv s'" "members (s_sessions s) \<subseteq> members (s_sessions s')" using assms(3) by (auto simp: evolves_def)
  moreover have "\<exists>self. s_heap s' p = Some self \<and> 0 < unat (n_refcount self)" if "p \<in> members (s_sessions s')" for p
    using registry_live [OF inv(1), of p] member_refs [OF that] by fastforce
  ultimately show ?thesis by blast
qed

text \<open>The stack ends transaction 7, which has a session.\<close>

theorem callbacks_keep_covered_witness:
  "\<exists>(s :: event_log device) s' r. session_of s 7 = Some 0 \<and> 0 \<in> members (s_sessions s) \<and>
     lib_execute (calling_stack (\<lambda>_ _ _ _. [Terminated OSIP_NIST_KILL_TRANSACTION 7]) sample_base [] device_callbacks
       (sample_lib\<lparr>lib_remove := deactivate\<rparr>) 1) 7 (False, sample_request) s = Some (r, s') \<and>
     registry_inv s' \<and> s_heap s' 0 \<noteq> None"
proof -
  let ?lib = "sample_lib\<lparr>lib_remove := deactivate\<rparr>"
  obtain s self where s: "s_trs s = Map.empty" "s_heap s 0 = Some self" "n_refcount self = 1" "0 \<in> members (s_sessions s)"
    "reach registry_initial registry_step (s :: event_log device)"
    using empty_device_new_session by blast
  let ?s1 = "put_transaction 7 sample_transaction s"
  have i1: "registry_inv ?s1" by (rule new_transaction_inv) (simp_all add: s registry.reach_inv)
  obtain s2 where s2: "attach_transaction 0 7 3 AF_INET ?s1 = Some s2" "session_of s2 7 = Some 0" "s_sessions s2 = s_sessions s"
    "s_trs s2 7 = Some (sample_transaction\<lparr>x_out_socket := 3, x_session := Some 0, x_out_af := AF_INET\<rparr>)"
    using s(2) by (auto simp: attach_transaction_def session_of_def)
  have "no_overflow 0 ?s1" using s(2,3) by (simp add: no_overflow_def refcount_inc_def)
  with i1 s2(1) have i2: "registry_inv s2" using attach_inv [of ?s1 7 sample_transaction 0] by simp
  have safe: "stack_safe ?lib" "removes ?lib" using sample_lib_safe by (simp_all add: stack_safe_def removes_def)
  obtain s3 where s3: "SIPLeelen_kill_transaction ?lib 7 s2 = Some s3"
    using kill_transaction_inv [OF i2 _ s2(4), of ?lib] by auto
  let ?c = "calling_stack (\<lambda>_ _ _ _. [Terminated OSIP_NIST_KILL_TRANSACTION 7]) sample_base [] device_callbacks ?lib 1"
  have cb: "cb_kill device_callbacks OSIP_NIST_KILL_TRANSACTION = Some Kill_transaction"
    by (simp add: device_callbacks_def SIPLeelen_set_uas_callbacks_def SIPLeelen_set_uax_callbacks_def no_callbacks_def
        osip_set_message_callback_def osip_set_kill_transaction_callback_def)
  obtain r s' where run: "lib_execute ?c 7 (False, sample_request) s2 = Some (r, s')"
    using s2(4) s3 cb by (simp add: call_allowed_def)
  from callbacks_keep_covered [OF safe i2 run] s2(2,3) s(4) run show ?thesis by fastforce
qed

text \<open>The callbacks for responses to our own INVITE are never registered: \<^verbatim>\<open>SIPLeelen_init\<close> leaves out
  \<^verbatim>\<open>SIPLeelen_set_uac_callbacks\<close>, so a refusal is not handed on to LEELEN; every request of the tables is handled.\<close>

theorem client_responses_unhandled:
  "cb_message device_callbacks ev = None \<longleftrightarrow> cb_message (SIPLeelen_set_uac_callbacks no_callbacks) ev \<noteq> None"
proof (cases ev)
  case (NistReceived type)
  then show ?thesis
    by (cases type) (simp_all add: device_callbacks_def SIPLeelen_set_uas_callbacks_def SIPLeelen_set_uax_callbacks_def
        SIPLeelen_set_uac_callbacks_def no_callbacks_def osip_set_message_callback_def osip_set_kill_transaction_callback_def)
qed (simp_all add: device_callbacks_def SIPLeelen_set_uas_callbacks_def SIPLeelen_set_uax_callbacks_def
    SIPLeelen_set_uac_callbacks_def no_callbacks_def osip_set_message_callback_def osip_set_kill_transaction_callback_def)

lemma refusal_ignored:
  "stack_call_run lib stack seen device_callbacks (Received OSIP_ICT_STATUS_4XX_RECEIVED tr) s = Some s"
  using client_responses_unhandled [of OSIP_ICT_STATUS_4XX_RECEIVED]
  by (simp add: SIPLeelen_set_uac_callbacks_def no_callbacks_def osip_set_message_callback_def)

end
