(* ===== verification/Requests.thy ===== *)
theory Requests
  imports Callbacks
begin

text \<open>
  SIP datagrams and the references of sessions: what \<^verbatim>\<open>SIPLeelen_receive\<close> (\<^verbatim>\<open>sipleelen/sipleelen.c\<close>) does
  with a request keeps them covered, as long as the stack makes a transaction of it. (When it does not, a reference is
  given up that nobody took: \<open>receive_request_drops_session\<close>.)
\<close>

section \<open>The stack\<close>

text \<open>What the manual of the stack says of the functions that \<^verbatim>\<open>SIPLeelen_receive\<close> calls: looking for the transaction of a
  message and taking an event change nothing but the lists of the stack, running the transactions calls callbacks,
  the pointer to the session belongs to the program, a transaction that has to be removed was not removed before, and freeing
  removes it.\<close>

definition stack_serves :: "'x osip_lib \<Rightarrow> bool" where
  "stack_serves lib \<longleftrightarrow> stack_safe lib \<and>
     (\<forall>e s b s'. lib_find lib e s = (b, s') \<longrightarrow> (\<exists>o'. s' = s\<lparr>s_osip := o'\<rparr>)) \<and>
     (\<forall>tr s e s'. lib_tryget lib tr s = (e, s') \<longrightarrow> (\<exists>o'. s' = s\<lparr>s_osip := o'\<rparr>)) \<and>
     (\<forall>t s s'. lib_run lib t s = Some s' \<longrightarrow> evolves s s') \<and>
     (\<forall>tr e s r s'. lib_execute lib tr e s = Some (r, s') \<and> s_trs s tr \<noteq> None \<longrightarrow>
        s_trs s' tr \<noteq> None \<and> session_of s' tr = session_of s tr \<and>
        (r = OSIP_SUCCESS \<longrightarrow> (\<exists>x. s_trs s' tr = Some x \<and> x_active x))) \<and>
     (\<forall>tr. lib_free lib tr = deactivate tr)"

text \<open>Every request gets a transaction: there is memory for it.\<close>

definition makes_all :: "'x osip_lib \<Rightarrow> bool" where
  "makes_all lib \<longleftrightarrow> (\<forall>e s. finite (dom (s_trs s)) \<longrightarrow> fst (lib_create lib e s) \<noteq> None)"

lemma stack_servesD:
  assumes "stack_serves lib"
  shows "stack_safe lib"
    and "lib_find lib e s = (b, s') \<Longrightarrow> \<exists>o'. s' = s\<lparr>s_osip := o'\<rparr>"
    and "lib_tryget lib tr s = (ev, s') \<Longrightarrow> \<exists>o'. s' = s\<lparr>s_osip := o'\<rparr>"
    and "lib_run lib t s = Some s' \<Longrightarrow> evolves s s'"
    and "lib_execute lib tr e s = Some (r, s') \<Longrightarrow> s_trs s tr \<noteq> None \<Longrightarrow> s_trs s' tr \<noteq> None \<and> session_of s' tr = session_of s tr"
    and "lib_execute lib tr e s = Some (OSIP_SUCCESS, s') \<Longrightarrow> s_trs s tr \<noteq> None \<Longrightarrow> \<exists>x. s_trs s' tr = Some x \<and> x_active x"
    and "lib_free lib tr = deactivate tr"
  using assms unfolding stack_serves_def by blast+

section \<open>Lemmas\<close>

text \<open>The end of a transaction in the loop over its events is what the callback for its termination does.\<close>

lemma receive_events_kill:
  assumes "s_trs s tr = Some x" and "x_session x = session"
  shows "(case session of
            None \<Rightarrow> Some (lib_free lib tr s)
          | Some p \<Rightarrow> (case forget_transaction p tr s of
                          None \<Rightarrow> None
                        | Some s \<Rightarrow> (case SIPLeelen_decref_session p (- 1) s of None \<Rightarrow> None | Some s \<Rightarrow> Some (lib_free lib tr s)))) =
    SIPLeelen_kill_transaction (lib\<lparr>lib_remove := lib_free lib\<rparr>) tr s"
  using assms by (cases session) (simp_all add: SIPLeelen_kill_transaction_def split: option.split)

lemma receive_events_inv:
  assumes serves: "stack_serves lib"
  shows "receive_events lib fuel tr session s = Some s' \<Longrightarrow> registry_inv s \<Longrightarrow> s_trs s tr \<noteq> None \<Longrightarrow>
    session_of s tr = session \<Longrightarrow> registry_inv s'"
proof (induction fuel arbitrary: s)
  case (Suc fuel)
  obtain ev s1 where get: "lib_tryget lib tr s = (ev, s1)" by fastforce
  then obtain o' where s1: "s1 = s\<lparr>s_osip := o'\<rparr>" using stack_servesD(3) [OF serves] by blast
  show ?case
  proof (cases ev)
    case None
    then have "s' = s1" using Suc.prems(1) get by simp
    then show ?thesis using Suc.prems(2) s1 by simp
  next
    case (Some event)
    then obtain r s2 where run: "lib_execute lib tr event s1 = Some (r, s2)"
      using Suc.prems(1) get by (auto split: option.splits)
    have inv: "registry_inv s2"
      using evolves_execute [OF stack_servesD(1) [OF serves] run] Suc.prems(2) s1 by (simp add: evolves_def)
    have tr: "s_trs s1 tr \<noteq> None" "session_of s1 tr = session" using Suc.prems(3,4) s1 by (simp_all add: session_of_def)
    note kept = stack_servesD(5) [OF serves run tr(1)]
    show ?thesis
    proof (cases "r = OSIP_SUCCESS")
      case False
      then show ?thesis using Suc.IH [of s2] Suc.prems(1) get Some run inv kept tr(2) by simp
    next
      case True
      then obtain x where x: "s_trs s2 tr = Some x" "x_active x" using stack_servesD(6) [OF serves _ tr(1)] run by blast
      have "x_session x = session" using x(1) kept tr(2) by (simp add: session_of_def)
      note k = receive_events_kill [OF x(1) this, of lib]
      have "SIPLeelen_kill_transaction (lib\<lparr>lib_remove := lib_free lib\<rparr>) tr s2 = Some s'"
        unfolding k [symmetric] using Suc.prems(1) get Some run True by (auto split: option.splits)
      then show ?thesis
        using kill_transaction_inv [OF inv _ x, of "lib\<lparr>lib_remove := lib_free lib\<rparr>"] stack_servesD(7) [OF serves] by auto
    qed
  qed
qed simp

text \<open>Removing a transaction without a session.\<close>

lemma deactivate_inv:
  assumes "registry_inv s" and "session_of s tr = None"
  shows "registry_inv (deactivate tr s)"
proof -
  have base: "registry_base s" using assms(1) by (simp add: registry_inv_def)
  have "tr \<notin> tr_refs s q" for q using assms(2) by (auto simp: tr_refs_def session_of_def split: option.splits)
  then have "covered (deactivate tr s) q 0" for q
    using base registry_live [OF assms(1), of q] by (simp add: covered_def refs_deactivate registry_base_def)
  then show ?thesis using registry_base_deactivate [OF base] by (simp add: registry_inv_def)
qed

lemma new_session_trs: "SIPLeelen_new_session s = Some (r, s') \<Longrightarrow> s_trs s' = s_trs s"
  by (auto simp: SIPLeelen_new_session_def on_session_def put_session_def Let_def split: if_splits option.splits prod.splits slot.splits)

text \<open>The session of a new transaction.\<close>

lemma receive_session_inv:
  assumes serves: "stack_serves lib" and inv: "registry_inv s" and x: "s_trs s tr = Some x" "x_session x = None"
    and over: "\<And>p. session = Some p \<Longrightarrow> no_overflow p s" and run: "receive_session lib session tr dst s = Some (r, s')"
  shows "registry_inv s' \<and> (\<forall>found. r = Some found \<longrightarrow> s_trs s' tr = Some x \<and> (\<forall>p. found = Some p \<longrightarrow> no_overflow p s'))"
proof (cases "session = None \<and> x_ctx_type x = IST")
  case False
  then have "r = Some session" "s' = s" using run x(1) by (auto simp: receive_session_def)
  then show ?thesis using inv x(1) over by simp
next
  case True
  then obtain q s1 where new: "SIPLeelen_new_session s = Some (q, s1)"
    using run x(1) by (auto simp: receive_session_def split: option.splits)
  note trs = new_session_trs [OF new]
  show ?thesis
  proof (cases q)
    case None
    then have "r = None" "s' = deactivate tr s1"
      using run x(1) True new stack_servesD(7) [OF serves] by (auto simp: receive_session_def)
    moreover have "session_of s1 tr = None" using x trs by (simp add: session_of_def)
    ultimately show ?thesis using deactivate_inv new_session_fail_inv [OF inv] new None by simp
  next
    case (Some p)
    then obtain self where self: "s_heap s1 p = Some self" "r = Some (Some p)" "s' = put_session p (self\<lparr>n_ours := dst\<rparr>) s1"
      using run x(1) True new by (auto simp: receive_session_def split: option.splits)
    have n: "registry_inv s1" "n_refcount self = 1"
      using new_session_inv [OF inv] new_session_spec [OF inv] new Some self(1) by fastforce+
    have "no_overflow p s'" using self(3) n(2) by (simp add: no_overflow_def refcount_inc_def)
    moreover have "registry_inv s'" unfolding self(3) by (rule registry_put_session [OF n(1) self(1)]) simp
    moreover have "s_trs s' tr = Some x" using self(3) trs x(1) by simp
    ultimately show ?thesis using self(2) by simp
  qed
qed

lemma receive_attach_inv:
  assumes inv: "registry_inv s" and x: "s_trs s tr = Some x" "x_session x = None"
    and over: "\<And>p. session = Some p \<Longrightarrow> no_overflow p s" and run: "receive_attach session tr fd f s = Some s'"
  shows "registry_inv s' \<and> s_trs s' tr \<noteq> None \<and> session_of s' tr = session"
proof (cases session)
  case None
  then have s': "s' = put_transaction tr (x\<lparr>x_out_socket := fd, x_session := None, x_out_af := f\<rparr>) s"
    using run x(1) by (simp add: receive_attach_def)
  have "evolves s s'" unfolding s' by (rule evolves_put_transaction [OF x(1)]) (simp_all add: x(2))
  then show ?thesis using inv None s' by (simp add: evolves_def session_of_def)
next
  case (Some p)
  then have at: "attach_transaction p tr fd f s = Some s'" using run by (simp add: receive_attach_def)
  have "registry_inv s'" using attach_inv [OF inv x over [OF Some] at] .
  moreover have "s_trs s' tr \<noteq> None \<and> session_of s' tr = Some p"
    using at x(1) by (auto simp: attach_transaction_def session_of_def split: option.splits)
  ultimately show ?thesis using Some by simp
qed

lemma receive_request_inv:
  assumes serves: "stack_serves lib" and all: "makes_all lib" and inv: "registry_inv s" and over: "\<And>p. no_overflow p s"
    and run: "receive_request lib fuel sip fd src dst s = Some (r, s')"
  shows "registry_inv s'"
proof -
  obtain session where find: "find_session lib sip (slots (s_sessions s)) s = Some session"
    using run by (auto simp: receive_request_def split: option.splits)
  have finite: "finite (dom (s_trs s))" using inv by (simp add: registry_inv_def registry_base_def)
  obtain tr s1 where create: "lib_create lib (False, sip) s = (Some tr, s1)"
    using all finite by (metis makes_all_def option.exhaust prod.collapse)
  then obtain x o' where x: "s_trs s tr = None" "x_session x = None" "s1 = put_transaction tr x (s\<lparr>s_osip := o'\<rparr>)"
    using stack_servesD(1) [OF serves] unfolding stack_safe_def by blast
  have inv1: "registry_inv s1" using new_transaction_inv [of "s\<lparr>s_osip := o'\<rparr>" tr x] x inv by simp
  have s1: "s_trs s1 tr = Some x" "no_overflow p s1" for p using x(3) over [of p] by (simp_all add: no_overflow_def)
  obtain found s2 where ses: "receive_session lib session tr dst s1 = Some (found, s2)"
    using run find create by (auto simp: receive_request_def split: option.splits)
  note r2 = receive_session_inv [OF serves inv1 s1(1) x(2) s1(2) ses]
  show ?thesis
  proof (cases found)
    case None
    then show ?thesis using run find create ses r2 by (simp add: receive_request_def)
  next
    case (Some session')
    then obtain s3 where at: "receive_attach session' tr fd (sa_family src) s2 = Some s3"
      using run find create ses by (auto simp: receive_request_def split: option.splits)
    then have ev: "receive_events lib fuel tr session' s3 = Some s'"
      using run find create ses Some by (auto simp: receive_request_def)
    have "registry_inv s2" "s_trs s2 tr = Some x" "\<And>p. session' = Some p \<Longrightarrow> no_overflow p s2" using r2 Some by auto
    from receive_attach_inv [OF this(1,2) x(2) this(3) at] receive_events_inv [OF serves ev] show ?thesis by blast
  qed
qed

lemma run_all_inv:
  assumes "stack_serves lib" and "run_all (lib_run lib) s = Some s'" and "registry_inv s"
  shows "registry_inv s'"
proof -
  have "evolves s s'"
    using assms(2) by (auto simp: run_all_def bind_eq_Some_conv dest!: stack_servesD(4) [OF assms(1)] intro: evolves_trans)
  then show ?thesis using assms(3) by (simp add: evolves_def)
qed

lemma sip_fix_via_net:
  assumes "sip_fix_via lib sip src s = Some (m, s')"
  shows "\<exists>w. s' = s\<lparr>s_net := w\<rparr>"
proof (cases "is_response sip")
  case True
  then have "s' = s\<lparr>s_net := s_net s\<rparr>" using assms by (simp add: sip_fix_via_def)
  then show ?thesis by blast
next
  case False
  then obtain f host port where "via_address src = Some (f, host, port)"
    using assms by (cases "via_address src") (auto simp: sip_fix_via_def)
  with False assms have "s' = snd (on_net sys s)" by (cases "on_net sys s") (simp add: sip_fix_via_def)
  then have "s' = s\<lparr>s_net := snd (sys (s_net s))\<rparr>" by (simp add: on_net_def case_prod_beta)
  then show ?thesis by blast
qed

section \<open>Properties\<close>

text \<open>C9. A SIP datagram never leaves a dangling session behind: whatever arrives, for a known transaction, a known session or a new
  call, the references of all sessions are covered again when \<open>SIPLeelen_receive\<close> returns, provided that the
  stack makes a transaction of every request and no counter is at its maximum.\<close>

theorem SIPLeelen_receive_covers:
  assumes "registry_inv s" and "stack_serves lib" and "makes_all lib" and "\<And>p. no_overflow p s"
    and "SIPLeelen_receive lib fuel buf fd src dst s = Some (r, s')"
  shows "registry_inv s' \<and> (\<forall>p \<in> members (s_sessions s'). s_heap s' p \<noteq> None)"
proof -
  have inv: "registry_inv s'"
  proof (cases "lib_parse lib buf")
    case None
    then show ?thesis using assms(1,5) by (simp add: SIPLeelen_receive_def)
  next
    case (Some sip)
    then obtain sip' s1 where via: "sip_fix_via lib sip src s = Some (sip', s1)"
      using assms(5) by (auto simp: SIPLeelen_receive_def split: option.splits)
    then obtain w where s1: "s1 = s\<lparr>s_net := w\<rparr>" using sip_fix_via_net by blast
    show ?thesis
    proof (cases sip')
      case None
      then have "s' = s1" using assms(5) Some via by (simp add: SIPLeelen_receive_def)
      then show ?thesis using assms(1) s1 by simp
    next
      case (Some m)
      obtain found s2 where find: "lib_find lib (False, m) s1 = (found, s2)" by fastforce
      then obtain o' where s2: "s2 = s1\<lparr>s_osip := o'\<rparr>" using stack_servesD(2) [OF assms(2)] by blast
      have i2: "registry_inv s2" "no_overflow p s2" for p
        using assms(1) assms(4) [of p] s1 s2 by (simp_all add: no_overflow_def)
      have run: "(if found then map_option (Pair 0) (run_all (lib_run lib) s2)
          else if is_response m then Some (2, s2) else receive_request lib fuel m fd src dst s2) = Some (r, s')"
        using assms(5) \<open>lib_parse lib buf = Some sip\<close> via Some find by (cases found) (simp_all add: SIPLeelen_receive_def)
      consider "run_all (lib_run lib) s2 = Some s'" | "s' = s2" | "receive_request lib fuel m fd src dst s2 = Some (r, s')"
        using run by (cases found; cases "is_response m") auto
      then show ?thesis
        using run_all_inv [OF assms(2) _ i2(1)] i2(1) receive_request_inv [OF assms(2,3) i2(1,2)] by cases blast+
    qed
  qed
  moreover have "s_heap s' p \<noteq> None" if "p \<in> members (s_sessions s')" for p
    using registry_live [OF inv, of p] member_refs [OF that] by auto
  ultimately show ?thesis by blast
qed

text \<open>A stack that ends every transaction with its first event.\<close>

definition has_active :: "nat \<Rightarrow> 'x device \<Rightarrow> bool" where
  "has_active tr s = (case s_trs s tr of None \<Rightarrow> False | Some x \<Rightarrow> x_active x)"

definition serving_lib :: "event_log osip_lib" where
  "serving_lib = sample_lib\<lparr>
     lib_parse := (\<lambda>_. Some sample_request),
     lib_create := (\<lambda>e s. let tr = (LEAST tr. s_trs s tr = None) in
       if s_trs s tr = None then (Some tr, put_transaction tr sample_transaction s) else (None, s)),
     lib_execute := (\<lambda>tr e s. Some (if has_active tr s then OSIP_SUCCESS else 1, s\<lparr>s_osip := s_osip s @ [(tr, e)]\<rparr>)),
     lib_tryget := (\<lambda>tr s. (if has_active tr s then Some (False, sample_request) else None, s)),
     lib_free := deactivate\<rparr>"

lemma serving_lib_fields:
  "lib_tryget serving_lib tr s = (if has_active tr s then Some (False, sample_request) else None, s)"
  "lib_execute serving_lib tr e s = Some (if has_active tr s then OSIP_SUCCESS else 1, s\<lparr>s_osip := s_osip s @ [(tr, e)]\<rparr>)"
  "lib_free serving_lib = deactivate"
  by (simp_all add: serving_lib_def)

lemma serving_lib_serves: "stack_serves serving_lib" "makes_all serving_lib"
proof -
  have same: "\<exists>o'. s = s\<lparr>s_osip := o'\<rparr>" for s :: "event_log device" by (intro exI [of _ "s_osip s"]) simp
  have make: "\<exists>x o'. x_session x = None \<and> put_transaction tr sample_transaction s = put_transaction tr x (s\<lparr>s_osip := o'\<rparr>)"
    for tr and s :: "event_log device"
    by (intro exI [of _ sample_transaction] exI [of _ "s_osip s"]) simp
  have safe: "stack_safe serving_lib"
    using same make unfolding stack_safe_def by (auto simp: serving_lib_def Let_def split: if_splits)
  show "stack_serves serving_lib"
    using safe same unfolding stack_serves_def
    by (auto simp: serving_lib_def session_of_def has_active_def OSIP_SUCCESS_def split: option.splits if_splits)
  show "makes_all serving_lib"
    unfolding makes_all_def
  proof (intro allI impI)
    fix e and s :: "event_log device"
    assume "finite (dom (s_trs s))"
    then obtain n where "n \<notin> dom (s_trs s)" using ex_new_if_finite infinite_UNIV_nat by blast
    then have "s_trs s (LEAST tr. s_trs s tr = None) = None" by (intro LeastI [of "\<lambda>tr. s_trs s tr = None" n]) auto
    then show "fst (lib_create serving_lib e s) \<noteq> None" by (simp add: serving_lib_def Let_def)
  qed
qed

text \<open>A request for a session in the table: the transaction gets a reference and gives it back.\<close>

theorem SIPLeelen_receive_covers_witness:
  "\<exists>s s'. 0 \<in> members (s_sessions s) \<and> SIPLeelen_receive serving_lib 1 ''BYE'' 3 (sockaddr_zero\<lparr>sa_family := AF_INET6\<rparr>) in6addr_any s =
     Some (0, s') \<and> registry_inv s'"
proof -
  obtain s self where s: "0 \<in> members (s_sessions s)" "s_trs s = Map.empty" "s_heap s 0 = Some self" "n_refcount self = 1"
    "reach registry_initial registry_step (s :: event_log device)"
    and new: "SIPLeelen_new_session empty_device = Some (Some 0, s)"
    using empty_device_new_session by blast
  note spec = new_session_spec [OF initial_inv [OF empty_device_initial] new]
  have heap: "\<exists>x. s_heap s = (s_heap empty_device)(0 \<mapsto> x)" and env: "same_env (s_net empty_device) (s_net s)"
    and mem: "members (s_sessions s) = insert 0 (members (s_sessions empty_device))"
    using spec by blast+
  let ?self = "self\<lparr>n_sip := Some sample_osip_dialog\<rparr>" and ?src = "sockaddr_zero\<lparr>sa_family := AF_INET6\<rparr>"
  let ?s = "put_session 0 ?self s"
  have inv: "registry_inv ?s" using registry_put_session [OF registry.reach_inv [OF s(5)] s(3)] by simp
  have over: "no_overflow p ?s" for p
  proof (cases "p = 0")
    case False
    then have "s_heap ?s p = None" using heap by auto
    then show ?thesis by (simp add: no_overflow_def)
  qed (simp add: no_overflow_def refcount_inc_def s(4))
  have ok: "w_ok (s_net s) k" for k using env by (simp add: same_env_def calm1_def)
  let ?s1 = "?s\<lparr>s_net := step (s_net s)\<rparr>"
  have via: "sip_fix_via serving_lib sample_request ?src ?s = Some (Some sample_request, ?s1)"
    using ok by (simp add: sip_fix_via_def is_response_def via_address_def sockaddr_get_def sockaddr_addr_def on_net_def sys_def
        serving_lib_def sample_lib_def sample_request_def osip_message_zero_def put_session_def)
  have find: "find_session serving_lib sample_request ps ?s1 = Some (Some 0)"
    if "\<forall>p. Ptr p \<in> set ps \<longrightarrow> p = 0" "Ptr 0 \<in> set ps" "Junk \<notin> set ps" for ps
    using that
  proof (induction ps)
    case (Cons a ps)
    then show ?case by (cases a) (auto simp: serving_lib_def sample_lib_def)
  qed simp
  have find1: "find_session serving_lib sample_request (slots (s_sessions ?s1)) ?s1 = Some (Some 0)"
    using find [of "slots (s_sessions s)"] registry_slots(1) [OF inv] mem by (auto simp: members_def)
  let ?s2 = "put_transaction 0 sample_transaction ?s1"
  have make: "lib_create serving_lib (False, sample_request) ?s1 = (Some 0, ?s2)"
    using s(2) by (simp add: serving_lib_def Let_def Least_eq_0)
  have inv2: "registry_inv ?s2" by (rule new_transaction_inv) (use inv s(2) in simp_all)
  have ses: "receive_session serving_lib (Some 0) 0 in6addr_any ?s2 = Some (Some (Some 0), ?s2)"
    by (simp add: receive_session_def)
  obtain s3 x where at: "receive_attach (Some 0) 0 3 AF_INET6 ?s2 = Some s3" "s_trs s3 0 = Some x" "x_active x" "x_session x = Some 0"
    by (simp add: receive_attach_def attach_transaction_def)
  have "no_overflow p ?s2" for p using over [of p] by (simp add: no_overflow_def)
  then have inv3: "registry_inv s3" using receive_attach_inv [OF inv2 _ _ _ at(1), of sample_transaction] by simp
  let ?s4 = "s3\<lparr>s_osip := s_osip s3 @ [(0, False, sample_request)]\<rparr>"
  have inv4: "registry_inv ?s4" "s_trs ?s4 0 = Some x" using inv3 at(2) by simp_all
  note k = receive_events_kill [OF inv4(2) at(4), of serving_lib]
  obtain s' where "SIPLeelen_kill_transaction (serving_lib\<lparr>lib_remove := lib_free serving_lib\<rparr>) 0 ?s4 = Some s'"
    using kill_transaction_inv [OF inv4(1) _ inv4(2) at(3), of "serving_lib\<lparr>lib_remove := lib_free serving_lib\<rparr>"]
    by (auto simp: serving_lib_def)
  then have events: "receive_events serving_lib 1 0 (Some 0) s3 = Some s'"
    using at(2,3) unfolding k [symmetric] by (simp add: serving_lib_fields has_active_def)
  have "receive_request serving_lib 1 sample_request 3 ?src in6addr_any ?s1 = Some (0, s')"
    unfolding receive_request_def using find1 make ses at(1) events by simp
  then have run: "SIPLeelen_receive serving_lib 1 ''BYE'' 3 ?src in6addr_any ?s = Some (0, s')"
    using via by (simp add: SIPLeelen_receive_def) (simp add: serving_lib_def is_response_def sample_request_def osip_message_zero_def)
  from SIPLeelen_receive_covers [OF inv serving_lib_serves over run] run s(1) show ?thesis by (intro exI [of _ ?s] exI [of _ s']) simp
qed

end
