(* ===== verification/Invite.thy ===== *)
theory Invite
  imports Safety
begin

text \<open>
  The thread of an INVITE (\<open>SIPLeelen_ist_invite_process\<close> of \<^verbatim>\<open>sipleelen/uas.c\<close>, modelled in Uas): what it leaves
  behind, on success and on each of its failures.
\<close>

section \<open>What it sends to LEELEN\<close>

lemma header_fields:
  assumes "take 8 buf = message_header m"
  shows "LEELEN_MESSAGE_CODE buf = m_code m" and "LEELEN_MESSAGE_ID buf = m_id m"
proof -
  have "buf = le32 (m_code m) @ le32 (m_id m) @ drop 8 buf"
    using assms append_take_drop_id [of 8 buf] by (simp add: message_header_def)
  then show "LEELEN_MESSAGE_CODE buf = m_code m" "LEELEN_MESSAGE_ID buf = m_id m"
    unfolding LEELEN_MESSAGE_CODE_def LEELEN_MESSAGE_ID_def by (metis get32_le32)+
qed

text \<open>A message is cut at its end, so its header is in the buffer also when the rest does not fit.\<close>

lemma tostring_header:
  assumes "8 < len" and "len \<le> length buf" and "no_junk m" and "LeelenMessage_tostring m buf len = (buf', cur)"
  shows "take 8 buf' = message_header m" and "8 \<le> cur"
proof -
  note w = tostring_written [OF assms(1-3), unfolded assms(4)]
  then have cur: "cur = 8 + length (message_text m)"
    and t: "take (min cur (len - 1)) buf' = take (len - 1) (message_header m @ message_text m)"
    unfolding written_def by auto
  from cur show "8 \<le> cur" by simp
  have m: "min 8 (min cur (len - 1)) = 8" "min 8 (len - 1) = 8" using assms(1) cur by auto
  have "take 8 buf' = take 8 (take (min cur (len - 1)) buf')" by (simp only: take_take m)
  also have "\<dots> = take 8 (message_header m @ message_text m)" by (simp only: t take_take m)
  also have "\<dots> = message_header m" by simp
  finally show "take 8 buf' = message_header m" .
qed

lemma take_rd: "n \<le> k \<Longrightarrow> n \<le> length buf \<Longrightarrow> take n (rd buf 0 k) = take n buf"
  by (auto intro!: nth_equalityI simp: rd_def at_def)

text \<open>One datagram of \<open>LeelenDialog_send\<close>: its receiver, its header and the dialog after it.\<close>

lemma send_result:
  assumes junk: "no_junk (send_message d code fa fv)" and code: "code \<noteq> LEELEN_CODE_OK"
    and s: "LeelenDialog_send d code fd fa fv w = (r, d', w')"
  shows "same_env w w' \<and>
    (if r = 0 then (\<exists>p. w_sent w' = w_sent w @ [(fd, d_theirs d, p)] \<and> LEELEN_MESSAGE_CODE p = code \<and>
       LEELEN_MESSAGE_ID p = d_id d) \<and> d_id d \<noteq> 0 \<and> d_id d' = d_id d \<and> d_theirs d' = d_theirs d \<and>
       d_state d' = LeelenDialogState_send (d_state d) code
     else d' = d \<and> w_sent w' = w_sent w)"
proof (cases "d_id d = 0 \<or> unat (d_mtu d) < LEELEN_MESSAGE_MIN_SIZE")
  case True
  then have "LeelenDialog_send d code fd fa fv w = (255, d, w)" by (auto simp: LeelenDialog_send_def)
  then show ?thesis using s by simp
next
  case False
  let ?n = "unat (d_mtu d)" and ?m = "send_message d code fa fv"
  have n: "10 < ?n" using False by (simp add: LEELEN_MESSAGE_MIN_SIZE_def LEELEN_MESSAGE_HEADER_SIZE_def LEELEN_NUMBER_STRLEN_def)
  obtain buf cur where t: "LeelenMessage_tostring ?m (replicate ?n NUL) ?n = (buf, cur)" by fastforce
  have h: "take 8 buf = message_header ?m" "8 \<le> cur"
    using tostring_header [OF _ _ junk t] n by simp_all
  define buf2 k where "buf2 = (if cur + 1 \<le> ?n then buf else buf[?n - 1 := NUL])" and "k = (if cur + 1 \<le> ?n then cur + 1 else ?n)"
  have run: "LeelenDialog_sendmsg d buf2 k fd w = (r, d', w')"
    using s False t [unfolded send_message_def] by (auto simp: LeelenDialog_send_def buf2_def k_def Let_def split: if_splits)
  have h2: "take 8 buf2 = message_header ?m" "8 \<le> k" using h n by (simp_all add: buf2_def k_def)
  have "length buf2 = ?n"
    using tostring_keeps [of ?n "replicate ?n NUL" ?m] t by (simp add: buf2_def)
  then have "take 8 (rd buf2 0 k) = message_header ?m" using take_rd [OF h2(2)] h2(1) n by simp
  from header_fields [OF this] header_fields [OF h2(1)] run False code show ?thesis
    by (auto simp: LeelenDialog_sendmsg_def Let_def sys_send_def same_env_def split: if_splits)
qed

section \<open>The offer\<close>

lemma get_sdp_env: "get_sdp k parse bodies w = (r, sdp, w') \<Longrightarrow> same_env w w' \<and> w_sent w' = w_sent w"
  by (induction bodies arbitrary: w) (fastforce simp: sys_def Let_def same_env_def split: if_splits option.splits)+

lemma extract_attributes_env: "extract_attributes as v w = (ok, v', w') \<Longrightarrow> same_env w w' \<and> w_sent w' = w_sent w"
proof (induction as arbitrary: v w)
  case (Cons a as)
  show ?case
  proof (cases "rtpmap_format a")
    case (Some f)
    obtain i v1 w1 where p: "strvpush v f w = (i, v1, w1)" by (metis prod_cases3)
    note strvpush_env [OF p]
    then show ?thesis using Cons.prems Cons.IH [of v1 w1] Some p by (auto simp: same_env_def split: if_splits)
  qed (use Cons in simp)
qed simp

lemma extract_attributes_formats:
  "wf_formats v \<Longrightarrow> extract_attributes as v w = (True, v', w') \<Longrightarrow> wf_formats v'"
  using extract_attributes_ok [of v as w v' w'] by (auto simp: wf_formats_def)

lemma extract_medias_result:
  "wf_formats va \<Longrightarrow> wf_formats vv \<Longrightarrow> extract_medias wa wv medias va vv w = (ok, va', vv', w') \<Longrightarrow>
   same_env w w' \<and> w_sent w' = w_sent w \<and> (ok \<longrightarrow> wf_formats va' \<and> wf_formats vv')"
proof (induction medias arbitrary: va vv w)
  case (Cons media medias)
  consider "extract_medias wa wv medias va vv w = (ok, va', vv', w')"
    | (audio) b v1 w1 where "extract_attributes (a_attributes media) va w = (b, v1, w1)"
        "(ok, va', vv', w') = (if \<not> b then (False, v1, vv, w1) else extract_medias wa wv medias v1 vv w1)"
    | (video) b v1 w1 where "extract_attributes (a_attributes media) vv w = (b, v1, w1)"
        "(ok, va', vv', w') = (if \<not> b then (False, va, v1, w1) else extract_medias wa wv medias va v1 w1)"
    using Cons.prems(3) by (fastforce split: if_splits prod.splits)
  then show ?case
  proof cases
    case 1
    then show ?thesis using Cons by blast
  next
    case audio
    then show ?thesis
      using extract_attributes_env [OF audio(1)] extract_attributes_formats [of va _ w v1 w1] Cons.IH [of v1 vv w1] Cons.prems(1,2)
      by (cases b) (auto simp: same_env_def)
  next
    case video
    then show ?thesis
      using extract_attributes_env [OF video(1)] extract_attributes_formats [of vv _ w v1 w1] Cons.IH [of va v1 w1] Cons.prems(1,2)
      by (cases b) (auto simp: same_env_def)
  qed
qed simp

lemma extract_result:
  "extract_media_formats sdp True True w = (r, va, vv, w') \<Longrightarrow> same_env w w' \<and> w_sent w' = w_sent w \<and> r \<in> {0, 1, - 1} \<and>
   (r = 0 \<longrightarrow> wf_formats (the va) \<and> wf_formats (the vv))"
  using extract_medias_result [OF wf_formats_empty wf_formats_empty]
  by (fastforce simp: extract_media_formats_def split: option.splits prod.splits if_splits)

text \<open>The outcome of \<open>invite_send\<close>: a status, or one \<open>CALL\<close> to the peer of the dialog.\<close>

definition calls :: "int \<Rightarrow> LeelenDialog \<Rightarrow> net \<Rightarrow> net \<Rightarrow> bool" where
  "calls fd d w w' \<longleftrightarrow> (\<exists>p. w_sent w' = w_sent w @ [(fd, d_theirs d, p)] \<and> LEELEN_MESSAGE_CODE p = LEELEN_CODE_CALL \<and>
     LEELEN_MESSAGE_ID p = d_id d \<and> d_id d \<noteq> 0)"

lemma invite_send_result:
  assumes "invite_send lib tr request fd self w = (status, self', w')"
  shows "same_env w w' \<and> n_invite_state self' = n_invite_state self \<and> n_refcount self' = n_refcount self \<and>
    (case status of
       None \<Rightarrow> calls fd (n_leelen self') w w' \<and> d_state (n_leelen self') = CONNECTING \<and> n_transaction self' = Some tr
     | Some c \<Rightarrow> c \<in> {400, 500} \<and> w_sent w' = w_sent w \<and> n_leelen self' = n_leelen self)"
proof -
  obtain c sdp w1 where g: "osip_message_get_sdp (lib_codes lib) (lib_parse_sdp lib) request w = (c, sdp, w1)"
    by (metis prod_cases3)
  obtain r fa fv w2 where x: "extract_media_formats sdp True True w1 = (r, fa, fv, w2)" by (metis prod_cases4)
  obtain q d w3 where s: "LeelenDialog_send (n_leelen self) LEELEN_CODE_CALL fd (the fa) (the fv) w2 = (q, d, w3)"
    by (metis prod_cases3)
  note e1 = get_sdp_env [OF g [unfolded osip_message_get_sdp_def]] and e2 = extract_result [OF x]
  show ?thesis
  proof (cases "r = 0")
    case False
    then show ?thesis using assms g x e1 e2 by (auto simp: invite_send_def same_env_def)
  next
    case True
    then have "no_junk (send_message (n_leelen self) LEELEN_CODE_CALL (the fa) (the fv))"
      using e2 by (simp add: no_junk_def wf_formats_no_junk)
    from send_result [OF this _ s] have sent: "same_env w2 w3"
      "if q = 0 then calls fd d w2 w3 \<and> d_state d = CONNECTING else d = n_leelen self \<and> w_sent w3 = w_sent w2"
      by (auto simp: calls_def leelen_codes LeelenDialogState_send_def split: if_splits)
    have "(status, self', w') = (if q \<noteq> 0 then (Some 500, self\<lparr>n_transaction := Some tr, n_leelen := d\<rparr>, w3)
        else (None, self\<lparr>n_transaction := Some tr, n_leelen := d\<rparr>, w3))"
      using assms g x s True by (auto simp: invite_send_def Let_def)
    then show ?thesis using sent e1 e2 by (cases "q = 0") (auto simp: same_env_def calls_def)
  qed
qed

section \<open>The thread\<close>

lemma draw_id_env: "draw_id fuel i w = Some (j, v) \<Longrightarrow> same_env w v \<and> w_sent v = w_sent w"
  by (induction fuel i w rule: draw_id.induct) (auto simp: sys_rand_def same_env_def split: if_splits)

lemma invite_discover_env:
  "invite_discover fuel found config self w = Some (r, w') \<Longrightarrow> same_env w w' \<and> w_sent w' = w_sent w \<and>
   (case r of Inl c \<Rightarrow> c \<in> {404, 500} | Inr self' \<Rightarrow> \<exists>d. self' = self\<lparr>n_leelen := d\<rparr>)"
  by (cases found)
    (auto simp: invite_discover_def LeelenDialog_init_def discovery_status_def dest!: draw_id_env split: if_splits option.splits sum.splits)

lemma invite_discover_total:
  assumes "1 \<le> fuel" and "take_bit 31 (w_rnd w (w_tick w)) \<noteq> 0"
  shows "invite_discover fuel found config self w \<noteq> None"
  using draw_id_first [OF assms]
  by (cases found) (auto simp: invite_discover_def LeelenDialog_init_def split: sum.splits option.splits)

lemma executes_takes:
  assumes "executes lib sent"
  shows "takes lib sent True"
  unfolding takes_def
proof (intro allI impI)
  fix tr m and s :: "'a device"
  assume ok: "w_ok (s_net s) (w_tick (s_net s))"
  from executesD [OF assms, of tr "(True, m)" "s\<lparr>s_net := step (s_net s)\<rparr>"] obtain x where
    "lib_execute lib tr (True, m) (s\<lparr>s_net := step (s_net s)\<rparr>) = Some (1, s\<lparr>s_net := step (s_net s), s_osip := x\<rparr>)"
    "sent x = sent (s_osip s) @ [(tr, True, m)]" by auto
  with ok show "\<exists>x. osip_transaction_send_sipmessage lib tr m True s = Some (OSIP_SUCCESS, s\<lparr>s_net := step (s_net s), s_osip := x\<rparr>) \<and>
      sent x = sent (s_osip s) @ [(tr, True, m)]"
    by (auto simp: osip_transaction_send_sipmessage_def)
qed

lemma takesD:
  "takes lib sent now \<Longrightarrow> w_ok (s_net s) (w_tick (s_net s)) \<Longrightarrow>
   \<exists>x. osip_transaction_send_sipmessage lib tr m now s = Some (OSIP_SUCCESS, s\<lparr>s_net := step (s_net s), s_osip := x\<rparr>) \<and>
     sent x = sent (s_osip s) @ [(tr, True, m)]"
  unfolding takes_def by blast

text \<open>What the thread has sent and said at its end: a call to LEELEN and no word to the SIP client, or the other way round.\<close>

definition invited :: "('x \<Rightarrow> (nat \<times> osip_event) list) \<Rightarrow> nat \<Rightarrow> osip_message \<Rightarrow> SIPLeelenSession \<Rightarrow> 'x device \<Rightarrow> int \<Rightarrow> 'x device \<Rightarrow> bool" where
  "invited sent tr request self' s ret s' \<longleftrightarrow>
     (if ret = 0 then
        calls (s_socket_leelen s) (n_leelen self') (s_net s) (s_net s') \<and> d_state (n_leelen self') = CONNECTING \<and>
        n_transaction self' = Some tr \<and> s_osip s' = s_osip s \<and> s_trs s' = s_trs s \<and> same_env (s_net s) (s_net s')
      else
        ret = 1 \<and> w_sent (s_net s') = w_sent (s_net s) \<and>
        ((\<exists>status \<in> {400, 404, 500}. replied sent tr request status (s_osip s) (s_osip s')) \<or>
         s_osip s' = s_osip s \<and> \<not> (answerable request \<and> (\<forall>i. w_ok (s_net s) i))))"

text \<open>The end of the thread: the flag says finished and its reference is given back.\<close>

definition handed_back :: "SIPLeelenSession \<Rightarrow> SIPLeelenSession \<Rightarrow> bool" where
  "handed_back self self' \<longleftrightarrow> n_invite_state self' = single_finish (n_invite_state self) \<and>
     n_refcount self' = (if n_refcount self = 1 then 1 else n_refcount self - 1)"

lemma thread_end:
  assumes "s_heap s p = Some self"
  shows "\<exists>s'. (case on_session (\<lambda>self w. ((), self\<lparr>n_invite_state := single_finish (n_invite_state self)\<rparr>, w)) p s of
        None \<Rightarrow> None
      | Some (_, s) \<Rightarrow> (case SIPLeelenSession_decref p s of None \<Rightarrow> None
          | Some (_, s) \<Rightarrow> Some (ret, s\<lparr>s_threads := remove1 tr (s_threads s)\<rparr>))) = Some (ret, s') \<and>
    s_threads s' = remove1 tr (s_threads s) \<and> s_net s' = s_net s \<and> s_osip s' = s_osip s \<and> s_trs s' = s_trs s \<and>
    (\<exists>self'. s_heap s' p = Some self' \<and> handed_back self self' \<and> n_leelen self' = n_leelen self \<and> n_transaction self' = n_transaction self)"
  using assms decref_result [of "put_session p (self\<lparr>n_invite_state := single_finish (n_invite_state self)\<rparr>) s" p]
  by (simp add: on_session_def put_session_def handed_back_def)

lemma invite_process_result:
  assumes "executes lib sent" and "codes_ok (lib_codes lib)" and "s_trs s tr = Some x" and "x_session x = Some p"
    and "s_heap s p = Some self"
    and "d_id (n_leelen self) \<noteq> 0 \<or> 1 \<le> fuel \<and> take_bit 31 (w_rnd (s_net s) (w_tick (s_net s))) \<noteq> 0"
  shows "\<exists>ret s' self'. SIPLeelen_ist_invite_process lib fuel found tr s = Some (ret, s') \<and>
    s_heap s' p = Some self' \<and> handed_back self self' \<and> s_threads s' = remove1 tr (s_threads s) \<and>
    invited sent tr (x_orig_request x) self' s ret s'"
proof -
  let ?req = "x_orig_request x"
  obtain f w where f: "(if d_id (n_leelen self) = 0 then invite_discover fuel found (s_config s) self (s_net s)
      else Some (Inr self, s_net s)) = Some (f, w)"
    using invite_discover_total [of fuel "s_net s" found "s_config s" self] assms(6) by (cases "d_id (n_leelen self) = 0") auto
  have "\<exists>d. self = self\<lparr>n_leelen := d\<rparr>" by (rule exI [of _ "n_leelen self"]) simp
  then have fenv: "same_env (s_net s) w" "w_sent w = w_sent (s_net s)"
      "case f of Inl c \<Rightarrow> c \<in> {404, 500} | Inr self1 \<Rightarrow> \<exists>d. self1 = self\<lparr>n_leelen := d\<rparr>"
    using f invite_discover_env [of fuel found "s_config s" self "s_net s" f w]
    by (auto split: if_splits)
  obtain status self1 w1 where i: "(case f of Inl status \<Rightarrow> (Some status, self, w)
      | Inr self \<Rightarrow> invite_send lib tr ?req (s_socket_leelen s) self w) = (status, self1, w1)"
    by (metis prod_cases3)
  have ienv: "same_env (s_net s) w1" "n_invite_state self1 = n_invite_state self" "n_refcount self1 = n_refcount self"
    "case status of
       None \<Rightarrow> calls (s_socket_leelen s) (n_leelen self1) (s_net s) w1 \<and> d_state (n_leelen self1) = CONNECTING \<and> n_transaction self1 = Some tr
     | Some c \<Rightarrow> c \<in> {400, 404, 500} \<and> w_sent w1 = w_sent (s_net s)"
    using i fenv invite_send_result [of lib tr ?req "s_socket_leelen s" "projr f" w status self1 w1]
    by (cases f; cases status; auto simp: same_env_def calls_def)+
  define s1 where "s1 = put_session p self1 s\<lparr>s_net := w1\<rparr>"
  have s1: "s_heap s1 p = Some self1" "s_trs s1 tr = Some x" "s_net s1 = w1" "s_osip s1 = s_osip s" "s_threads s1 = s_threads s"
    "s_ua s1 = s_ua s" "s_trs s1 = s_trs s"
    using assms(3) by (simp_all add: s1_def put_session_def)
  let ?finish = "\<lambda>r. case r of None \<Rightarrow> None
      | Some (ret, s) \<Rightarrow> (case on_session (\<lambda>self w. ((), self\<lparr>n_invite_state := single_finish (n_invite_state self)\<rparr>, w)) p s of
          None \<Rightarrow> None
        | Some (_, s) \<Rightarrow> (case SIPLeelenSession_decref p s of None \<Rightarrow> None
            | Some (_, s) \<Rightarrow> Some (ret, s\<lparr>s_threads := remove1 tr (s_threads s)\<rparr>)))"
  have run: "SIPLeelen_ist_invite_process lib fuel found tr s = ?finish (case status of None \<Rightarrow> Some (0, s1)
      | Some c \<Rightarrow> (case osip_transaction_response lib tr c (s_ua s1) True s1 of None \<Rightarrow> None | Some (_, s) \<Rightarrow> Some (1, s)))"
    by (simp only: SIPLeelen_ist_invite_process_def assms(3-5) option.case f i prod.case Let_def s1_def)
  obtain ret s2 where r: "(case status of None \<Rightarrow> Some (0, s1)
      | Some c \<Rightarrow> (case osip_transaction_response lib tr c (s_ua s1) True s1 of None \<Rightarrow> None | Some (_, s) \<Rightarrow> Some (1, s))) = Some (ret, s2)"
    "s_heap s2 = s_heap s1" "s_threads s2 = s_threads s" "invited sent tr ?req self1 s ret s2"
  proof (cases status)
    case None
    then show thesis using that [of 0 s1] s1 ienv by (simp add: invited_def)
  next
    case (Some c)
    obtain q v o' where q: "osip_transaction_response lib tr c (s_ua s1) True s1 = Some (q, s1\<lparr>s_net := v, s_osip := o'\<rparr>)"
      "w_sent v = w_sent (s_net s1)" "replied sent tr ?req c (s_osip s1) o' \<or>
         o' = s_osip s1 \<and> \<not> (answerable ?req \<and> (\<forall>i. w_ok (s_net s1) i))"
      using transaction_response_sends [OF executes_takes [OF assms(1)] assms(2) s1(2), of c "s_ua s1"] by blast
    then show thesis using Some that [of 1 "s1\<lparr>s_net := v, s_osip := o'\<rparr>"] s1 ienv by (auto simp: invited_def same_env_def)
  qed
  have "s_heap s2 p = Some self1" using r(2) s1(1) by simp
  from thread_end [OF this, of ret tr] obtain s' self' where e: "?finish (Some (ret, s2)) = Some (ret, s')"
    "s_threads s' = remove1 tr (s_threads s2)" "s_net s' = s_net s2" "s_osip s' = s_osip s2" "s_trs s' = s_trs s2" "s_heap s' p = Some self'"
    "handed_back self1 self'" "n_leelen self' = n_leelen self1" "n_transaction self' = n_transaction self1" by auto
  show ?thesis
  proof (intro exI conjI)
    show "SIPLeelen_ist_invite_process lib fuel found tr s = Some (ret, s')" using run r(1) e(1) by simp
    show "handed_back self self'" using e(7) ienv by (simp add: handed_back_def)
    show "s_threads s' = remove1 tr (s_threads s)" using e(2) r(3) by simp
    show "invited sent tr ?req self' s ret s'" using r(4) by (simp only: invited_def e(3,4,5,8,9))
  qed (fact e(6))
qed

section \<open>Property\<close>


definition threaded_device :: "event_log device" where
  "threaded_device = accepted_device\<lparr>s_threads := [6]\<rparr>"

lemma threaded_device_fields [simp]:
  "s_heap threaded_device = [0 \<mapsto> sample_session]" "s_net threaded_device = calm1" "s_osip threaded_device = []"
  "s_trs threaded_device = [6 \<mapsto> sample_transaction\<lparr>x_session := Some 0\<rparr>]" "s_threads threaded_device = [6]"
  by (simp_all add: threaded_device_def)


end
