(* ===== verification/Call.thy ===== *)
theory Call
  imports Invite
begin

text \<open>
  A call from SIP to LEELEN, from the INVITE to its answer: what the operations of the theories Uas, Uac and SIPLeelen
  do one after the other when nothing fails.
\<close>

section \<open>When nothing fails\<close>

text \<open>A step of the environment that hands nothing to the kernel.\<close>

definition still :: "'p world \<Rightarrow> 'p world \<Rightarrow> bool" where
  "still w w' \<longleftrightarrow> same_env w w' \<and> w_sent w' = w_sent w"

lemma still_refl [simp]: "still w w"
  by (simp add: still_def)

lemma still_step [simp]: "still w (step w)"
  by (simp add: still_def)

lemma still_trans: "still w v \<Longrightarrow> still v u \<Longrightarrow> still w u"
  by (auto simp: still_def same_env_def)

lemma still_step_left: "still (step w) v \<Longrightarrow> still w v"
  by (rule still_trans [OF still_step])

lemma still_ok: "still w w' \<Longrightarrow> w_ok w = (\<lambda>_. True) \<Longrightarrow> w_ok w' = (\<lambda>_. True)"
  by (simp add: still_def same_env_def)

text \<open>What the documentation of \<open>osip_list_add\<close> says for enough memory.\<close>

definition stores :: "('a, 'p world) list_add \<Rightarrow> bool" where
  "stores add \<longleftrightarrow> (\<forall>l x w. w_ok w = (\<lambda>_. True) \<longrightarrow> (\<exists>w'. add l x w = (int (length l) + 1, l @ [x], w') \<and> still w w'))"

lemma storesE:
  assumes "stores add" and "w_ok w = (\<lambda>_. True)"
  obtains w' where "add l x w = (int (length l) + 1, l @ [x], w')" "still w w'" "w_ok w' = (\<lambda>_. True)"
  using assms still_ok unfolding stores_def by metis

lemma add_attribute_calm:
  assumes "stores add" and "w_ok w = (\<lambda>_. True)"
  shows "\<exists>med' w'. sdp_media_add_attribute add med t f v w = (True, med', w') \<and> still w w' \<and> w_ok w' = (\<lambda>_. True)"
proof -
  let ?a = "\<lparr>a_att_field = Some f, a_att_value = Some (if t < 0 then v else showi t @ '' '' @ v)\<rparr>"
  have "w_ok (step (step (step w))) = (\<lambda>_. True)" using assms(2) by simp
  from storesE [OF assms(1) this] obtain w' where
    "add (a_attributes med) ?a (step (step (step w))) = (int (length (a_attributes med)) + 1, a_attributes med @ [?a], w')"
    "still (step (step (step w))) w'" "w_ok w' = (\<lambda>_. True)" .
  then show ?thesis
    using assms(2) by (auto simp: sdp_media_add_attribute_def sys_def Let_def intro: still_step_left)
qed

lemma encode_formats_calm:
  assumes "stores addp" and "stores adda" and "w_ok w = (\<lambda>_. True)"
  shows "\<exists>med' w'. encode_formats addp adda k formats t med w = (True, med', w') \<and> still w w' \<and> w_ok w' = (\<lambda>_. True)"
  using assms(3)
proof (induction formats arbitrary: t med w)
  case (Cons x formats)
  show ?case
  proof (cases x)
    case Null
    then show ?thesis using Cons.prems by simp
  next
    case Junk
    then show ?thesis using Cons.prems by simp
  next
    case (Ptr format)
    obtain ty t' where ty: "rtpformat2type format t k = (ty, t')" by fastforce
    show ?thesis
    proof (cases "ty = 127")
      case True
      then show ?thesis using Cons Ptr ty by simp
    next
      case False
      have "w_ok (step w) = (\<lambda>_. True)" using Cons.prems by simp
      from storesE [OF assms(1) this] obtain w1 where w1:
        "addp (m_payloads med) (showi ty) (step w) = (int (length (m_payloads med)) + 1, m_payloads med @ [showi ty], w1)"
        "still (step w) w1" "w_ok w1 = (\<lambda>_. True)" .
      obtain med2 w2 where w2: "sdp_media_add_attribute adda (med\<lparr>m_payloads := m_payloads med @ [showi ty]\<rparr>) ty ''rtpmap'' format w1 =
          (True, med2, w2)" "still w1 w2" "w_ok w2 = (\<lambda>_. True)"
        using add_attribute_calm [OF assms(2) w1(3)] by blast
      obtain med3 w3 where w3: "encode_formats addp adda k formats t' med2 w2 = (True, med3, w3)" "still w2 w3" "w_ok w3 = (\<lambda>_. True)"
        using Cons.IH [OF w2(3)] by blast
      have "still w w3" using w1(2) w2(2) w3(2) by (blast intro: still_trans still_step_left)
      with Ptr ty False Cons.prems w1(1) w2(1) w3 show ?thesis by (simp add: sys_def Let_def)
    qed
  qed
qed simp

lemma encode_media_calm:
  assumes "stores addp" and "stores adda" and "stores addm" and "w_ok w = (\<lambda>_. True)"
  shows "\<exists>medias' w'. encode_media_formats addp adda addm medias media port formats w = (0, medias', w') \<and> still w w' \<and>
    w_ok w' = (\<lambda>_. True)"
proof (cases "port = 0")
  case False
  let ?w = "step (step (step (step w)))" and ?m = "sdp_media_zero\<lparr>m_media := Some media, m_port := Some (showd (unat port)), m_proto := Some ''RTP/AVP''\<rparr>"
  have "w_ok ?w = (\<lambda>_. True)" using assms(4) by simp
  then obtain m1 w1 where w1: "encode_formats addp adda (media_kind media) (vec formats) RTP_PAYLOAD_DYNAMIC_TYPE ?m ?w = (True, m1, w1)"
      "still ?w w1" "w_ok w1 = (\<lambda>_. True)"
    using encode_formats_calm [OF assms(1,2)] by blast
  obtain m2 w2 where w2: "sdp_media_add_attribute adda m1 127 ''rtpmap'' ''telephone-event/8000'' w1 = (True, m2, w2)" "still w1 w2"
      "w_ok w2 = (\<lambda>_. True)"
    using add_attribute_calm [OF assms(2) w1(3)] by blast
  obtain m3 w3 where w3: "sdp_media_add_attribute adda m2 127 ''fmtp'' ''0-15'' w2 = (True, m3, w3)" "still w2 w3"
      "w_ok w3 = (\<lambda>_. True)"
    using add_attribute_calm [OF assms(2) w2(3)] by blast
  from storesE [OF assms(3) w3(3)] obtain w4 where w4: "addm medias m3 w3 = (int (length medias) + 1, medias @ [m3], w4)"
      "still w3 w4" "w_ok w4 = (\<lambda>_. True)" .
  have "still w w4" using w1(2) w2(2) w3(2) w4(2) by (blast intro: still_trans still_step_left)
  moreover have "encode_header sdp_media_zero media port (step w) = (True, ?m, ?w)"
    using assms(4) by (simp add: encode_header_def sys_def)
  ultimately show ?thesis
    using False assms(4) w1(1) w2(1) w3(1) w4
    by (simp add: encode_media_formats_def encode_media_def encode_tail_def sys_def)
qed (use assms(4) in \<open>simp add: encode_media_formats_def\<close>)

lemma strdups_calm: "w_ok w = (\<lambda>_. True) \<Longrightarrow> \<exists>w'. strdups n w = (True, w') \<and> still w w' \<and> w_ok w' = (\<lambda>_. True)"
proof (induction n arbitrary: w)
  case (Suc n)
  then have "w_ok (step w) = (\<lambda>_. True)" by simp
  from Suc.IH [OF this] Suc.prems show ?case by (auto simp: sys_def intro: still_step_left)
qed simp

lemma sdp_message_create_calm:
  assumes "f \<in> {AF_INET, AF_INET6}" and "w_ok w = (\<lambda>_. True)"
  shows "\<exists>sdp w'. sdp_message_create ntop bad nomem f addr sess name w = (0, Some sdp, w') \<and> still w w' \<and> w_ok w' = (\<lambda>_. True)"
proof -
  note calm = strdups_calm
  have "w_ok (step w) = (\<lambda>_. True)" using assms(2) by simp
  from calm [OF this, of 1] obtain w1 where w1: "strdups 1 (step w) = (True, w1)" "still (step w) w1" "w_ok w1 = (\<lambda>_. True)" by blast
  from calm [OF w1(3), of 6] obtain w2 where w2: "strdups 6 w1 = (True, w2)" "still w1 w2" "w_ok w2 = (\<lambda>_. True)" by blast
  from calm [OF w2(3), of 1] obtain w3 where w3: "strdups 1 w2 = (True, w3)" "still w2 w3" "w_ok w3 = (\<lambda>_. True)" by blast
  from calm [OF w3(3), of 3] obtain w4 where w4: "strdups 3 w3 = (True, w4)" "still w3 w4" "w_ok w4 = (\<lambda>_. True)" by blast
  have "w_ok (step w4) = (\<lambda>_. True)" using w4(3) by simp
  from calm [OF this, of 2] obtain w5 where w5: "strdups 2 (step w4) = (True, w5)" "still (step w4) w5" "w_ok w5 = (\<lambda>_. True)" by blast
  have "still w (step w5)"
    by (rule still_trans [OF still_step_left [OF w1(2)] still_trans [OF w2(2) still_trans [OF w3(2) still_trans [OF w4(2)
        still_trans [OF still_step_left [OF w5(2)] still_step]]]]])
  moreover have "w_ok (step w5) = (\<lambda>_. True)" using w5(3) by simp
  moreover obtain addrtype host where a: "sdp_address ntop f addr = (addrtype, host)" by fastforce
  have f: "(f = AF_INET \<or> f = AF_INET6) = True" using assms(1) by simp
  have ok: "w_ok w (w_tick w) = True" "w_ok w4 (w_tick w4) = True" "w_ok w5 (w_tick w5) = True"
    using assms(2) w4(3) w5(3) by simp_all
  have "sdp_message_create ntop bad nomem f addr sess name w = (0, Some \<lparr>v_version = ''0'',
      o_origin = [''-'', sess, sess, ''IN'', addrtype, host], s_name = name, c_connection = [''IN'', addrtype, host],
      t_descr = [''0'', ''0'']\<rparr>, step w5)"
    by (simp only: sdp_message_create_def sys_def Let_def prod.case f ok w1(1) w2(1) w3(1) w4(1) w5(1) a if_True if_False
        not_True_eq_False simp_thms)
  ultimately show ?thesis by blast
qed

text \<open>What the documentation says of printing a description.\<close>

definition sdp_prints :: "'x osip_lib \<Rightarrow> bool" where
  "sdp_prints lib \<longleftrightarrow> (\<forall>sdp medias. fst (lib_sdp_to_str lib sdp medias) = OSIP_SUCCESS) \<and>
     stores (lib_add_string lib) \<and> stores (lib_add_attribute lib) \<and> stores (lib_add_media lib)"

lemma uac_sdp_calm:
  assumes "sdp_prints lib" and "f \<in> {AF_INET, AF_INET6}" and "w_ok w = (\<lambda>_. True)"
  shows "\<exists>body w'. uac_sdp lib f ours i audio video fa fv w = (Some body, w') \<and> still w w' \<and> w_ok w' = (\<lambda>_. True)"
proof -
  have st: "stores (lib_add_string lib)" "stores (lib_add_attribute lib)" "stores (lib_add_media lib)"
    using assms(1) by (simp_all add: sdp_prints_def)
  obtain sdp w1 where w1: "sdp_message_create (lib_ntop lib) (BADPARAMETER (lib_codes lib)) (NOMEM (lib_codes lib)) f ours
      (showd (unat i)) LEELEN2SIP_NAME w = (0, Some sdp, w1)" "still w w1" "w_ok w1 = (\<lambda>_. True)"
    using sdp_message_create_calm [OF assms(2,3)] by blast
  obtain ma w2 where w2: "(if audio \<noteq> 0 then encode_media_formats (lib_add_string lib) (lib_add_attribute lib) (lib_add_media lib)
      [] ''audio'' audio fa w1 else (0, [], w1)) = (0, ma, w2)" "still w1 w2" "w_ok w2 = (\<lambda>_. True)"
    using encode_media_calm [OF st w1(3), of "[]" "''audio''" audio fa] w1(3) by (cases "audio = 0") auto
  obtain mv w3 where w3: "(if video \<noteq> 0 then encode_media_formats (lib_add_string lib) (lib_add_attribute lib) (lib_add_media lib)
      ma ''video'' video fv w2 else (0, ma, w2)) = (0, mv, w3)" "still w2 w3" "w_ok w3 = (\<lambda>_. True)"
    using encode_media_calm [OF st w2(3), of ma "''video''" video fv] w2(3) by (cases "video = 0") auto
  obtain body where b: "lib_sdp_to_str lib sdp mv = (OSIP_SUCCESS, body)"
    using assms(1) by (metis prod.collapse sdp_prints_def)
  have "still w w3" using w1(2) w2(2) w3(2) by (blast intro: still_trans)
  then show ?thesis using w1(1) w2(1) w3(1,3) b by (simp add: uac_sdp_def)
qed

lemma calm_iff: "(\<forall>i. w_ok w i) \<longleftrightarrow> w_ok w = (\<lambda>_. True)"
  by auto

lemma openaddr46_calm:
  assumes "w_ok w = (\<lambda>_. True)"
  obtains fd w' where "openaddr46 addr flags w = (fd, w')" "0 \<le> fd" "still w w'" "w_ok w' = (\<lambda>_. True)"
proof -
  obtain fd w' where o: "openaddr46 addr flags w = (fd, w')" by fastforce
  have "still w w'" using openaddr46_env [OF o] by (simp add: still_def)
  with o openaddr46_ok [of w addr flags fd w'] assms still_ok that show thesis by auto
qed

lemma connect_medium_calm:
  assumes "w_ok w = (\<lambda>_. True)"
  shows "\<exists>port f' os w'. connect_medium e1 e2 e3 f sip_ours ours theirs op tp w = (Inr port, f', os, w') \<and> still w w' \<and>
    w_ok w' = (\<lambda>_. True)"
proof -
  obtain f1 os1 w1 where c: "connect_leelen f ours theirs op tp w = (True, f1, os1, w1)" "still w w1" "w_ok w1 = (\<lambda>_. True)"
  proof (cases "f_socket1 f < 0")
    case True
    obtain fd w1 where "openaddr46 (ours\<lparr>sa_port := htons op\<rparr>) OPENADDR_REUSEADDR w = (fd, w1)" "0 \<le> fd" "still w w1" "w_ok w1 = (\<lambda>_. True)"
      using openaddr46_calm [OF assms] by blast
    with True that [of "f\<lparr>f_socket1 := fd\<rparr>" _ "step w1"] show ?thesis
      by (auto simp: connect_leelen_def sys_def Let_def intro: still_trans [OF _ still_step])
  next
    case False
    with that [of f "[]" w] assms show ?thesis by (simp add: connect_leelen_def)
  qed
  obtain f2 os2 w2 where o: "(if f_socket2 f1 < 0 then
        let (fd, w) = openaddr46 sip_ours OPENADDR_REUSEADDR w1 in
        if \<not> 0 \<le> fd then (False, f1, os1, w) else (True, f1\<lparr>f_socket2 := fd\<rparr>, os1 @ [(fd, sip_ours, None)], w)
      else (True, f1, os1, w1)) = (True, f2, os2, w2)" "still w1 w2" "w_ok w2 = (\<lambda>_. True)"
  proof (cases "f_socket2 f1 < 0")
    case True
    obtain fd w2 where "openaddr46 sip_ours OPENADDR_REUSEADDR w1 = (fd, w2)" "0 \<le> fd" "still w1 w2" "w_ok w2 = (\<lambda>_. True)"
      using openaddr46_calm [OF c(3)] by blast
    with True that show ?thesis by simp
  next
    case False
    with that c(3) show ?thesis by simp
  qed
  have "still w (step (step w2))"
    by (rule still_trans [OF c(2) still_trans [OF o(2) still_trans [OF still_step still_step]]])
  moreover have "connect_medium e1 e2 e3 f sip_ours ours theirs op tp w =
      (Inr (ucast (w_rnd w2 (w_tick w2 + 1))), f2, os2, step (step w2))"
    using c(1) o(1,3) by (simp add: connect_medium_def sys_def Let_def)
  ultimately show ?thesis using o(3) by auto
qed

lemma connect_used_calm:
  assumes "w_ok w = (\<lambda>_. True)"
  shows "\<exists>port f' os w'. connect_used used p e1 e2 e3 f sip_ours ours theirs op tp w = (Inr port, f', os, w') \<and> still w w' \<and>
    w_ok w' = (\<lambda>_. True)"
proof (cases used)
  case True
  obtain port f' os w' where "connect_medium e1 e2 e3 f sip_ours ours theirs op tp w = (Inr port, f', os, w')" "still w w'"
      "w_ok w' = (\<lambda>_. True)"
    using connect_medium_calm [OF assms] by blast
  with True show ?thesis by (simp add: connect_used_def)
qed (use assms in \<open>simp add: connect_used_def\<close>)

lemma session_connect_calm:
  assumes "w_ok w = (\<lambda>_. True)"
  shows "\<exists>pa pv os fa fv w'. SIPLeelenSession_connect addr audio video self w =
      ((0, pa, pv, os), self\<lparr>n_audio := fa, n_video := fv\<rparr>, w') \<and> still w w' \<and> w_ok w' = (\<lambda>_. True)"
proof -
  let ?d = "n_leelen self" and ?sip = "addr\<lparr>sa_port := 0\<rparr>"
  obtain pa :: "u16 option" and a where a: "(if audio \<and> (d_our_audio_port ?d = 0 \<or> d_their_audio_port ?d = 0) then (Some 0, False) else (None, audio)) =
      (pa, a)" by fastforce
  obtain pv :: "u16 option" and v where v: "(if video \<and> (d_our_video_port ?d = 0 \<or> d_their_video_port ?d = 0) then (Some 0, False) else (None, video)) =
      (pv, v)" by fastforce
  obtain porta fa osa w1 where ca: "connect_used a pa 1 1 2 (n_audio self) ?sip (d_ours ?d) (d_theirs ?d)
      (d_our_audio_port ?d) (d_their_audio_port ?d) w = (Inr porta, fa, osa, w1)" "still w w1" "w_ok w1 = (\<lambda>_. True)"
    using connect_used_calm [OF assms] by blast
  obtain portv fv osv w2 where cv: "connect_used v pv 3 4 4 (n_video self) ?sip (d_ours ?d) (d_theirs ?d)
      (d_our_video_port ?d) (d_their_video_port ?d) w1 = (Inr portv, fv, osv, w2)" "still w1 w2" "w_ok w2 = (\<lambda>_. True)"
    using connect_used_calm [OF ca(3)] by blast
  show ?thesis
  proof (cases "a \<or> v")
    case False
    then have "SIPLeelenSession_connect addr audio video self w =
        ((0, pa, pv, []), self\<lparr>n_audio := n_audio self, n_video := n_video self\<rparr>, w)"
      by (simp add: SIPLeelenSession_connect_def a v)
    then show ?thesis using assms still_refl by blast
  next
    case True
    then have "SIPLeelenSession_connect addr audio video self w =
        ((0, porta, portv, osa @ osv), self\<lparr>n_audio := fa, n_video := fv\<rparr>, w2)"
      using ca(1) cv(1) by (cases a; cases v) (simp_all add: SIPLeelenSession_connect_def a v Let_def)
    then show ?thesis using still_trans [OF ca(2) cv(2)] cv(3) by blast
  qed
qed

section \<open>The answer\<close>

lemma still_env: "same_env w w' \<and> w_sent w' = w_sent w \<Longrightarrow> still w w'"
  by (simp add: still_def)

lemma set_tag_calm:
  assumes "w_ok (s_net s) = (\<lambda>_. True)" and "s_trs s tr = Some x" and "q_to (x_orig_request x) \<noteq> None"
  shows "\<exists>s'. uac_set_tag tr i s = Some (True, s') \<and> still (s_net s) (s_net s')"
proof -
  obtain to where to: "q_to (x_orig_request x) = Some to" using assms(3) by blast
  have "still w (step (step w))" for w :: net by (rule still_trans [OF still_step still_step])
  with assms(1,2) to show ?thesis
    by (cases "g_tag to") (auto simp: uac_set_tag_def on_net_def sys_def put_transaction_def)
qed

lemma send_answer_calm:
  assumes "executes lib sent" and "w_ok (s_net s) = (\<lambda>_. True)" and "s_trs s tr = Some x" and "s_heap s p = Some self"
    and "answerable (x_orig_request x)"
  shows "\<exists>s' sip. uac_send_answer lib p tr body s = Some (Done, s') \<and> still (s_net s) (s_net s') \<and>
    s_heap s' p = Some (self\<lparr>n_sip := sip\<rparr>)"
proof -
  let ?fs = "[(\<lambda>m. m\<lparr>q_bodies := q_bodies m @ [body]\<rparr>),
              (\<lambda>m. m\<lparr>q_content_type := Some (Some ''application'', Some ''sdp'')\<rparr>),
              set_header ''Expires'' ''5;refresher=uac'']"
  obtain m w1 where resp: "osip_message_response (lib_codes lib) (lib_reason lib) (x_orig_request x) 200 (s_ua s) (s_net s) =
      (OSIP_SUCCESS, Some m, w1)" "still (s_net s) w1"
    using response_calm [of "s_net s" "x_orig_request x"] assms(2,5) still_env by fastforce
  note ok1 = still_ok [OF resp(2) assms(2)]
  obtain m' w2 where b: "build ?fs m w1 = (Some m', w2)" "still w1 w2"
    using build_ok [of w1 ?fs m] ok1 still_env by fastforce
  note ok2 = still_ok [OF b(2) ok1]
  note w2 = still_trans [OF resp(2) b(2)]
  define s1 where "s1 = (if n_sip self = None
    then put_session p (self\<lparr>n_sip := Some (lib_dialog_as_uas lib (x_orig_request x) m')\<rparr>) (s\<lparr>s_net := step w2\<rparr>)
    else s\<lparr>s_net := w2\<rparr>)"
  have s1: "w_ok (s_net s1) = (\<lambda>_. True)" "still (s_net s) (s_net s1)"
    using ok2 w2 still_trans [OF w2 still_step] by (simp_all add: s1_def put_session_def)
  have heap: "\<exists>sip. s_heap s1 p = Some (self\<lparr>n_sip := sip\<rparr>)"
    using assms(4) by (cases "n_sip self") (auto simp: s1_def intro: exI [of _ "n_sip self"])
  obtain o' where snd: "osip_transaction_send_sipmessage lib tr m' True s1 =
      Some (OSIP_SUCCESS, s1\<lparr>s_net := step (s_net s1), s_osip := o'\<rparr>)"
    using takesD [OF executes_takes [OF assms(1)], of s1 tr m'] s1(1) by auto
  have "uac_send_answer lib p tr body s = Some (Done, s1\<lparr>s_net := step (s_net s1), s_osip := o'\<rparr>)"
    using assms(3,4) resp(1) b(1) snd ok2
    by (cases "n_sip self") (simp_all add: uac_send_answer_def s1_def on_net_def sys_def del: build.simps)
  then show ?thesis using heap still_trans [OF s1(2) still_step] by fastforce
qed

lemma uac_connecting_calm:
  assumes "executes lib sent" and "sdp_prints lib" and "w_ok (s_net s) = (\<lambda>_. True)" and "s_trs s t = Some x"
    and "x_ctx_type x = IST" and "answerable (x_orig_request x)" and "x_out_af x \<in> {AF_INET, AF_INET6}"
    and "s_heap s p = Some self"
  shows "\<exists>s' self'. uac_connecting lib p (Some t) i fa fv s = Some (Done, s') \<and> still (s_net s) (s_net s') \<and>
    s_heap s' p = Some self' \<and> n_leelen self' = n_leelen self"
proof -
  let ?connect = "SIPLeelenSession_connect (s_addr s) (vec fa \<noteq> []) (vec fv \<noteq> [])"
  obtain pa pv os na nv w1 where c: "?connect self (s_net s) = ((0, pa, pv, os), self\<lparr>n_audio := na, n_video := nv\<rparr>, w1)"
      "still (s_net s) w1" "w_ok w1 = (\<lambda>_. True)"
    using session_connect_calm [OF assms(3)] by blast
  let ?self1 = "self\<lparr>n_audio := na, n_video := nv\<rparr>"
  define s1 where "s1 = put_session p ?self1 s\<lparr>s_net := w1\<rparr>"
  have on: "on_session ?connect p s = Some ((0, pa, pv, os), s1)"
    using assms(8) c(1) by (simp add: on_session_def s1_def)
  have s1: "s_trs s1 t = Some x" "w_ok (s_net s1) = (\<lambda>_. True)" "s_heap s1 p = Some ?self1" "s_net s1 = w1"
    using assms(4) c(3) by (simp_all add: s1_def put_session_def)
  obtain s2 where tag: "uac_set_tag t i s1 = Some (True, s2)" "still (s_net s1) (s_net s2)"
    using set_tag_calm [OF s1(2,1)] assms(6) by (auto simp: answerable_def)
  from set_tag_result [OF tag(1) s1(1)] obtain x' to where s2: "s_heap s2 p = Some ?self1" "s_trs s2 t = Some x'"
      "x_orig_request x' = (x_orig_request x)\<lparr>q_to := Some to\<rparr>"
    using s1(3) by auto
  have req: "answerable (x_orig_request x')" using assms(6) s2(3) by (simp add: answerable_def)
  let ?audio = "case pa of None \<Rightarrow> 0 | Some port \<Rightarrow> port" and ?video = "case pv of None \<Rightarrow> 0 | Some port \<Rightarrow> port"
  obtain body w3 where sdp: "uac_sdp lib (x_out_af x) (n_ours ?self1) i ?audio ?video fa fv (s_net s2) = (Some body, w3)"
      "still (s_net s2) w3" "w_ok w3 = (\<lambda>_. True)"
    using uac_sdp_calm [OF assms(2,7) still_ok [OF tag(2) s1(2)]] by blast
  obtain s' sip where ans: "uac_send_answer lib p t body (s2\<lparr>s_net := w3\<rparr>) = Some (Done, s')" "still w3 (s_net s')"
      "s_heap s' p = Some (?self1\<lparr>n_sip := sip\<rparr>)"
    using send_answer_calm [OF assms(1), of "s2\<lparr>s_net := w3\<rparr>" t x' p ?self1 body] sdp(3) s2(1,2) req by auto
  have "still (s_net s) (s_net s')"
    by (rule still_trans [OF c(2) still_trans [OF tag(2) [unfolded s1(4)] still_trans [OF sdp(2) ans(2)]]])
  moreover have "uac_connecting lib p (Some t) i fa fv s = Some (Done, s')"
    using assms(4,5) on tag(1) s2(1) sdp(1) ans(1) by (simp add: uac_connecting_def Let_def)
  ultimately show ?thesis using ans(3) by fastforce
qed

text \<open>What has been sent when an INVITE is answered with a description, and its request has got a local tag.\<close>

definition answers_invite :: "osip_message \<Rightarrow> osip_message \<Rightarrow> bool" where
  "answers_invite request m \<longleftrightarrow> q_status m = 200 \<and> length (q_bodies m) = 1 \<and>
     (\<exists>to. g_tag to \<noteq> None \<and> mirrors (request\<lparr>q_to := Some to\<rparr>) m)"

lemma theirs_keeps:
  "wf_dialog (d\<lparr>d_theirs := a\<rparr>) = wf_dialog d"
  by (simp add: wf_dialog_def)

lemma invitation_state: "is_invitation code \<Longrightarrow> LeelenDialogState_receive st code = CONNECTED"
  by (auto simp: is_invitation_def LeelenDialogState_receive_def)

lemma invitation_codes: "is_invitation code \<Longrightarrow> code \<noteq> LEELEN_CODE_OK \<and> code \<noteq> LEELEN_CODE_BYE \<and> code \<noteq> LEELEN_CODE_OPEN_GATE"
  by (auto simp: is_invitation_def leelen_codes)

text \<open>The door phone accepts: the session acknowledges the message with one datagram, its dialog is connected, and
  exactly one message goes to the stack, the answer to the INVITE.\<close>

lemma call_answered:
  assumes "executes lib sent" and "codes_ok (lib_codes lib)" and "sdp_prints lib" and "layout_ok stack"
    and "\<forall>k. w_ok (s_net s) k" and "s_heap s p = Some self" and "wf_dialog (n_leelen self)"
    and "d_state (n_leelen self) = CONNECTING" and "n_transaction self = Some t" and "s_trs s t = Some x"
    and "x_ctx_type x = IST" and "answerable (x_orig_request x)" and "x_out_af x \<in> {AF_INET, AF_INET6}"
    and "wf_message m" and "m_id m = d_id (n_leelen self)" and "is_invitation (m_code m)"
    and "sockaddr_same (d_theirs (n_leelen self)) src = Some same"
  shows "\<exists>s' self' v r. SIPLeelenSession_receive lib stack p (packet_of m) fd src s = Some (0, s') \<and>
    s_heap s' p = Some self' \<and> d_state (n_leelen self') = CONNECTED \<and> n_sip self' \<noteq> None \<and>
    w_sent (s_net s') = w_sent (s_net s) @
      [(fd, if same then d_theirs (n_leelen self) else src, packet_of (dialog_message v LEELEN_CODE_OK))] \<and>
    d_id v = d_id (n_leelen self) \<and>
    sent (s_osip s') = sent (s_osip s) @ [(t, True, r)] \<and> answers_invite (x_orig_request x) r"
proof -
  let ?d = "n_leelen self"
  define d where "d = (if same then ?d else ?d\<lparr>d_theirs := src\<rparr>)"
  have d: "wf_dialog d" "d_id d = d_id ?d" "d_state d = CONNECTING" "d_theirs d = (if same then d_theirs ?d else src)"
    using assms(7,8) by (simp_all add: d_def theirs_keeps)
  note codes = invitation_codes [OF assms(16)]
  obtain d' oa ov w v where r: "LeelenDialog_receive d stack (packet_of m) fd True True (s_net s) = (0, d', Some oa, Some ov, w)"
      "d_state d' = LeelenDialogState_receive (d_state d) (m_code m)"
      "w_sent w = w_sent (s_net s) @ [(fd, d_theirs d, packet_of (dialog_message v LEELEN_CODE_OK))]" "d_id v = d_id d"
      "same_env (s_net s) w"
    by (rule receive_packet [OF assms(14) _ _ d(1) assms(4,5), of fd]) (use codes assms(15) d(2) in auto)
  define s1 where "s1 = put_session p (self\<lparr>n_leelen := d'\<rparr>) s\<lparr>s_net := w\<rparr>"
  have s1: "w_ok (s_net s1) = (\<lambda>_. True)" "s_trs s1 t = Some x" "s_heap s1 p = Some (self\<lparr>n_leelen := d'\<rparr>)"
      "s_osip s1 = s_osip s" "s_net s1 = w"
    using r(5) assms(5,10) by (auto simp: s1_def put_session_def same_env_def)
  obtain s' self' where c: "uac_connecting lib p (Some t) (d_id ?d) oa ov s1 = Some (Done, s')" "still (s_net s1) (s_net s')"
      "s_heap s' p = Some self'" "n_leelen self' = d'"
    using uac_connecting_calm [OF assms(1,3) s1(1,2) assms(11-13) s1(3)] by fastforce
  have "uac_dispatch lib p (m_code m) CONNECTING (Some t) (d_id ?d) (Some oa) (Some ov) s1 = Some (Done, s')"
    using codes assms(16) c(1) by (simp add: uac_dispatch_def)
  then have rec: "SIPLeelenSession_receive lib stack p (packet_of m) fd src s = Some (0, s')"
    using assms(6,9,17) codes d(3) r(1)
    by (simp add: SIPLeelenSession_receive_def uac_finish_def Let_def packet_fields(1) flip: d_def s1_def)
  obtain r' where ans: "sent (s_osip s') = sent (s_osip s) @ [(t, True, r')]" "answers_invite (x_orig_request x) r'"
      "n_sip self' \<noteq> None"
    using connecting_result [OF assms(1,2) c(1)] s1(2,4) c(3) by (auto simp: answers_invite_def)
  show ?thesis
  proof (intro exI conjI)
    show "d_state (n_leelen self') = CONNECTED" using c(4) r(2) invitation_state [OF assms(16)] by simp
    show "w_sent (s_net s') = w_sent (s_net s) @
        [(fd, if same then d_theirs ?d else src, packet_of (dialog_message v LEELEN_CODE_OK))]"
      using c(2) s1(5) r(3) d(4) by (simp add: still_def)
    show "d_id v = d_id ?d" using r(4) d(2) by simp
  qed (fact rec c(3) ans)+
qed

section \<open>Property\<close>


definition parsing_lib :: "event_log osip_lib" where
  "parsing_lib = sample_lib\<lparr>lib_parse_sdp := \<lambda>_. Some []\<rparr>"

lemma parsing_lib_fields [simp]:
  "lib_codes parsing_lib = sample_codes" "lib_parse_sdp parsing_lib b = Some []"
  by (simp_all add: parsing_lib_def)

lemma parsing_lib_laws: "executes parsing_lib (\<lambda>x. x)" "sdp_prints parsing_lib"
  by (simp_all add: executes_def sdp_prints_def stores_def parsing_lib_def sample_lib_def list_append_add_def OSIP_SUCCESS_def)

definition phone :: sockaddr_in46 where
  "phone = sockaddr_zero\<lparr>sa_family := AF_INET6\<rparr>"

definition phone_dialog :: LeelenDialog where
  "phone_dialog = sample_dialog\<lparr>d_theirs := phone\<rparr>"

definition phone_device :: "event_log device" where
  "phone_device = sample_log_device\<lparr>s_heap := [0 \<mapsto> sample_session\<lparr>n_leelen := phone_dialog\<rparr>],
     s_trs := [6 \<mapsto> sample_transaction\<lparr>x_session := Some 0, x_orig_request := sdp_request\<rparr>]\<rparr>"

lemma phone_device_fields [simp]:
  "s_heap phone_device = [0 \<mapsto> sample_session\<lparr>n_leelen := phone_dialog\<rparr>]" "s_net phone_device = calm1" "s_osip phone_device = []"
  "s_trs phone_device = [6 \<mapsto> sample_transaction\<lparr>x_session := Some 0, x_orig_request := sdp_request\<rparr>]"
  by (simp_all add: phone_device_def sample_log_device_def)

lemma wf_phone_dialog: "wf_dialog phone_dialog" "d_id phone_dialog = 9" "unat (d_mtu phone_dialog) = 1200" "d_theirs phone_dialog = phone"
  using wf_sample_dialog(1) by (simp_all add: phone_dialog_def wf_dialog_def) (simp_all add: sample_dialog_def)

lemma phone_send:
  assumes "w_ok w (w_tick w)"
  shows "\<exists>d w'. LeelenDialog_send phone_dialog LEELEN_CODE_CALL fd ptrv_empty ptrv_empty w = (0, d, w') \<and> wf_dialog d \<and> d_theirs d = phone"
proof -
  have wf: "wf_message (send_message phone_dialog LEELEN_CODE_CALL ptrv_empty ptrv_empty)"
    by (rule wf_send_message) (simp_all add: wf_phone_dialog members_def slots_def)
  have fits: "8 + length (message_text (send_message phone_dialog LEELEN_CODE_CALL ptrv_empty ptrv_empty)) < unat (d_mtu phone_dialog)"
    using fits_empty [OF wf_phone_dialog(1), of LEELEN_CODE_CALL] wf_phone_dialog(3)
    by (simp add: LEELEN_MESSAGE_MIN_SIZE_def LEELEN_MESSAGE_HEADER_SIZE_def LEELEN_NUMBER_STRLEN_def)
  show ?thesis
    using send_packet [OF wf _ fits, of fd w] assms wf_phone_dialog
    by (simp add: sys_send_def after_send_def leelen_codes LEELEN_MESSAGE_MIN_SIZE_def LEELEN_MESSAGE_HEADER_SIZE_def
        LEELEN_NUMBER_STRLEN_def wf_dialog_def)
qed

lemma phone_called:
  "\<exists>s1 self1. SIPLeelen_ist_invite_process parsing_lib 1 (0, sockaddr_zero) 6 phone_device = Some (0, s1) \<and>
     s_heap s1 0 = Some self1 \<and> wf_dialog (n_leelen self1) \<and> d_theirs (n_leelen self1) = phone"
proof -
  let ?self = "sample_session\<lparr>n_leelen := phone_dialog\<rparr>"
  have "q_bodies sdp_request = [''v=0'']" by (simp add: sdp_request_def)
  then have g: "osip_message_get_sdp sample_codes (lib_parse_sdp parsing_lib) sdp_request calm1 = (OSIP_SUCCESS, Some [], step (step calm1))"
    by (simp add: osip_message_get_sdp_def sys_def)
  obtain d w where s: "LeelenDialog_send phone_dialog LEELEN_CODE_CALL (s_socket_leelen phone_device) ptrv_empty ptrv_empty
      (step (step calm1)) = (0, d, w)" "wf_dialog d" "d_theirs d = phone"
    using phone_send [of "step (step calm1)" "s_socket_leelen phone_device"] by (simp only: step_fields calm1_fields simp_thms) blast
  have "invite_send parsing_lib 6 sdp_request (s_socket_leelen phone_device) ?self calm1 =
      (None, ?self\<lparr>n_transaction := Some 6, n_leelen := d\<rparr>, w)"
    using g s(1) by (simp add: invite_send_def extract_media_formats_def)
  moreover define s1 where "s1 = put_session 0 (?self\<lparr>n_transaction := Some 6, n_leelen := d\<rparr>) phone_device\<lparr>s_net := w\<rparr>"
  moreover have "s_heap s1 0 = Some (?self\<lparr>n_transaction := Some 6, n_leelen := d\<rparr>)" by (simp add: s1_def put_session_def)
  moreover note thread_end [OF this, of 0 6]
  ultimately show ?thesis
    using s(2,3) wf_phone_dialog(2) by (auto simp: SIPLeelen_ist_invite_process_def Let_def)
qed


end
