(* ===== verification/Hangup.thy ===== *)
theory Hangup
  imports Call
begin

text \<open>
  The end of a call, from either side: what the operations of the theories Uas, Uac and Session do one after the other
  until the LEELEN dialog is disconnected and the SIP side has been told.
\<close>

section \<open>The BYE of the device\<close>

lemma request_env:
  assumes "osip_message_request k via add dialog meth ua w = (r, m, dialog', w')" and "o_route_set dialog = []"
  shows "still w w'"
proof -
  have routes: "request_routes add (next_cseq meth dialog) m v =
      build [\<lambda>m. m\<lparr>q_req_uri := o_remote_contact_uri dialog\<rparr>] m v" for m v
    using assms(2) by (simp add: request_routes_def next_cseq_def)
  show ?thesis
    using assms(1) routes
    by (auto simp: osip_message_request_def Let_def still_def same_env_def simp del: build.simps
        dest!: sys_world build_env set_now_env split: if_splits prod.splits option.splits)
qed

text \<open>What the documentation of \<open>osip_create_transaction\<close> says for enough memory: a transaction that was not there before.\<close>

definition makes_transactions :: "'x osip_lib \<Rightarrow> ('x \<Rightarrow> (nat \<times> osip_event) list) \<Rightarrow> bool" where
  "makes_transactions lib sent \<longleftrightarrow>
     (\<forall>e s. finite (dom (s_trs s)) \<longrightarrow> (\<exists>tr x o'. lib_create lib e s = (Some tr, put_transaction tr x (s\<lparr>s_osip := o'\<rparr>)) \<and> s_trs s tr = None \<and>
        sent o' = sent (s_osip s)))"

text \<open>One BYE in the dialog of the session, sent in a new transaction that holds a reference to the session.\<close>

definition bye_sent :: "('x \<Rightarrow> (nat \<times> osip_event) list) \<Rightarrow> nat \<Rightarrow> osip_dialog \<Rightarrow> SIPLeelenSession \<Rightarrow> 'x device \<Rightarrow> 'x device \<Rightarrow> bool" where
  "bye_sent sent p dialog self s s' \<longleftrightarrow>
     (\<exists>tr x r self'. s_trs s tr = None \<and> s_trs s' tr = Some x \<and> x_session x = Some p \<and>
        sent (s_osip s') = sent (s_osip s) @ [(tr, True, r)] \<and> in_dialog dialog ''BYE'' r \<and>
        s_heap s' p = Some self' \<and> n_leelen self' = n_leelen self \<and> n_sip self' = Some (next_cseq ''BYE'' dialog) \<and>
        n_refcount self' = snd (refcount_inc (n_refcount self)))"

lemma bye_sip_calm:
  assumes "executes lib sent" and "makes_transactions lib sent" and "codes_ok (lib_codes lib)"
    and "w_ok (s_net s) = (\<lambda>_. True)" and "s_heap s p = Some self" and "n_sip self = Some dialog"
    and "complete dialog" and "o_route_set dialog = []" and "finite (dom (s_trs s))"
  shows "\<exists>s'. SIPLeelenSession_bye_sip lib p True s = Some (0, s') \<and> still (s_net s) (s_net s') \<and> bye_sent sent p dialog self s s'"
proof -
  obtain r d w where q: "osip_message_request (lib_codes lib) (lib_via lib) (lib_list_add lib) dialog ''BYE'' (s_ua s) (s_net s) =
      (OSIP_SUCCESS, Some r, d, w)"
    using request_calm [of "s_net s" dialog] assms(4,7,8) by metis
  from request_SUCCESS [OF q assms(3,8)] have r: "in_dialog dialog ''BYE'' r" "d = next_cseq ''BYE'' dialog" by auto
  note env = request_env [OF q assms(8)]
  note ok = still_ok [OF env assms(4)]
  define s1 where "s1 = (put_session p (self\<lparr>n_sip := Some d\<rparr>) s)\<lparr>s_net := step w\<rparr>"
  have s1: "s_trs s1 = s_trs s" by (simp add: s1_def put_session_def)
  obtain tr x o1 where c: "lib_create lib (True, r) s1 = (Some tr, put_transaction tr x (s1\<lparr>s_osip := o1\<rparr>))"
      "s_trs s1 tr = None" "sent o1 = sent (s_osip s1)"
    using assms(2,9) unfolding makes_transactions_def by (metis s1(1))
  define s2 where "s2 = put_transaction tr x (s1\<lparr>s_osip := o1\<rparr>)"
  let ?self = "SIPLeelenSession_incref (self\<lparr>n_sip := Some d,
      n_transaction := (if n_transaction self = None then Some tr else n_transaction self)\<rparr>)"
  let ?x = "x\<lparr>x_out_socket := s_socket_sip s2, x_session := Some p, x_out_af := sa_family (s_addr s2)\<rparr>"
  have s2: "s_heap s2 p = Some (self\<lparr>n_sip := Some d\<rparr>)" "s_trs s2 tr = Some x" "s_net s2 = step w" "s_osip s2 = o1"
    by (simp_all add: s2_def s1_def put_transaction_def put_session_def)
  have at: "attach_transaction p tr (s_socket_sip s2) (sa_family (s_addr s2)) s2 = Some (put_session p ?self (put_transaction tr ?x s2))"
    using s2(1,2) by (simp add: attach_transaction_def)
  let ?s3 = "put_session p ?self (put_transaction tr ?x s2)"
  obtain o2 where ex: "lib_execute lib tr (True, r) ?s3 = Some (1, ?s3\<lparr>s_osip := o2\<rparr>)" "sent o2 = sent o1 @ [(tr, True, r)]"
    using executesD [OF assms(1), of tr "(True, r)" ?s3] s2(4) by (auto simp: put_session_def put_transaction_def)
  have "SIPLeelenSession_bye_sip lib p True s = Some (0, ?s3\<lparr>s_osip := o2\<rparr>)"
    using assms(5,6) q ok c(1) at ex(1)
    by (simp add: SIPLeelenSession_bye_sip_def on_net_def sys_def Let_def flip: s1_def s2_def)
  moreover have "still (s_net s) (s_net (?s3\<lparr>s_osip := o2\<rparr>))"
    using still_trans [OF env still_step] s2(3) by (simp add: put_session_def put_transaction_def)
  moreover have "bye_sent sent p dialog self s (?s3\<lparr>s_osip := o2\<rparr>)"
    using c(2,3) ex(2) r by (simp add: bye_sent_def s1_def put_session_def put_transaction_def SIPLeelenSession_incref_def)
  ultimately show ?thesis by blast
qed

section \<open>The peer hangs up\<close>

lemma hung_up_by_phone:
  assumes "executes lib sent" and "makes_transactions lib sent" and "codes_ok (lib_codes lib)" and "layout_ok stack"
    and "\<forall>k. w_ok (s_net s) k" and "s_heap s p = Some self" and "wf_dialog (n_leelen self)"
    and "d_state (n_leelen self) \<in> {CONNECTED, DISCONNECTING}" and "n_sip self = Some dialog" and "complete dialog"
    and "o_route_set dialog = []" and "finite (dom (s_trs s))"
    and "wf_message m" and "m_id m = d_id (n_leelen self)" and "m_code m = LEELEN_CODE_BYE"
    and "sockaddr_same (d_theirs (n_leelen self)) src = Some same"
  shows "\<exists>s' d v. SIPLeelenSession_receive lib stack p (packet_of m) fd src s = Some (0, s') \<and>
    d_state d = DISCONNECTED \<and> d_id d = d_id (n_leelen self) \<and>
    w_sent (s_net s') = w_sent (s_net s) @
      [(fd, if same then d_theirs (n_leelen self) else src, packet_of (dialog_message v LEELEN_CODE_OK))] \<and>
    d_id v = d_id (n_leelen self) \<and> bye_sent sent p dialog (self\<lparr>n_leelen := d\<rparr>) s s'"
proof -
  let ?d = "n_leelen self"
  define d where "d = (if same then ?d else ?d\<lparr>d_theirs := src\<rparr>)"
  have d: "wf_dialog d" "d_id d = d_id ?d" "d_state d = d_state ?d" "d_theirs d = (if same then d_theirs ?d else src)"
    using assms(7) by (simp_all add: d_def theirs_keeps)
  obtain d' oa ov w v where r: "LeelenDialog_receive d stack (packet_of m) fd True True (s_net s) = (0, d', Some oa, Some ov, w)"
      "d_state d' = LeelenDialogState_receive (d_state d) (m_code m)" "d_id d' = d_id d"
      "w_sent w = w_sent (s_net s) @ [(fd, d_theirs d, packet_of (dialog_message v LEELEN_CODE_OK))]" "d_id v = d_id d"
      "same_env (s_net s) w"
    by (rule receive_packet [OF assms(13) _ _ d(1) assms(4,5), of fd]) (use assms(14,15) d(2) in \<open>auto simp: leelen_codes\<close>)
  define s1 where "s1 = put_session p (self\<lparr>n_leelen := d'\<rparr>) s\<lparr>s_net := w\<rparr>"
  have s1: "w_ok (s_net s1) = (\<lambda>_. True)" "s_heap s1 p = Some (self\<lparr>n_leelen := d'\<rparr>)" "s_osip s1 = s_osip s" "s_net s1 = w"
      "s_trs s1 = s_trs s"
    using r(6) assms(5) by (auto simp: s1_def put_session_def same_env_def)
  obtain s' where b: "SIPLeelenSession_bye_sip lib p True s1 = Some (0, s')" "still w (s_net s')"
      "bye_sent sent p dialog (self\<lparr>n_leelen := d'\<rparr>) s1 s'"
    using bye_sip_calm [OF assms(1-3) s1(1,2) _ assms(10,11)] assms(9,12) s1(4,5) by auto
  have "uac_dispatch lib p (m_code m) (d_state ?d) (n_transaction self) (d_id ?d) (Some oa) (Some ov) s1 = Some (Done, s')"
    using assms(8,15) b(1) by (auto simp: uac_dispatch_def)
  then have rec: "SIPLeelenSession_receive lib stack p (packet_of m) fd src s = Some (0, s')"
    using assms(6,15,16) d(3) r(1)
    by (simp add: SIPLeelenSession_receive_def uac_finish_def Let_def packet_fields(1) leelen_codes flip: d_def s1_def)
  show ?thesis
  proof (intro exI conjI)
    show "d_state d' = DISCONNECTED" using r(2) assms(15) by (simp add: LeelenDialogState_receive_def leelen_codes)
    show "w_sent (s_net s') = w_sent (s_net s) @
        [(fd, if same then d_theirs ?d else src, packet_of (dialog_message v LEELEN_CODE_OK))]"
      using b(2) r(4) d(4) by (simp add: still_def)
    show "d_id d' = d_id ?d" "d_id v = d_id ?d" using r(3,5) d(2) by simp_all
    show "bye_sent sent p dialog (self\<lparr>n_leelen := d'\<rparr>) s s'" using b(3) s1(3,5) by (simp add: bye_sent_def)
  qed (fact rec)
qed

section \<open>The SIP client hangs up\<close>

text \<open>An acknowledgement that comes in time: nothing is sent back.\<close>

lemma receive_ok:
  assumes "wf_message m" and "m_code m = LEELEN_CODE_OK" and "m_id m = d_id d" and "layout_ok stack"
    and "\<forall>k. w_ok w k" and "\<not> fst (LeelenDialog_ack_timeout d w)"
  obtains d' oa ov w' where "LeelenDialog_receive d stack (packet_of m) fd True True w = (0, d', Some oa, Some ov, w')"
    "d_state d' = LeelenDialogState_ack (d_state d)" "still w w'"
proof -
  obtain d1 w1 where t: "LeelenDialog_ack_timeout d w = (False, d1, w1)"
    using assms(6) by (cases "LeelenDialog_ack_timeout d w") auto
  then have d1: "d1 = d" "still w w1"
    by (auto simp: LeelenDialog_ack_timeout_def Let_def split: if_splits)
  let ?d = "d\<lparr>d_state := LeelenDialogState_ack (d_state d)\<rparr>"
  obtain r m1 w2 where p: "LeelenMessage_init stack (packet_of m) False False w1 = (r, m1, w2)" by (metis prod_cases3)
  note i = init_message [OF assms(1) packet_fields(3) packet_text [OF assms(1)] assms(4) p]
  have e: "still w w2" using d1(2) LeelenMessage_init_env [OF p] by (simp add: still_def same_env_def)
  have ok: "\<forall>k. w_ok w1 k" using d1(2) assms(5) by (simp add: still_def same_env_def)
  have r: "r = 0" using i ok by simp
  let ?v = "(verify_message m1 ?d)\<lparr>d_last_activity := fst (w_now w2 (w_tick w2))\<rparr>"
  have "LeelenDialog_receive d stack (packet_of m) fd True True w =
      (0, ?v, Some (m_audio_formats m1), Some (m_video_formats m1), step w2)"
    using assms(2,3) t d1(1) p r
    by (simp add: LeelenDialog_receive_def receive_rest_def receive_parsed_def Let_def packet_fields(1,2))
  moreover have "d_state ?v = LeelenDialogState_ack (d_state d)" by (simp add: verify_message_form)
  ultimately show thesis using that still_trans [OF e still_step] by blast
qed

lemma bye_leelen_calm:
  assumes "wf_dialog (n_leelen self)" and "d_id (n_leelen self) \<noteq> 0" and "d_state (n_leelen self) = CONNECTED"
    and "\<forall>k. w_ok w k" and "clock_set w"
  shows "\<exists>self' w'. SIPLeelenSession_bye_leelen fd self w = (0, self', w') \<and>
    self' = self\<lparr>n_leelen := n_leelen self'\<rparr> \<and> d_state (n_leelen self') = DISCONNECTING \<and>
    d_id (n_leelen self') = d_id (n_leelen self) \<and> d_theirs (n_leelen self') = d_theirs (n_leelen self) \<and>
    fst (d_last_sent (n_leelen self')) \<noteq> 0 \<and>
    w_sent w' = w_sent w @ [(fd, d_theirs (n_leelen self), packet_of (dialog_message (n_leelen self) LEELEN_CODE_BYE))] \<and>
    same_env w w'"
  using sendcode_packet [OF assms(1), of LEELEN_CODE_BYE fd w] assms(2-5)
  by (simp add: SIPLeelenSession_bye_leelen_def LeelenDialog_may_bye_def sys_send_def after_send_def leelen_codes
      LeelenDialogState_send_def same_env_def clock_set_def)

text \<open>The BYE of the client, and the acknowledgement of the LEELEN BYE that it causes.\<close>

lemma hung_up_by_client:
  assumes "records lib sent" and "codes_ok (lib_codes lib)" and "layout_ok stack" and "\<forall>k. w_ok (s_net s) k"
    and "s_trs s tr = Some x" and "x_session x = Some p" and "answerable (x_orig_request x)"
    and "s_heap s p = Some self" and "wf_dialog (n_leelen self)" and "d_id (n_leelen self) \<noteq> 0"
    and "d_state (n_leelen self) = CONNECTED" and "clock_set (s_net s)"
  shows "\<exists>s1 self1. SIPLeelen_nist_bye lib OSIP_NIST_BYE tr s = Some s1 \<and>
    replied sent tr (x_orig_request x) 200 (s_osip s) (s_osip s1) \<and>
    w_sent (s_net s1) = w_sent (s_net s) @ [(s_socket_leelen s, d_theirs (n_leelen self),
      packet_of (dialog_message (n_leelen self) LEELEN_CODE_BYE))] \<and>
    s_heap s1 p = Some self1 \<and> d_state (n_leelen self1) = DISCONNECTING \<and> same_env (s_net s) (s_net s1) \<and>
    d_id (n_leelen self1) = d_id (n_leelen self) \<and> d_theirs (n_leelen self1) = d_theirs (n_leelen self) \<and>
    fst (d_last_sent (n_leelen self1)) \<noteq> 0"
proof -
  let ?d = "n_leelen self"
  obtain self1 w where b: "SIPLeelenSession_bye_leelen (s_socket_leelen s) self (s_net s) = (0, self1, w)"
      "d_state (n_leelen self1) = DISCONNECTING" "d_id (n_leelen self1) = d_id ?d" "d_theirs (n_leelen self1) = d_theirs ?d"
      "fst (d_last_sent (n_leelen self1)) \<noteq> 0" "w_sent w = w_sent (s_net s) @ [(s_socket_leelen s, d_theirs ?d, packet_of (dialog_message ?d LEELEN_CODE_BYE))]"
      "same_env (s_net s) w"
    using bye_leelen_calm [OF assms(9-11,4,12)] by blast
  let ?s = "put_session p self1 s\<lparr>s_net := w\<rparr>"
  have on: "on_session (SIPLeelenSession_bye_leelen (s_socket_leelen s)) p s = Some (0, ?s)"
    using assms(8) b(1) by (simp add: on_session_def)
  have x: "s_trs ?s tr = Some x" using assms(5) by (simp add: put_session_def)
  obtain r v o' where q: "osip_transaction_response lib tr 200 (s_ua ?s) False ?s = Some (r, ?s\<lparr>s_net := v, s_osip := o'\<rparr>)"
      "same_env (s_net ?s) v" "w_sent v = w_sent (s_net ?s)" "replied sent tr (x_orig_request x) 200 (s_osip ?s) o' \<or>
       o' = s_osip ?s \<and> \<not> (answerable (x_orig_request x) \<and> (\<forall>i. w_ok (s_net ?s) i))"
    using transaction_response_queued [OF assms(1,2) x, of 200 "s_ua ?s"] by blast
  have "SIPLeelen_nist_bye lib OSIP_NIST_BYE tr s = Some (?s\<lparr>s_net := v, s_osip := o'\<rparr>)"
    using assms(5,6,8,11) on q(1) by (simp add: SIPLeelen_nist_bye_def)
  then show ?thesis
    using q(2-4) b assms(4,7) by (intro exI [of _ "?s\<lparr>s_net := v, s_osip := o'\<rparr>"] exI [of _ self1])
      (auto simp: put_session_def same_env_def)
qed

text \<open>An acknowledgement for a session that is disconnecting ends its LEELEN dialog and does nothing else.\<close>

lemma disconnecting_acknowledged:
  assumes "layout_ok stack" and "\<forall>k. w_ok (s_net s) k" and "s_heap s p = Some self" and "d_state (n_leelen self) = DISCONNECTING"
    and "\<not> fst (LeelenDialog_ack_timeout (n_leelen self) (s_net s))"
    and "wf_message m" and "m_id m = d_id (n_leelen self)" and "m_code m = LEELEN_CODE_OK"
    and "sockaddr_same (d_theirs (n_leelen self)) src = Some same"
  shows "\<exists>s' d. SIPLeelenSession_receive lib stack p (packet_of m) fd src s = Some (0, s') \<and>
    s_heap s' p = Some (self\<lparr>n_leelen := d\<rparr>) \<and> d_state d = DISCONNECTED \<and> s_osip s' = s_osip s \<and> still (s_net s) (s_net s')"
proof -
  define d where "d = (if same then n_leelen self else (n_leelen self)\<lparr>d_theirs := src\<rparr>)"
  have d: "d_id d = d_id (n_leelen self)" "d_state d = DISCONNECTING" "fst (LeelenDialog_ack_timeout d (s_net s)) = False"
    using assms(4,5) by (auto simp: d_def LeelenDialog_ack_timeout_def Let_def split: if_splits)
  obtain d' oa ov w where r: "LeelenDialog_receive d stack (packet_of m) fd True True (s_net s) = (0, d', Some oa, Some ov, w)"
      "d_state d' = LeelenDialogState_ack (d_state d)" "still (s_net s) w"
    by (rule receive_ok [OF assms(6,8) _ assms(1,2), of d fd]) (use assms(7) d in auto)
  let ?s = "put_session p (self\<lparr>n_leelen := d'\<rparr>) s\<lparr>s_net := w\<rparr>"
  have "SIPLeelenSession_receive lib stack p (packet_of m) fd src s = Some (0, ?s)"
    using assms(3,4,8,9) r(1) d(2)
    by (simp add: SIPLeelenSession_receive_def uac_dispatch_def uac_finish_def is_invitation_def Let_def packet_fields(1)
        leelen_codes flip: d_def)
  then show ?thesis using r(2,3) d(2) by (intro exI [of _ ?s] exI [of _ d']) (simp add: put_session_def)
qed

text \<open>An acknowledgement that comes too late: the dialog is taken for connected again.\<close>

lemma disconnecting_late:
  assumes "s_heap s p = Some self" and "d_state (n_leelen self) = DISCONNECTING" and "fst (d_last_sent (n_leelen self)) \<noteq> 0"
    and "fst (LeelenDialog_ack_timeout (n_leelen self) (s_net s))"
    and "m_id m = d_id (n_leelen self)" and "m_code m = LEELEN_CODE_OK"
    and "sockaddr_same (d_theirs (n_leelen self)) src = Some same"
  shows "\<exists>s' d. SIPLeelenSession_receive lib stack p (packet_of m) fd src s = Some (1, s') \<and>
    s_heap s' p = Some (self\<lparr>n_leelen := d\<rparr>) \<and> d_state d = CONNECTED \<and> s_osip s' = s_osip s \<and> still (s_net s) (s_net s')"
proof -
  define d where "d = (if same then n_leelen self else (n_leelen self)\<lparr>d_theirs := src\<rparr>)"
  let ?d = "d\<lparr>d_last_sent := (0, snd (d_last_sent d)), d_state := CONNECTED\<rparr>"
  have d: "d_id d = d_id (n_leelen self)" "LeelenDialog_ack_timeout d (s_net s) = (True, ?d, step (s_net s))"
    using assms(2-4) by (auto simp: d_def LeelenDialog_ack_timeout_def Let_def split: if_splits)
  have r: "LeelenDialog_receive d stack (packet_of m) fd True True (s_net s) = (254, ?d, None, None, step (s_net s))"
    using assms(5,6) d by (simp add: LeelenDialog_receive_def packet_fields(1,2))
  let ?s = "put_session p (self\<lparr>n_leelen := ?d\<rparr>) s\<lparr>s_net := step (s_net s)\<rparr>"
  have "SIPLeelenSession_receive lib stack p (packet_of m) fd src s = Some (1, ?s)"
    using assms(1,6,7) r by (simp add: SIPLeelenSession_receive_def Let_def packet_fields(1) leelen_codes flip: d_def)
  then show ?thesis by (intro exI [of _ ?s] exI [of _ ?d]) (simp add: put_session_def)
qed

section \<open>Properties\<close>


text \<open>C4. The SIP client hangs up: its BYE on a connected session is answered with 200, and one LEELEN BYE with the ID of the dialog goes
  to the door phone. The acknowledgement of the phone, when it comes in time, disconnects the dialog, and neither
  side hears anything more. When it comes too late, the dialog is taken for connected again, although the SIP
  client has gone.\<close>

theorem call_ended_by_client:
  assumes "records lib sent" and "codes_ok (lib_codes lib)" and "layout_ok stack" and "\<forall>k. w_ok (s_net s) k"
    and "clock_set (s_net s)" and "s_trs s tr = Some x" and "x_session x = Some p" and "answerable (x_orig_request x)"
    and "s_heap s p = Some self" and "wf_dialog (n_leelen self)" and "d_id (n_leelen self) \<noteq> 0"
    and "d_state (n_leelen self) = CONNECTED"
    and "wf_message m" and "m_id m = d_id (n_leelen self)" and "m_code m = LEELEN_CODE_OK"
    and "sockaddr_same (d_theirs (n_leelen self)) src = Some same"
  shows "\<exists>s1 self1 bye r s2 self2. SIPLeelen_nist_bye lib OSIP_NIST_BYE tr s = Some s1 \<and>
    replied sent tr (x_orig_request x) 200 (s_osip s) (s_osip s1) \<and>
    w_sent (s_net s1) = w_sent (s_net s) @ [(s_socket_leelen s, d_theirs (n_leelen self), bye)] \<and>
    LEELEN_MESSAGE_CODE bye = LEELEN_CODE_BYE \<and> LEELEN_MESSAGE_ID bye = d_id (n_leelen self) \<and> s_heap s1 p = Some self1 \<and>
    SIPLeelenSession_receive lib stack p (packet_of m) fd src s1 = Some (r, s2) \<and> s_heap s2 p = Some self2 \<and>
    s_osip s2 = s_osip s1 \<and> w_sent (s_net s2) = w_sent (s_net s1) \<and>
    (if fst (LeelenDialog_ack_timeout (n_leelen self1) (s_net s1)) then r = 1 \<and> d_state (n_leelen self2) = CONNECTED
     else r = 0 \<and> d_state (n_leelen self2) = DISCONNECTED)"
proof -
  let ?bye = "packet_of (dialog_message (n_leelen self) LEELEN_CODE_BYE)"
  obtain s1 self1 where b: "SIPLeelen_nist_bye lib OSIP_NIST_BYE tr s = Some s1"
      "replied sent tr (x_orig_request x) 200 (s_osip s) (s_osip s1)"
      "w_sent (s_net s1) = w_sent (s_net s) @ [(s_socket_leelen s, d_theirs (n_leelen self), ?bye)]"
      "s_heap s1 p = Some self1" "d_state (n_leelen self1) = DISCONNECTING" "same_env (s_net s) (s_net s1)"
      "d_id (n_leelen self1) = d_id (n_leelen self)" "d_theirs (n_leelen self1) = d_theirs (n_leelen self)"
      "fst (d_last_sent (n_leelen self1)) \<noteq> 0"
    using hung_up_by_client [OF assms(1-4,6-12,5)] by blast
  have calm: "\<forall>k. w_ok (s_net s1) k" using b(6) assms(4) by (simp add: same_env_def)
  have m: "m_id m = d_id (n_leelen self1)" "sockaddr_same (d_theirs (n_leelen self1)) src = Some same"
    using assms(14,16) b(7,8) by simp_all
  have bye: "LEELEN_MESSAGE_CODE ?bye = LEELEN_CODE_BYE" "LEELEN_MESSAGE_ID ?bye = d_id (n_leelen self)"
    by (simp_all add: packet_fields(1,2) dialog_message_def)
  show ?thesis
  proof (cases "fst (LeelenDialog_ack_timeout (n_leelen self1) (s_net s1))")
    case True
    then show ?thesis
      using disconnecting_late [OF b(4,5,9) True m(1) assms(15) m(2), of lib stack fd] b(1-4) bye by (fastforce simp: still_def)
  next
    case False
    then show ?thesis
      using disconnecting_acknowledged [OF assms(3) calm b(4,5) False assms(13) m(1) assms(15) m(2), of lib fd] b(1-4) bye
      by (fastforce simp: still_def)
  qed
qed

definition creating_lib :: "event_log osip_lib" where
  "creating_lib = sample_lib\<lparr>lib_create := \<lambda>e s. let tr = (LEAST tr. s_trs s tr = None) in (Some tr, put_transaction tr sample_transaction s)\<rparr>"

lemma creating_lib_laws:
  "executes creating_lib (\<lambda>x. x)" "makes_transactions creating_lib (\<lambda>x. x)" "codes_ok (lib_codes creating_lib)"
proof -
  show "makes_transactions creating_lib (\<lambda>x. x)"
    unfolding makes_transactions_def
  proof (intro allI impI)
    fix e and s :: "event_log device"
    assume "finite (dom (s_trs s))"
    then obtain n where "n \<notin> dom (s_trs s)" using ex_new_if_finite infinite_UNIV_nat by blast
    then have "s_trs s (LEAST tr. s_trs s tr = None) = None" by (intro LeastI [of "\<lambda>tr. s_trs s tr = None" n]) auto
    then show "\<exists>tr x o'. lib_create creating_lib e s = (Some tr, put_transaction tr x (s\<lparr>s_osip := o'\<rparr>)) \<and> s_trs s tr = None \<and>
        o' = s_osip s"
      by (intro exI [of _ "LEAST tr. s_trs s tr = None"] exI [of _ sample_transaction] exI [of _ "s_osip s"])
        (simp add: creating_lib_def Let_def)
  qed
qed (simp_all add: executes_def creating_lib_def sample_codes_ok)

definition talking_device :: "event_log device" where
  "talking_device = sample_log_device\<lparr>s_heap := [0 \<mapsto> sample_session\<lparr>n_leelen := phone_dialog\<lparr>d_state := CONNECTED\<rparr>\<rparr>],
     s_trs := [6 \<mapsto> sample_transaction\<lparr>x_session := Some 0\<rparr>]\<rparr>"

lemma talking_device_fields [simp]:
  "s_heap talking_device = [0 \<mapsto> sample_session\<lparr>n_leelen := phone_dialog\<lparr>d_state := CONNECTED\<rparr>\<rparr>]" "s_net talking_device = calm1"
  "s_osip talking_device = []" "s_trs talking_device = [6 \<mapsto> sample_transaction\<lparr>x_session := Some 0\<rparr>]"
  by (simp_all add: talking_device_def sample_log_device_def)

lemma phone_dialog_facts:
  "wf_dialog (phone_dialog\<lparr>d_state := CONNECTED\<rparr>)" "d_id (phone_dialog\<lparr>d_state := CONNECTED\<rparr>) = 9"
  "sockaddr_same (d_theirs (phone_dialog\<lparr>d_state := CONNECTED\<rparr>)) phone = Some True"
  "wf_message (dialog_message phone_dialog code)" "m_id (dialog_message phone_dialog code) = 9" "m_code (dialog_message phone_dialog code) = code"
  using wf_phone_dialog wf_dialog_message [OF wf_phone_dialog(1)]
  by (simp_all add: wf_dialog_def dialog_message_def sockaddr_same_def sockaddr_get_def phone_def)


theorem call_ended_by_client_witness:
  "\<exists>s1 r s2. SIPLeelen_nist_bye sample_lib OSIP_NIST_BYE 6 talking_device = Some s1 \<and> length (w_sent (s_net s1)) = 1 \<and>
     replied (\<lambda>x. x) 6 sample_request 200 [] (s_osip s1) \<and>
     SIPLeelenSession_receive sample_lib sample_message 0 (packet_of (dialog_message phone_dialog LEELEN_CODE_OK)) 4 phone s1 = Some (r, s2)"
proof -
  have lay: "layout_ok sample_message" by (simp add: layout_ok_def sample_message_def sample_base_valid)
  from call_ended_by_client [OF sample_lib_records _ lay, of talking_device 6 "sample_transaction\<lparr>x_session := Some 0\<rparr>" 0
      "sample_session\<lparr>n_leelen := phone_dialog\<lparr>d_state := CONNECTED\<rparr>\<rparr>" "dialog_message phone_dialog LEELEN_CODE_OK" phone True 4]
  show ?thesis using phone_dialog_facts sample_codes_ok sample_request_answerable by fastforce
qed

end
