(* ===== verification/Media.thy ===== *)
theory Media
  imports Invite
begin

text \<open>
  The formats of a call, from the session description of the INVITE to the message that the door phone parses:
  \<open>extract_media_formats\<close>, \<open>LeelenDialog_send\<close> and \<open>LeelenMessage_init\<close> one after the other.
\<close>

section \<open>What an offer offers\<close>

text \<open>The formats of all media of one kind that are carried by RTP, in the order of the description.\<close>

definition offered :: "char list \<Rightarrow> sdp_media list \<Rightarrow> char list list" where
  "offered kind medias = concat (map (\<lambda>med. if m_media med = Some kind \<and> m_proto med = Some ''RTP/AVP''
     then List.map_filter rtpmap_format (a_attributes med) else []) medias)"

lemma offered_simps [simp]:
  "offered kind [] = []"
  "offered kind (med # medias) = (if m_media med = Some kind \<and> m_proto med = Some ''RTP/AVP''
     then List.map_filter rtpmap_format (a_attributes med) else []) @ offered kind medias"
  by (simp_all add: offered_def)

lemma extract_attributes_calm:
  "wf_formats v \<Longrightarrow> \<forall>k. w_ok w k \<Longrightarrow> \<exists>v' w'. extract_attributes as v w = (True, v', w') \<and> wf_formats v' \<and>
   slots v' = slots v @ map Ptr (List.map_filter rtpmap_format as) \<and> (\<forall>k. w_ok w' k)"
proof (induction as arbitrary: v w)
  case (Cons a as)
  show ?case
  proof (cases "rtpmap_format a")
    case None
    then show ?thesis using Cons by (simp add: List.map_filter_def)
  next
    case (Some f)
    obtain i v1 w1 where p: "strvpush v f w = (i, v1, w1)" by (metis prod_cases3)
    then have q: "ptrvpush v f (step w) = (i, v1, w1)" using Cons.prems(2) by (simp add: strvpush_def sys_def)
    have wf: "wf_ptrv v" using Cons.prems(1) by (simp add: wf_formats_def)
    have v1: "0 \<le> i" "wf_formats v1" "slots v1 = slots v @ [Ptr f]"
      using ptrvpush_spec [OF wf q] Cons.prems by (auto simp: wf_formats_def split: if_splits)
    have "\<forall>k. w_ok w1 k" using strvpush_env [OF p] Cons.prems(2) by (simp add: same_env_def)
    from Cons.IH [OF v1(2) this] show ?thesis using Some p v1 by (auto simp: List.map_filter_def)
  qed
qed (simp add: List.map_filter_def)

lemma extract_medias_calm:
  "wf_formats va \<Longrightarrow> wf_formats vv \<Longrightarrow> \<forall>k. w_ok w k \<Longrightarrow>
   \<exists>va' vv' w'. extract_medias True True medias va vv w = (True, va', vv', w') \<and> wf_formats va' \<and> wf_formats vv' \<and>
     slots va' = slots va @ map Ptr (offered ''audio'' medias) \<and> slots vv' = slots vv @ map Ptr (offered ''video'' medias)"
proof (induction medias arbitrary: va vv w)
  case (Cons med medias)
  let ?rtp = "m_proto med = Some ''RTP/AVP''"
  consider (audio) "?rtp" "m_media med = Some ''audio''" | (video) "?rtp" "m_media med = Some ''video''"
    | (other) "\<not> (?rtp \<and> (m_media med = Some ''audio'' \<or> m_media med = Some ''video''))" by blast
  then show ?case
  proof cases
    case audio
    obtain v w1 where e: "extract_attributes (a_attributes med) va w = (True, v, w1)" "wf_formats v"
        "slots v = slots va @ map Ptr (List.map_filter rtpmap_format (a_attributes med))" "\<forall>k. w_ok w1 k"
      using extract_attributes_calm [OF Cons.prems(1,3)] by blast
    from Cons.IH [OF e(2) Cons.prems(2) e(4)] show ?thesis using audio e(1,3) by auto
  next
    case video
    obtain v w1 where e: "extract_attributes (a_attributes med) vv w = (True, v, w1)" "wf_formats v"
        "slots v = slots vv @ map Ptr (List.map_filter rtpmap_format (a_attributes med))" "\<forall>k. w_ok w1 k"
      using extract_attributes_calm [OF Cons.prems(2,3)] by blast
    from Cons.IH [OF Cons.prems(1) e(2,4)] show ?thesis using video e(1,3) by auto
  next
    case other
    from Cons.IH [OF Cons.prems] show ?thesis using other by (auto split: if_splits)
  qed
qed simp

section \<open>From the description to the door phone\<close>

text \<open>A vector that holds these strings.\<close>

definition vector_of :: "char list list \<Rightarrow> char list ptrv" where
  "vector_of xs = \<lparr>vec = map Ptr xs @ [Null], plen = length xs\<rparr>"

lemma strings_vector_of [simp]: "strings (vec (vector_of xs)) = xs"
proof -
  have "strings (map Ptr xs @ [Null]) = xs" by (induction xs) auto
  then show ?thesis by (simp add: vector_of_def)
qed

lemma formats_strings:
  assumes "wf_formats v" and "slots v = map Ptr xs"
  shows "strings (vec v) = xs" and "members v = set xs"
proof -
  have "map Ptr (strings (vec v)) = map Ptr xs" using strings_formats(1) [OF assms(1)] assms(2) by simp
  then show *: "strings (vec v) = xs" by (metis inj_map_eq_map injI slot.inject)
  show "members v = set xs" using strings_formats(2) [OF assms(1)] * by simp
qed

text \<open>The call as it is sent: its sender, its receiver and the formats of both media.\<close>

definition call_message :: "LeelenDialog \<Rightarrow> sdp_media list \<Rightarrow> LeelenMessage" where
  "call_message d medias = send_message d LEELEN_CODE_CALL (vector_of (offered ''audio'' medias)) (vector_of (offered ''video'' medias))"

text \<open>What the door phone reads out of a packet, whatever the memory of the parser held before.\<close>

definition understood :: "LeelenDialog \<Rightarrow> sdp_media list \<Rightarrow> LeelenMessage \<Rightarrow> bool" where
  "understood d medias m \<longleftrightarrow> m_id m = d_id d \<and> m_code m = LEELEN_CODE_CALL \<and>
     number_str (m_from m) = number_str (d_our d) \<and> number_str (m_to m) = number_str (d_their d) \<and>
     slots (m_audio_formats m) = map Ptr (offered ''audio'' medias) \<and> slots (m_video_formats m) = map Ptr (offered ''video'' medias) \<and>
     m_audio_port m = (if offered ''audio'' medias = [] then 0 else d_our_audio_port d) \<and>
     m_video_port m = (if offered ''video'' medias = [] then 0 else d_our_video_port d)"

lemma offer_sent:
  assumes "q_bodies request = body # bodies" and "lib_parse_sdp lib body = Some medias" and "\<forall>k. w_ok w k"
    and "wf_dialog (n_leelen self)" and "d_id (n_leelen self) \<noteq> 0" and "LEELEN_MESSAGE_MIN_SIZE \<le> unat (d_mtu (n_leelen self))"
    and "\<forall>f \<in> set (offered ''audio'' medias) \<union> set (offered ''video'' medias). is_line f"
    and "8 + length (message_text (call_message (n_leelen self) medias)) < unat (d_mtu (n_leelen self))"
  shows "\<exists>self' w' fa fv. invite_send lib tr request fd self w = (None, self', w') \<and> wf_formats fa \<and> wf_formats fv \<and>
    slots fa = map Ptr (offered ''audio'' medias) \<and> slots fv = map Ptr (offered ''video'' medias) \<and>
    wf_message (send_message (n_leelen self) LEELEN_CODE_CALL fa fv) \<and>
    w_sent w' = w_sent w @ [(fd, d_theirs (n_leelen self), packet_of (send_message (n_leelen self) LEELEN_CODE_CALL fa fv))]"
proof -
  let ?d = "n_leelen self" and ?w = "step (step w)"
  have get: "osip_message_get_sdp (lib_codes lib) (lib_parse_sdp lib) request w = (OSIP_SUCCESS, Some medias, ?w)"
    using assms(1-3) by (simp add: osip_message_get_sdp_def sys_def)
  have "\<forall>k. w_ok ?w k" using assms(3) by simp
  from extract_medias_calm [OF wf_formats_empty wf_formats_empty this] obtain fa fv w1 where
    x: "extract_medias True True medias ptrv_empty ptrv_empty ?w = (True, fa, fv, w1)" and
    wf: "wf_formats fa" "wf_formats fv" and
    raw: "slots fa = slots ptrv_empty @ map Ptr (offered ''audio'' medias)" "slots fv = slots ptrv_empty @ map Ptr (offered ''video'' medias)"
    by blast
  have s: "slots fa = map Ptr (offered ''audio'' medias)" "slots fv = map Ptr (offered ''video'' medias)"
    using raw by (simp_all only: wf_ptrv_empty append_Nil)
  have "extract_media_formats (Some medias) True True ?w = (0, Some fa, Some fv, w1)"
    using x by (simp add: extract_media_formats_def)
  note ex = this and env = extract_result [OF this]
  let ?m = "send_message ?d LEELEN_CODE_CALL fa fv"
  note f = formats_strings [OF wf(1) s(1)] formats_strings [OF wf(2) s(2)]
  have m: "wf_message ?m" using wf_send_message [OF assms(4) wf] assms(7) f by auto
  have "message_text ?m = message_text (call_message ?d medias)" using f by (simp add: message_text_def call_message_def)
  then have fits: "8 + length (message_text ?m) < unat (d_mtu ?d)" using assms(8) by simp
  have "w_ok w1 k" for k using env assms(3) by (simp add: same_env_def)
  then obtain d' w2 where snd: "LeelenDialog_send ?d LEELEN_CODE_CALL fd fa fv w1 = (0, d', w2)"
      "w_sent w2 = w_sent w1 @ [(fd, d_theirs ?d, packet_of ?m)]"
    using send_packet [OF m assms(5) fits, of fd w1] assms(6) by (auto simp: sys_send_def after_send_def leelen_codes)
  have "invite_send lib tr request fd self w = (None, self\<lparr>n_transaction := Some tr, n_leelen := d'\<rparr>, w2)"
    using get ex snd(1) by (simp add: invite_send_def)
  moreover have "w_sent w2 = w_sent w @ [(fd, d_theirs ?d, packet_of ?m)]" using snd(2) env by simp
  ultimately show ?thesis using wf s m by blast
qed

section \<open>Property\<close>

text \<open>C5. The codecs of a call reach the door phone: when nothing fails and the message fits into a datagram, the thread of the INVITE
  sends one packet to the peer of the dialog, and whoever parses it reads the ID of the call, both phone numbers,
  and exactly the formats of the RTP media of the offer, audio and video, in the order of the offer, with our port
  for each medium that has a format.\<close>

theorem offer_reaches_phone:
  assumes "q_bodies request = body # bodies" and "lib_parse_sdp lib body = Some medias" and "\<forall>k. w_ok w k"
    and "wf_dialog (n_leelen self)" and "d_id (n_leelen self) \<noteq> 0" and "LEELEN_MESSAGE_MIN_SIZE \<le> unat (d_mtu (n_leelen self))"
    and "\<forall>f \<in> set (offered ''audio'' medias) \<union> set (offered ''video'' medias). is_line f"
    and "8 + length (message_text (call_message (n_leelen self) medias)) < unat (d_mtu (n_leelen self))"
    and "layout_ok stack" and "\<forall>k. w_ok v k"
  shows "\<exists>self' w' packet m v'. invite_send lib tr request fd self w = (None, self', w') \<and>
    w_sent w' = w_sent w @ [(fd, d_theirs (n_leelen self), packet)] \<and>
    LeelenMessage_init stack packet False False v = (0, m, v') \<and> understood (n_leelen self) medias m"
proof -
  obtain self' w' fa fv where s: "invite_send lib tr request fd self w = (None, self', w')" "wf_formats fa" "wf_formats fv"
      "slots fa = map Ptr (offered ''audio'' medias)" "slots fv = map Ptr (offered ''video'' medias)"
      "wf_message (send_message (n_leelen self) LEELEN_CODE_CALL fa fv)"
      "w_sent w' = w_sent w @ [(fd, d_theirs (n_leelen self), packet_of (send_message (n_leelen self) LEELEN_CODE_CALL fa fv))]"
    using offer_sent [of request body bodies lib medias w self, OF assms(1-8)] by blast
  let ?m = "send_message (n_leelen self) LEELEN_CODE_CALL fa fv"
  obtain r m v' where p: "LeelenMessage_init stack (packet_of ?m) False False v = (r, m, v')" by (metis prod_cases3)
  note i = init_message [OF s(6) packet_fields(3) packet_text [OF s(6)] assms(9) p]
  have "understood (n_leelen self) medias m" "r = 0"
    using i assms(10) s(4,5) by (auto simp: understood_def)
  with s(1,7) p show ?thesis by blast
qed

definition offering_lib :: "event_log osip_lib" where
  "offering_lib = sample_lib\<lparr>lib_parse_sdp := \<lambda>_. Some sample_medias\<rparr>"

lemma sample_offered: "offered ''audio'' sample_medias = [''PCMU/8000'', ''opus/48000'', ''telephone-event/8000'']"
  "offered ''video'' sample_medias = []"
proof -
  have "rtpmap_format (rtpmap_attr (0, ''PCMU/8000'')) = Some ''PCMU/8000''"
    "rtpmap_format (rtpmap_attr (96, ''opus/48000'')) = Some ''opus/48000''"
    "rtpmap_format (rtpmap_attr (127, ''telephone-event/8000'')) = Some ''telephone-event/8000''"
    by (rule rtpmap_format_attr; simp add: plain_format_def isspace_def)+
  then show "offered ''audio'' sample_medias = [''PCMU/8000'', ''opus/48000'', ''telephone-event/8000'']"
    by (simp add: sample_medias_def rtpmap_format_def [of "\<lparr>a_att_field = _, a_att_value = _\<rparr>"] List.map_filter_def)
qed (simp add: sample_medias_def)

theorem offer_reaches_phone_witness:
  "\<exists>self' w' packet m v'. invite_send offering_lib 6 sdp_request 4 sample_session calm1 = (None, self', w') \<and>
     w_sent w' = [(4, d_theirs (n_leelen sample_session), packet)] \<and>
     LeelenMessage_init sample_message packet False False calm1 = (0, m, v') \<and>
     slots (m_audio_formats m) = [Ptr ''PCMU/8000'', Ptr ''opus/48000'', Ptr ''telephone-event/8000''] \<and> m_audio_port m = 7078"
proof -
  let ?d = "n_leelen sample_session"
  have d: "number_str (d_our ?d) = number_str sample_base" "number_str (d_their ?d) = number_str sample_base"
    "d_our_audio_port ?d = 7078" "unat (d_mtu ?d) = 1200" "d_our_type ?d = 1"
    by (simp_all add: sample_session_def sample_dialog_def)
  have "length (number_str sample_base) < 20"
    using wf_sample_dialog(1) by (simp add: wf_dialog_def sample_dialog_def LEELEN_NUMBER_STRLEN_def)
  moreover have "length (showd (Suc 0)) \<le> 5" "length (showd 7078) \<le> 5" by (rule length_showd_le; simp)+
  ultimately have fits: "8 + length (message_text (call_message ?d sample_medias)) < unat (d_mtu ?d)"
    using d unfolding call_message_def by (simp add: message_text_def media_text_def sample_offered)
  have body: "q_bodies sdp_request = ''v=0'' # []" by (simp add: sdp_request_def)
  have lib: "lib_parse_sdp offering_lib ''v=0'' = Some sample_medias" by (simp add: offering_lib_def)
  have lay: "layout_ok sample_message" by (simp add: layout_ok_def sample_message_def sample_base_valid)
  have mtu: "LEELEN_MESSAGE_MIN_SIZE \<le> unat (d_mtu ?d)"
    using d by (simp add: LEELEN_MESSAGE_MIN_SIZE_def LEELEN_MESSAGE_HEADER_SIZE_def LEELEN_NUMBER_STRLEN_def)
  have lines: "\<forall>f \<in> set (offered ''audio'' sample_medias) \<union> set (offered ''video'' sample_medias). is_line f"
    by (simp add: sample_offered is_line_def)
  from offer_reaches_phone [OF body lib _ sample_session_dialog mtu lines fits lay, of calm1 calm1 6 4] show ?thesis
    using d(3) by (fastforce simp: understood_def sample_offered)
qed

end
