(* ===== verification/Localip.thy ===== *)
theory Localip
  imports Endpoint Socket
begin

text \<open>
  \<^verbatim>\<open>inet46i/localip.h\<close> and \<^verbatim>\<open>inet46i/localip.c\<close>: an address of this host.

  \<open>getifaddrs\<close> is its list: the name of an interface and its address, if it has one. \<open>addr\<close> is the
  memory of the caller, which is not written when nothing is found.
\<close>

definition INADDR_BROADCAST :: u32 where "INADDR_BROADCAST = 0xffffffff"

definition usable4 :: "u32 \<Rightarrow> bool" where
  "usable4 a \<longleftrightarrow> a \<noteq> 0 \<and> a \<noteq> lhtonl INADDR_BROADCAST \<and>
     a AND lhtonl IN_CLASSA_NET \<noteq> lhtonl (INADDR_LOOPBACK AND IN_CLASSA_NET) \<and>
     a AND lhtonl 0xf0000000 \<noteq> lhtonl 0xe0000000"

definition usable6 :: "in6_addr \<Rightarrow> bool" where
  "usable6 a \<longleftrightarrow> \<not> IN6_IS_ADDR_UNSPECIFIED a \<and> \<not> IN6_IS_ADDR_LOOPBACK a \<and> \<not> IN6_IS_ADDR_MULTICAST a"

text \<open>The scope of an address: 1 link-local, 2 site-local, 3 global.\<close>

definition scope_level :: "in6_addr \<Rightarrow> nat" where
  "scope_level a = (if IN6_IS_ADDR_LINKLOCAL a then 1 else if IN6_IS_ADDR_SITELOCAL a then 2 else 3)"

text \<open>The loop. \<open>only\<close> is the name of the interface that is asked for.\<close>

fun scan_ifaddrs ::
  "af \<Rightarrow> char list option \<Rightarrow> (char list \<times> sockaddr_in46 option) list \<Rightarrow> nat \<Rightarrow> in6_addr \<Rightarrow> int \<times> in6_addr" where
  "scan_ifaddrs f only [] level addr = (if level = 0 then - 1 else 0, addr)"
| "scan_ifaddrs f only ((name, ifa) # ifas) level addr =
     (case ifa of
        None \<Rightarrow> scan_ifaddrs f only ifas level addr
      | Some a \<Rightarrow>
          if sa_family a \<noteq> f \<or> (case only of None \<Rightarrow> False | Some n \<Rightarrow> take 16 n \<noteq> take 16 name)
          then scan_ifaddrs f only ifas level addr
          else if f = AF_INET then
            (if usable4 (sin_addr a) then (0, In6 (sin_addr a) (s6_1 addr) (s6_2 addr) (s6_3 addr))
             else scan_ifaddrs f only ifas level addr)
          else if \<not> usable6 (sin6_addr a) then scan_ifaddrs f only ifas level addr
          else if scope_level (sin6_addr a) = 3 then (0, sin6_addr a)
          else if level < scope_level (sin6_addr a)
            then scan_ifaddrs f only ifas (scope_level (sin6_addr a)) (sin6_addr a)
          else scan_ifaddrs f only ifas level addr)"

text \<open>\<open>None\<close> as list: \<open>getifaddrs\<close> failed.\<close>

definition detect_iface_ip ::
  "print_lib \<Rightarrow> (char list \<times> sockaddr_in46 option) list option \<Rightarrow> af \<Rightarrow> u32 \<Rightarrow> in6_addr \<Rightarrow> int \<times> in6_addr" where
  "detect_iface_ip lib ifaddrs f index addr =
     (if \<not> (f = AF_INET \<or> f = AF_INET6) then (- 1, addr)
      else if index \<noteq> 0 \<and> ifname lib index = None then (- 1, addr)
      else case ifaddrs of
             None \<Rightarrow> (- 1, addr)
           | Some ifas \<Rightarrow> scan_ifaddrs f (if index \<noteq> 0 then ifname lib index else None) ifas 0 addr)"

text \<open>\<open>sockname\<close> is the address that \<open>getsockname\<close> reports.\<close>

definition detect_src_ip ::
  "sockaddr_in46 \<Rightarrow> af \<Rightarrow> in6_addr \<Rightarrow> in6_addr \<Rightarrow> u32 \<Rightarrow> 'p world \<Rightarrow> int \<times> in6_addr \<times> 'p world" where
  "detect_src_ip sockname f addr dst index w =
     (if \<not> (f = AF_INET \<or> f = AF_INET6) then (- 1, addr, w)
      else
        let remote = sockaddr_zero\<lparr>sa_family := f, sa_port := 0xcccc, sa_scope_id := index\<rparr>;
            remote = (if f = AF_INET then remote\<lparr>sin_addr := s6_0 dst\<rparr> else remote\<lparr>sin6_addr := dst\<rparr>);
            (fd, w) = openaddr46 remote OPENADDR_REUSEADDR w
        in if \<not> 0 \<le> fd then (- 1, addr, w)
           else let (ok, w) = sys w in
             if \<not> ok then (- 1, addr, w)
             else let (ok, w) = sys w in
               if \<not> ok then (- 1, addr, w)
               else (0, if sa_family sockname = AF_INET then In6 (sin_addr sockname) (s6_1 addr) (s6_2 addr) (s6_3 addr)
                        else sin6_addr sockname, w))"

definition detect_local_ip ::
  "print_lib \<Rightarrow> (char list \<times> sockaddr_in46 option) list option \<Rightarrow> sockaddr_in46 \<Rightarrow> af \<Rightarrow> in6_addr \<Rightarrow> in6_addr option \<Rightarrow>
   u32 \<Rightarrow> 'p world \<Rightarrow> int \<times> in6_addr \<times> 'p world" where
  "detect_local_ip lib ifaddrs sockname f addr dst index w =
     (case dst of
        None \<Rightarrow> (let (r, a) = detect_iface_ip lib ifaddrs f index addr in (r, a, w))
      | Some d \<Rightarrow> detect_src_ip sockname f addr d index w)"

section \<open>Properties\<close>

definition candidate6 :: "char list option \<Rightarrow> char list \<times> sockaddr_in46 option \<Rightarrow> in6_addr \<Rightarrow> bool" where
  "candidate6 only x a \<longleftrightarrow>
     (case x of (name, Some s) \<Rightarrow> sa_family s = AF_INET6 \<and> sin6_addr s = a \<and> usable6 a \<and>
        (case only of None \<Rightarrow> True | Some n \<Rightarrow> take 16 n = take 16 name) | _ \<Rightarrow> False)"

lemma scope_level_range: "1 \<le> scope_level a \<and> scope_level a \<le> 3"
  by (simp add: scope_level_def)

text \<open>The best address wins: for IPv6 the result is a usable address of the interface, or of any, and no other has a wider
  scope; it fails only when there is none.\<close>

lemma scan_ifaddrs_best:
  assumes "scan_ifaddrs AF_INET6 only ifas level addr = (r, a)" and "level = 0 \<or> level = scope_level addr" and "level \<le> 2"
  shows "if r = 0 then
      ((\<exists>x \<in> set ifas. candidate6 only x a) \<or> 0 < level \<and> a = addr) \<and> level \<le> scope_level a \<and>
      (\<forall>x \<in> set ifas. \<forall>b. candidate6 only x b \<longrightarrow> scope_level b \<le> scope_level a)
    else r = - 1 \<and> level = 0 \<and> (\<forall>x \<in> set ifas. \<forall>b. \<not> candidate6 only x b)"
  using assms
proof (induction ifas arbitrary: level addr)
  case Nil
  then show ?case by (auto split: if_splits)
next
  case (Cons x ifas)
  obtain name ifa where x: "x = (name, ifa)" by (cases x)
  show ?case
  proof (cases "\<exists>b. candidate6 only x b")
    case False
    then have "scan_ifaddrs AF_INET6 only (x # ifas) level addr = scan_ifaddrs AF_INET6 only ifas level addr"
      by (auto simp: x candidate6_def split: option.splits)
    with Cons False show ?thesis by auto
  next
    case True
    then obtain s where s: "ifa = Some s" "sa_family s = AF_INET6" "usable6 (sin6_addr s)"
      "case only of None \<Rightarrow> True | Some n \<Rightarrow> take 16 n = take 16 name"
      by (auto simp: x candidate6_def split: option.splits)
    then have only: "candidate6 only x b \<longleftrightarrow> b = sin6_addr s" for b
      by (auto simp: x candidate6_def)
    have range: "scope_level b \<le> 3" "1 \<le> scope_level b" for b using scope_level_range [of b] by simp_all
    have step: "scan_ifaddrs AF_INET6 only (x # ifas) level addr =
      (if scope_level (sin6_addr s) = 3 then (0, sin6_addr s)
       else if level < scope_level (sin6_addr s) then scan_ifaddrs AF_INET6 only ifas (scope_level (sin6_addr s)) (sin6_addr s)
       else scan_ifaddrs AF_INET6 only ifas level addr)"
      using s by (auto simp: x split: option.splits)
    consider "scope_level (sin6_addr s) = 3" | "scope_level (sin6_addr s) < 3" "level < scope_level (sin6_addr s)"
      | "scope_level (sin6_addr s) < 3" "scope_level (sin6_addr s) \<le> level"
      using range(1) [of "sin6_addr s"] by linarith
    then show ?thesis
    proof cases
      case 1
      then show ?thesis using Cons.prems step only range by (auto simp: Cons.prems(3))
    next
      case 2
      then have "scan_ifaddrs AF_INET6 only ifas (scope_level (sin6_addr s)) (sin6_addr s) = (r, a)"
        using Cons.prems(1) step by simp
      from Cons.IH [OF this] 2 only range(2) [of "sin6_addr s"] show ?thesis by (fastforce split: if_splits)
    next
      case 3
      then have "scan_ifaddrs AF_INET6 only ifas level addr = (r, a)" using Cons.prems(1) step by simp
      from Cons.IH [OF this Cons.prems(2,3)] 3 only range(2) [of "sin6_addr s"] show ?thesis
        by (fastforce split: if_splits)
    qed
  qed
qed

text \<open>The local address of widest scope wins: for IPv6, \<open>detect_iface_ip\<close> gives a usable address of the interface that is
  asked for, or of any, and none has a wider scope; it fails exactly when there is no usable address, and then leaves
  the memory of the caller alone.\<close>

theorem detect_iface_ip_best:
  assumes "detect_iface_ip lib (Some ifas) AF_INET6 index addr = (r, a)" and "index \<noteq> 0 \<Longrightarrow> ifname lib index \<noteq> None"
    and "only = (if index \<noteq> 0 then ifname lib index else None)"
  shows "if r = 0 then (\<exists>x \<in> set ifas. candidate6 only x a) \<and>
      (\<forall>x \<in> set ifas. \<forall>b. candidate6 only x b \<longrightarrow> scope_level b \<le> scope_level a)
    else r = - 1 \<and> (\<forall>x \<in> set ifas. \<forall>b. \<not> candidate6 only x b)"
proof -
  have "scan_ifaddrs AF_INET6 only ifas 0 addr = (r, a)"
    using assms by (auto simp: detect_iface_ip_def)
  from scan_ifaddrs_best [OF this] show ?thesis by (auto split: if_splits)
qed

theorem detect_iface_ip_best_witness:
  "fst (detect_iface_ip sample_print_lib (Some [(''eth0'', Some (sockaddr_zero\<lparr>sa_family := AF_INET6, sin6_addr := In6 1 0 0 1\<rparr>))])
     AF_INET6 2 in6addr_any) = 0"
proof -
  let ?x = "(''eth0'', Some (sockaddr_zero\<lparr>sa_family := AF_INET6, sin6_addr := In6 1 0 0 1\<rparr>))"
  obtain r a where d: "detect_iface_ip sample_print_lib (Some [?x]) AF_INET6 2 in6addr_any = (r, a)" by (metis surj_pair)
  have name: "ifname sample_print_lib 2 = Some ''eth0''" by (simp add: sample_print_lib_def)
  have "usable6 (In6 1 0 0 1)"
    by (simp add: usable6_def IN6_IS_ADDR_UNSPECIFIED_def IN6_IS_ADDR_LOOPBACK_def IN6_IS_ADDR_MULTICAST_def)
  then have "candidate6 (Some ''eth0'') ?x (In6 1 0 0 1)" by (simp add: candidate6_def)
  with detect_iface_ip_best [OF d] name have "r = 0" by (auto split: if_splits)
  with d show ?thesis by simp
qed

end
