(* ===== verification/Route.thy ===== *)
theory Route
  imports Address
begin

text \<open>
  \<^verbatim>\<open>inet46i/route.h\<close> and \<^verbatim>\<open>inet46i/route.c\<close>: networks in CIDR notation.

  Addresses are the memory words of theory Address, so a netmask goes through \<open>lhtonl\<close>. \<open>None\<close> is a shift by
  the width of the word, as for the mask of the prefix 0, or a read behind the fourth word of an
  address.
\<close>

definition inet_tomask :: "int \<Rightarrow> u32 option" where
  "inet_tomask prefix =
     (if prefix < 0 then Some 0xffffffff
      else if 0 < prefix \<and> prefix \<le> 32 then Some (lhtonl (NOT (push_bit (nat (32 - prefix)) 1 - 1)))
      else None)"

definition inet_isnetwork4 :: "u32 \<Rightarrow> int \<Rightarrow> bool option" where
  "inet_isnetwork4 network prefix = map_option (\<lambda>m. network AND NOT m = 0) (inet_tomask prefix)"

definition inet_innetwork4 :: "u32 \<Rightarrow> u32 \<Rightarrow> int \<Rightarrow> bool option" where
  "inet_innetwork4 addr network prefix =
     (if prefix = 0 then Some True
      else map_option (\<lambda>m. addr AND m = network AND m) (inet_tomask prefix))"

definition in6_words :: "in6_addr \<Rightarrow> u32 list" where
  "in6_words a = [s6_0 a, s6_1 a, s6_2 a, s6_3 a]"

text \<open>\<open>prefix32\<close> and \<open>prefix32rem\<close>.\<close>

definition prefix_words :: "int \<Rightarrow> nat \<times> int" where
  "prefix_words prefix = (if 0 \<le> prefix then (nat (prefix div 32), prefix mod 32) else (4, 0))"

definition inet_isnetwork6 :: "in6_addr \<Rightarrow> int \<Rightarrow> bool option" where
  "inet_isnetwork6 network prefix =
     (let (n, rem) = prefix_words prefix in
      if \<exists>i \<in> set [n + (if rem \<noteq> 0 then 1 else 0)..<4]. in6_words network ! i \<noteq> 0 then Some False
      else if rem = 0 then Some True
      else if n < 4 then inet_isnetwork4 (in6_words network ! n) rem
      else None)"

definition inet_innetwork6 :: "in6_addr \<Rightarrow> in6_addr \<Rightarrow> int \<Rightarrow> bool option" where
  "inet_innetwork6 addr network prefix =
     (if prefix = 0 then Some True
      else
        let (n, rem) = prefix_words prefix in
        if \<exists>i \<in> set [n + (if rem \<noteq> 0 then 1 else 0)..<4]. in6_words addr ! i \<noteq> in6_words network ! i then Some False
        else if rem = 0 then Some True
        else if n < 4 then inet_innetwork4 (in6_words addr ! n) (in6_words network ! n) rem
        else None)"

text \<open>An address behind a pointer is its first 16 bytes, as in theory Address.\<close>

definition inet_isnetwork :: "af \<Rightarrow> in6_addr \<Rightarrow> int \<Rightarrow> bool option" where
  "inet_isnetwork f network prefix =
     (case f of
        AF_INET \<Rightarrow> inet_isnetwork4 (s6_0 network) prefix
      | AF_INET6 \<Rightarrow> inet_isnetwork6 network prefix
      | _ \<Rightarrow> Some False)"

definition inet_innetwork :: "af \<Rightarrow> in6_addr \<Rightarrow> in6_addr \<Rightarrow> int \<Rightarrow> bool option" where
  "inet_innetwork f addr network prefix =
     (case f of
        AF_INET \<Rightarrow> inet_innetwork4 (s6_0 addr) (s6_0 network) prefix
      | AF_INET6 \<Rightarrow> inet_innetwork6 addr network prefix
      | _ \<Rightarrow> Some False)"

section \<open>Lemmas\<close>

text \<open>The reference: two addresses agree in their first \<open>p\<close> bits, in network order.\<close>

definition same_prefix :: "nat \<Rightarrow> u32 \<Rightarrow> u32 \<Rightarrow> bool" where
  "same_prefix p a b \<longleftrightarrow> drop_bit (32 - p) (lhtonl a) = drop_bit (32 - p) (lhtonl b)"

lemma and_not_mask_drop: "x AND NOT (mask n) = y AND NOT (mask n) \<longleftrightarrow> drop_bit n x = drop_bit n (y :: u32)"
proof
  assume a: "x AND NOT (mask n) = y AND NOT (mask n)"
  show "drop_bit n x = drop_bit n y"
  proof (rule bit_word_eqI)
    fix k assume "k < LENGTH(32)"
    have "bit (x AND NOT (mask n)) (n + k) = bit (y AND NOT (mask n)) (n + k)" using a by simp
    then show "bit (drop_bit n x) k = bit (drop_bit n y) k"
      by (cases "n + k < 32") (auto simp: bit_simps dest: bit_imp_le_length)
  qed
next
  assume d: "drop_bit n x = drop_bit n y"
  show "x AND NOT (mask n) = y AND NOT (mask n)"
  proof (rule bit_word_eqI)
    fix k assume "k < LENGTH(32)"
    have "bit (drop_bit n x) (k - n) = bit (drop_bit n y) (k - n)" using d by simp
    then show "bit (x AND NOT (mask n)) k = bit (y AND NOT (mask n)) k"
      by (cases "n \<le> k") (auto simp: bit_simps)
  qed
qed

lemma lhtonl_not: "lhtonl (NOT x) = NOT (lhtonl x)"
proof (rule bit_word_eqI)
  fix n assume "n < LENGTH(32)"
  then show "bit (lhtonl (NOT x)) n = bit (NOT (lhtonl x)) n"
    by (cases rule: byte_cases32) (auto simp: bit_lhtonl bit_not_iff)
qed

lemma drop_bit_bits: "drop_bit n x = drop_bit n (y :: u32) \<longleftrightarrow> (\<forall>i < 32. n \<le> i \<longrightarrow> bit x i = bit y i)"
proof
  assume d: "drop_bit n x = drop_bit n y"
  show "\<forall>i < 32. n \<le> i \<longrightarrow> bit x i = bit y i"
  proof (intro allI impI)
    fix i :: nat assume "n \<le> i"
    moreover have "bit (drop_bit n x) (i - n) = bit (drop_bit n y) (i - n)" using d by simp
    ultimately show "bit x i = bit y i" by (simp add: bit_simps)
  qed
next
  assume b: "\<forall>i < 32. n \<le> i \<longrightarrow> bit x i = bit y i"
  show "drop_bit n x = drop_bit n y"
  proof (rule bit_word_eqI)
    fix k assume "k < LENGTH(32)"
    show "bit (drop_bit n x) k = bit (drop_bit n y) k"
      using b by (cases "n + k < 32") (auto simp: bit_simps dest: bit_imp_le_length)
  qed
qed

lemma and_mask_0: "(x :: u32) AND mask k = 0 \<longleftrightarrow> (\<forall>i < k. \<not> bit x i)"
proof -
  have "(x AND mask k = 0) \<longleftrightarrow> (\<forall>i < 32. bit x i \<longrightarrow> \<not> i < k)"
    by (auto simp: bit_eq_iff bit_simps)
  moreover have "bit x i \<Longrightarrow> i < 32" for i using bit_imp_le_length [of x i] by simp
  ultimately show ?thesis by blast
qed

lemma tomask_prefix: "0 < p \<Longrightarrow> p \<le> 32 \<Longrightarrow> inet_tomask (int p) = Some (lhtonl (NOT (mask (32 - p))))"
  by (simp add: inet_tomask_def nat_diff_distrib mask_eq_exp_minus_1 push_bit_eq_mult)

lemma masked_prefix: "(a AND lhtonl m = b AND lhtonl m) \<longleftrightarrow> lhtonl a AND m = lhtonl b AND m"
  by (metis lhtonl_and lhtonl_lhtonl)

lemma innetwork4_prefix:
  "p \<le> 32 \<Longrightarrow> inet_innetwork4 a n (int p) = Some (same_prefix p a n)"
proof (cases "p = 0")
  case True
  have "drop_bit 32 (x :: u32) = 0" for x by (rule bit_word_eqI) (simp add: bit_simps)
  with True show ?thesis by (simp add: inet_innetwork4_def same_prefix_def)
next
  case False
  then show "p \<le> 32 \<Longrightarrow> ?thesis"
    by (simp add: inet_innetwork4_def tomask_prefix masked_prefix and_not_mask_drop same_prefix_def)
qed

section \<open>Properties\<close>

text \<open>C32. For IPv4 the test of a network is the comparison of the first bits: for every prefix from 0 to 32 an address is in a
  network exactly when it agrees with it in so many leading bits, a negative prefix asks for equality, and a
  network is valid exactly when the bits behind its prefix are 0.\<close>

theorem inet_innetwork4_exact:
  assumes "p \<le> 32"
  shows "inet_innetwork4 a n (int p) = Some (\<forall>i < 32. 32 - p \<le> i \<longrightarrow> bit (lhtonl a) i = bit (lhtonl n) i) \<and>
    inet_innetwork4 a n (- 1) = Some (a = n) \<and>
    (0 < p \<longrightarrow> inet_isnetwork4 n (int p) = Some (\<forall>i < 32 - p. \<not> bit (lhtonl n) i))"
proof (intro conjI impI)
  show "inet_innetwork4 a n (int p) = Some (\<forall>i < 32. 32 - p \<le> i \<longrightarrow> bit (lhtonl a) i = bit (lhtonl n) i)"
    using innetwork4_prefix [OF assms] by (simp add: same_prefix_def drop_bit_bits)
  have "x AND 0xffffffff = x" for x :: u32
    using take_bit_eq_mask [of 32 x] take_bit_length_eq [of x] by (simp add: mask_eq_exp_minus_1)
  then show "inet_innetwork4 a n (- 1) = Some (a = n)"
    by (simp add: inet_innetwork4_def inet_tomask_def)
next
  assume "0 < p"
  have "lhtonl (n AND NOT (lhtonl m)) = lhtonl n AND NOT m" for m
    by (simp add: lhtonl_and lhtonl_not)
  then have "(n AND NOT (lhtonl m) = 0) \<longleftrightarrow> lhtonl n AND NOT m = 0" for m by (metis lhtonl_eq_0)
  moreover have "(x :: u32) AND mask k = 0 \<longleftrightarrow> (\<forall>i < k. \<not> bit x i)" for x k
    by (rule and_mask_0)
  ultimately show "inet_isnetwork4 n (int p) = Some (\<forall>i < 32 - p. \<not> bit (lhtonl n) i)"
    using \<open>0 < p\<close> assms by (simp add: inet_isnetwork4_def tomask_prefix)
qed

theorem inet_innetwork4_exact_witness:
  "inet_innetwork4 (lhtonl 0x0a000001) (lhtonl 0x0a000000) (- 1) = Some False"
  using inet_innetwork4_exact [of 8 "lhtonl 0x0a000001" "lhtonl 0x0a000000"] by simp

text \<open>For IPv6 the same test looks at the wrong end of the address: with a prefix of whole words it compares the words behind
  the prefix and none of the network, so that with a prefix of 128 bits, or \<open>- 1\<close> for equality, every
  address is in every network.\<close>

theorem inet_innetwork6_compares_hosts:
  assumes "0 < k" and "k \<le> 4"
  shows "inet_innetwork6 a n (32 * int k) = Some (\<forall>i \<in> {k..<4}. in6_words a ! i = in6_words n ! i)"
    and "inet_innetwork6 a n 128 = Some True" and "inet_innetwork6 a n (- 1) = Some True"
  using assms by (auto simp: inet_innetwork6_def prefix_words_def Let_def)

end
