(* ===== verification/Pbr.thy ===== *)
theory Pbr
  imports Route Endpoint
begin

text \<open>
  \<^verbatim>\<open>inet46i/pbr.h\<close> and \<^verbatim>\<open>inet46i/pbr.c\<close>: dispatching connections and datagrams by address.

  A handler is a function on the state of its caller, \<open>None\<close> when its pointer is \<open>NULL\<close>. The results of the
  system calls are arguments: the accepted descriptor with its address, what \<open>getsockname\<close> writes, the datagram.
  A result \<open>None\<close> is a use of memory that was not set, a call through \<open>NULL\<close> or an access outside of an array.
\<close>

record Socket5Tuple =
  src :: sockaddr_in46
  dst :: sockaddr_in46

text \<open>The IPv4 network is the last word of \<open>network6\<close>; the lower bound of the ports shares its memory with the port.\<close>

record SockaddrPolicy =
  network6 :: in6_addr
  scope_id :: u32
  port_min :: u16
  port_max :: u16
  prefix_len :: int

record ('f, 'c) SocketPolicyRoute =
  pr_src :: SockaddrPolicy
  pr_dst :: SockaddrPolicy
  pr_func :: "'f option"
  pr_context :: 'c

text \<open>The union, with \<open>single_route\<close> as its tag.\<close>

datatype ('f, 'c) dispatch = Routes "('f, 'c) SocketPolicyRoute list" | single_route: Single "'f option" 'c

text \<open>\<open>dst_addr\<close> is for streams; \<open>buflen\<close>, \<open>recvlen\<close> and \<open>dst_port\<close> are for datagrams.\<close>

record ('f, 'c) SocketPBR =
  pbr_dispatch :: "('f, 'c) dispatch"
  dst_required :: bool
  nothing_ret :: int
  dst_addr :: sockaddr_in46
  buflen :: u16
  recvlen :: u16
  dst_port :: u16

section \<open>Policies\<close>

definition policy_network :: "SockaddrPolicy \<Rightarrow> af \<Rightarrow> in6_addr" where
  "policy_network p f = (if f = AF_INET then In6 (s6_3 (network6 p)) 0 0 0 else network6 p)"

definition policy_host :: "SockaddrPolicy \<Rightarrow> sockaddr_in46 \<Rightarrow> in6_addr option \<Rightarrow> bool option" where
  "policy_host p addr host =
     (if prefix_len p \<noteq> 0 \<and>
         (sa_family addr \<noteq> AF_INET \<or> IN6_IS_ADDR_V4MAPPED (network6 p) \<or> IN6_IS_ADDR_V4COMPAT (network6 p)) then
        (case host of
           None \<Rightarrow> None
         | Some h \<Rightarrow>
             if (if sa_family addr = AF_INET then s6_0 h \<noteq> 0 else \<not> IN6_IS_ADDR_UNSPECIFIED h)
             then inet_innetwork (sa_family addr) h (policy_network p (sa_family addr)) (prefix_len p)
             else Some True)
      else Some True)"

definition policy_port :: "SockaddrPolicy \<Rightarrow> u16 \<Rightarrow> bool" where
  "policy_port p port \<longleftrightarrow> port = 0 \<or>
     (if port_max p = 0 then port_min p = 0 \<or> port = port_min p else port_min p \<le> port \<and> port \<le> port_max p)"

definition sockaddrpr_match :: "SockaddrPolicy \<Rightarrow> sockaddr_in46 \<Rightarrow> bool option" where
  "sockaddrpr_match p addr =
     (let (port, host) = sockaddr_get addr in
      Option.bind (policy_host p addr host) (\<lambda>h.
        if \<not> h then Some False
        else if \<not> policy_port p port then Some False
        else Some (\<not> (scope_id p \<noteq> 0 \<and> sa_scope_id addr \<noteq> 0) \<or> scope_id p = sa_scope_id addr)))"

text \<open>The array ends with a route without function; reading behind the list is reading behind the array.\<close>

fun socketpr_resolve :: "('f, 'c) SocketPolicyRoute list \<Rightarrow> Socket5Tuple \<Rightarrow> ('f, 'c) SocketPolicyRoute option option" where
  "socketpr_resolve [] conn = None"
| "socketpr_resolve (r # routes) conn =
     (if pr_func r = None then Some None
      else Option.bind (sockaddrpr_match (pr_src r) (src conn)) (\<lambda>m.
        if \<not> m then socketpr_resolve routes conn
        else Option.bind (sockaddrpr_match (pr_dst r) (dst conn)) (\<lambda>m.
          if \<not> m then socketpr_resolve routes conn else Some (Some r))))"

section \<open>Streams and datagrams\<close>

text \<open>The function and its context, the same lines for streams and datagrams; the inner \<open>None\<close> is no route.\<close>

definition pbr_resolve :: "('f, 'c) SocketPBR \<Rightarrow> Socket5Tuple \<Rightarrow> ('f option \<times> 'c) option option" where
  "pbr_resolve pbr conn =
     (case pbr_dispatch pbr of
        Single f c \<Rightarrow> Some (Some (f, c))
      | Routes routes \<Rightarrow> map_option (map_option (\<lambda>r. (pr_func r, pr_context r))) (socketpr_resolve routes conn))"

text \<open>The kernel writes an IPv4 address without touching the scope, which the source set to 0 before.\<close>

definition kernel_addr :: "sockaddr_in46 \<Rightarrow> sockaddr_in46" where
  "kernel_addr a = (if sa_family a = AF_INET then a\<lparr>sa_scope_id := 0\<rparr> else a)"

type_synonym ('c, 's) stream_func = "'c \<Rightarrow> int \<Rightarrow> Socket5Tuple \<Rightarrow> 's \<Rightarrow> int \<times> 's"
type_synonym ('c, 's) dgram_func = "'c \<Rightarrow> char list \<Rightarrow> int \<Rightarrow> int \<Rightarrow> Socket5Tuple \<Rightarrow> u32 \<Rightarrow> 's \<Rightarrow> int \<times> 's"

text \<open>\<open>accepted\<close> is the result of \<open>accept4\<close>, \<open>sockname\<close> the memory that \<open>getsockname\<close> leaves.\<close>

definition socketpbr_accept4 ::
  "int \<times> sockaddr_in46 \<Rightarrow> sockaddr_in46 \<Rightarrow> (('c, 's) stream_func, 'c) SocketPBR \<Rightarrow> 's \<Rightarrow> (int \<times> 's) option" where
  "socketpbr_accept4 accepted sockname pbr s =
     (let (child, peer) = accepted in
      if \<not> 0 \<le> child then Some (nothing_ret pbr, s)
      else
        let conn = \<lparr>src = kernel_addr peer,
                    dst = if \<not> dst_required pbr then sockaddr_zero
                          else if sa_family (dst_addr pbr) = AF_UNSPEC then kernel_addr sockname
                          else dst_addr pbr\<rparr>
        in case pbr_resolve pbr conn of
             None \<Rightarrow> None
           | Some None \<Rightarrow> Some (nothing_ret pbr, s)
           | Some (Some (None, c)) \<Rightarrow> None
           | Some (Some (Some f, c)) \<Rightarrow> Some (f c child conn s))"

text \<open>The flags of \<open>accept4\<close> and \<open>recv\<close> are for the kernel: without them it is the same function.\<close>

definition socketpbr_accept ::
  "int \<times> sockaddr_in46 \<Rightarrow> sockaddr_in46 \<Rightarrow> (('c, 's) stream_func, 'c) SocketPBR \<Rightarrow> 's \<Rightarrow> (int \<times> 's) option" where
  "socketpbr_accept accepted sockname pbr s = socketpbr_accept4 accepted sockname pbr s"

definition getsockport :: "sockaddr_in46 option \<Rightarrow> int" where
  "getsockport sockname = (case sockname of None \<Rightarrow> - 1 | Some a \<Rightarrow> int (unat (fst (sockaddr_get a))))"

text \<open>\<open>stack\<close> is what \<open>recv_dst\<close> holds before it is written. The buffer has \<open>buflen\<close> bytes.\<close>

definition socketpbr_recv ::
  "int \<Rightarrow> arrival option \<Rightarrow> sockaddr_in46 option \<Rightarrow> u32 \<Rightarrow> (('c, 's) dgram_func, 'c) SocketPBR \<Rightarrow> 's \<Rightarrow> (int \<times> 's) option" where
  "socketpbr_recv sockfd message sockname stack pbr s =
     (if buflen pbr = 0 then None
      else
        let len = unat (if 0 < recvlen pbr then recvlen pbr else buflen pbr);
            (n, buf, src0, dst0, recv_dst) =
              recvfromto message len (Some sockaddr_zero)
                (if dst_required pbr then Some sockaddr_zero else None) (if dst_required pbr then Some stack else None)
        in if unat (buflen pbr) < length buf then None
           else if \<not> 0 < n then Some (nothing_ret pbr, s)
           else
             let d = (case dst0 of None \<Rightarrow> sockaddr_zero | Some d \<Rightarrow> d);
                 d = (if dst_required pbr
                      then d\<lparr>sa_port := if dst_port pbr \<noteq> 0 then dst_port pbr else word_of_int (getsockport sockname)\<rparr>
                      else d);
                 conn = \<lparr>src = kernel_addr (the src0), dst = d\<rparr>
             in case pbr_resolve pbr conn of
                  None \<Rightarrow> None
                | Some None \<Rightarrow> Some (nothing_ret pbr, s)
                | Some (Some (None, c)) \<Rightarrow> None
                | Some (Some (Some f, c)) \<Rightarrow>
                    Some (f c buf n sockfd conn (case recv_dst of None \<Rightarrow> stack | Some r \<Rightarrow> r) s))"

definition socketpbr_read ::
  "int \<Rightarrow> arrival option \<Rightarrow> sockaddr_in46 option \<Rightarrow> u32 \<Rightarrow> (('c, 's) dgram_func, 'c) SocketPBR \<Rightarrow> 's \<Rightarrow> (int \<times> 's) option" where
  "socketpbr_read sockfd message sockname stack pbr s = socketpbr_recv sockfd message sockname stack pbr s"

text \<open>\<open>set_ok\<close> is the success of \<open>setsockopt\<close>. The result with the option that was set, the level and the name.\<close>

datatype pktinfo = IP_PKTINFO | IPV6_RECVPKTINFO

definition socketpbr_set :: "sockaddr_in46 option \<Rightarrow> bool \<Rightarrow> ('f, 'c) SocketPBR \<Rightarrow> af \<Rightarrow> int \<times> pktinfo option" where
  "socketpbr_set sockname set_ok pbr f0 =
     (if f0 = AF_UNSPEC \<and> sockname = None then (- 1, None)
      else
        let f = (if f0 = AF_UNSPEC then sa_family (the sockname) else f0) in
        if \<not> (f = AF_INET \<or> f = AF_INET6) then (- 1, None)
        else if dst_required pbr then
          (if set_ok then (0, Some (if f = AF_INET then IP_PKTINFO else IPV6_RECVPKTINFO)) else (- 1, None))
        else (0, None))"

section \<open>Properties\<close>

text \<open>The route of a connection is the first that matches: \<open>socketpr_resolve\<close> gives a route exactly when it stands in the
  array before the end mark, both of its policies match, and one policy of every route before it does not.\<close>

definition route_matches :: "Socket5Tuple \<Rightarrow> ('f, 'c) SocketPolicyRoute \<Rightarrow> bool option" where
  "route_matches conn r =
     Option.bind (sockaddrpr_match (pr_src r) (src conn)) (\<lambda>m. if m then sockaddrpr_match (pr_dst r) (dst conn) else Some False)"

lemma socketpr_resolve_step:
  "socketpr_resolve (r # routes) conn =
     (if pr_func r = None then Some None
      else Option.bind (route_matches conn r) (\<lambda>m. if m then Some (Some r) else socketpr_resolve routes conn))"
  by (auto simp: route_matches_def split: bind_splits)

declare socketpr_resolve.simps(2) [simp del]

theorem socketpr_resolve_first:
  "socketpr_resolve routes conn = Some (Some r) \<longleftrightarrow>
     (\<exists>before after. routes = before @ r # after \<and> pr_func r \<noteq> None \<and> route_matches conn r = Some True \<and>
        (\<forall>x \<in> set before. pr_func x \<noteq> None \<and> route_matches conn x = Some False))"
proof (induction routes)
  case (Cons x routes)
  show ?case
  proof (cases "pr_func x \<noteq> None \<and> route_matches conn x = Some False")
    case True
    then have "socketpr_resolve (x # routes) conn = socketpr_resolve routes conn"
      by (auto simp: socketpr_resolve_step)
    moreover have "(\<exists>before after. x # routes = before @ r # after \<and> P before \<and> route_matches conn r = Some True) \<longleftrightarrow>
      (\<exists>before after. routes = before @ r # after \<and> P (x # before) \<and> route_matches conn r = Some True)" for P
      using True by (auto simp: Cons_eq_append_conv)
    ultimately show ?thesis
      using True Cons.IH
      by (auto simp: Cons_eq_append_conv) (metis append_Cons set_ConsD)
  next
    case False
    then show ?thesis by (auto simp: socketpr_resolve_step Cons_eq_append_conv split: bind_splits)
  qed
qed simp

text \<open>An IPv4 address and a policy whose network is an IPv4 network: the test of the host is the comparison of the first bits.\<close>

theorem sockaddrpr_match_ipv4:
  assumes "sa_family a = AF_INET" and "sin_addr a \<noteq> 0" and "IN6_IS_ADDR_V4MAPPED (network6 p)"
    and "prefix_len p = int n" and "0 < n" and "n \<le> 32"
  shows "sockaddrpr_match p a =
    Some (same_prefix n (sin_addr a) (s6_3 (network6 p)) \<and> policy_port p (ntohs (sa_port a)) \<and>
      (scope_id p = 0 \<or> sa_scope_id a = 0 \<or> scope_id p = sa_scope_id a))"
  using assms innetwork4_prefix [of n "sin_addr a" "s6_3 (network6 p)"]
  by (auto simp: sockaddrpr_match_def policy_host_def sockaddr_get_def sockaddr_addr_def inet_innetwork_def
      policy_network_def split: if_splits)

theorem sockaddrpr_match_ipv4_witness:
  "sockaddrpr_match \<lparr>network6 = In6 0 0 (lhtonl 0xffff) (lhtonl 0x0a000000), scope_id = 0, port_min = 80, port_max = 0, prefix_len = 8\<rparr>
     (sockaddr_zero\<lparr>sa_family := AF_INET, sin_addr := lhtonl 0x0a000001, sa_port := htons 81\<rparr>) = Some False"
  using sockaddrpr_match_ipv4
    [of "sockaddr_zero\<lparr>sa_family := AF_INET, sin_addr := lhtonl 0x0a000001, sa_port := htons 81\<rparr>"
        "\<lparr>network6 = In6 0 0 (lhtonl 0xffff) (lhtonl 0x0a000000), scope_id = 0, port_min = 80, port_max = 0, prefix_len = 8\<rparr>" 8]
  by (simp add: policy_port_def IN6_IS_ADDR_V4MAPPED_def)

text \<open>An IPv4 address is in every network that is a proper IPv6 network: the prefix is not looked at.\<close>

theorem sockaddrpr_match_ipv6_policy:
  assumes "sa_family a = AF_INET" and "\<not> IN6_IS_ADDR_V4MAPPED (network6 p)" and "\<not> IN6_IS_ADDR_V4COMPAT (network6 p)"
    and "scope_id p = 0"
  shows "sockaddrpr_match p a = Some (policy_port p (ntohs (sa_port a)))"
  using assms by (simp add: sockaddrpr_match_def policy_host_def sockaddr_get_def)

text \<open>Without \<open>dst_required\<close> the policy for the destination is not ignored: a route with a destination network sends
  \<open>sockaddrpr_match\<close> through a pointer that was never set.\<close>

theorem socketpbr_accept4_reads_dst:
  assumes "\<not> dst_required pbr" and "0 \<le> child" and "pbr_dispatch pbr = Routes (r # routes)" and "pr_func r \<noteq> None"
    and "sockaddrpr_match (pr_src r) (kernel_addr peer) = Some True" and "prefix_len (pr_dst r) \<noteq> 0"
  shows "socketpbr_accept4 (child, peer) sockname pbr s = None"
proof -
  have "sockaddrpr_match (pr_dst r) sockaddr_zero = None"
    using assms(6) by (simp add: sockaddrpr_match_def policy_host_def sockaddr_get_def sockaddr_zero_def)
  then have "pbr_resolve pbr \<lparr>src = kernel_addr peer, dst = sockaddr_zero\<rparr> = None"
    using assms by (simp add: pbr_resolve_def socketpr_resolve.simps(2))
  then show ?thesis using assms by (simp add: socketpbr_accept4_def)
qed

text \<open>The port that \<open>getsockport\<close> finds is in host order but is stored as one in network order: policies see it swapped.\<close>

theorem getsockport_swapped:
  assumes "sa_family a \<in> {AF_INET, AF_INET6}" and "sa_family d \<in> {AF_INET, AF_INET6}"
  shows "fst (sockaddr_get (d\<lparr>sa_port := word_of_int (getsockport (Some a))\<rparr>)) = ntohs (fst (sockaddr_get a))"
  using assms by (auto simp: sockaddr_get_def getsockport_def)

end
