(* ===== verification/Server.thy ===== *)
theory Server
  imports Prelude
begin

text \<open>
  \<^verbatim>\<open>inet46i/server.h\<close> and \<^verbatim>\<open>inet46i/server.c\<close>: waiting on several sockets.

  A callback is a pointer \<open>'f\<close>; \<open>call\<close>, a parameter, is what the code behind the pointer does with its arguments to
  the state of the caller, since the source casts the pointer by the bits of the type. The results of \<open>poll\<close>
  are a list, one for each round: \<open>None\<close> for an error, else which descriptors have an event.
\<close>

unbundle bit_operations_syntax

record ('f, 'c) pollservercb =
  cb_fd :: int
  cb_func :: "'f option"
  cb_context :: 'c
  cb_type :: u8

definition POLLSERVER_FUNC_ARGS :: u8 where "POLLSERVER_FUNC_ARGS = 7"
definition POLLSERVER_FUNC_SOCKET_CONTEXT :: u8 where "POLLSERVER_FUNC_SOCKET_CONTEXT = 1"
definition POLLSERVER_FUNC_CB :: u8 where "POLLSERVER_FUNC_CB = 2"
definition POLLSERVER_FUNC_RETURNS :: u8 where "POLLSERVER_FUNC_RETURNS = 0x18"
definition POLLSERVER_FUNC_VOID :: u8 where "POLLSERVER_FUNC_VOID = 0x08"
definition POLLSERVER_FUNC_FATAL_NEG :: u8 where "POLLSERVER_FUNC_FATAL_NEG = 0x10"
definition POLLSERVER_FUNC_FATAL_NONZERO :: u8 where "POLLSERVER_FUNC_FATAL_NONZERO = 0x18"

datatype ('f, 'c) cb_args = ContextSocket 'c int | SocketContext int 'c | CbArg "('f, 'c) pollservercb"

type_synonym ('f, 'c, 's) interp = "'f \<Rightarrow> ('f, 'c) cb_args \<Rightarrow> 's \<Rightarrow> int \<times> 's"

text \<open>The results of \<open>recv\<close>; those that are left when the loop ends, if it does.\<close>

fun pollserver_recvall :: "int list \<Rightarrow> (int \<times> int list) option" where
  "pollserver_recvall [] = None"
| "pollserver_recvall (r # rs) = (if 0 < r then pollserver_recvall rs else Some (0, rs))"

definition cb_args :: "('f, 'c) pollservercb \<Rightarrow> ('f, 'c) cb_args" where
  "cb_args cb =
     (let t = cb_type cb AND POLLSERVER_FUNC_ARGS in
      if t = POLLSERVER_FUNC_SOCKET_CONTEXT then SocketContext (cb_fd cb) (cb_context cb)
      else if t = POLLSERVER_FUNC_CB then CbArg cb
      else ContextSocket (cb_context cb) (cb_fd cb))"

definition pollserver_call :: "('f, 'c, 's) interp \<Rightarrow> ('f, 'c) pollservercb \<Rightarrow> 's \<Rightarrow> int \<times> 's" where
  "pollserver_call call cb s =
     (case cb_func cb of
        None \<Rightarrow> (0, s)
      | Some f \<Rightarrow>
          let (ret, s) = call f (cb_args cb) s in
          (if cb_type cb AND POLLSERVER_FUNC_RETURNS = POLLSERVER_FUNC_VOID then 0 else ret, s))"

text \<open>Is the result of a callback the end of the server?\<close>

definition cb_fatal :: "('f, 'c) pollservercb \<Rightarrow> int \<Rightarrow> bool" where
  "cb_fatal cb res \<longleftrightarrow>
     (let t = cb_type cb AND POLLSERVER_FUNC_RETURNS in
      if t = POLLSERVER_FUNC_FATAL_NEG then res < 0
      else t = POLLSERVER_FUNC_FATAL_NONZERO \<and> res \<noteq> 0)"

text \<open>The loop over the descriptors; \<open>Some\<close> is the value that is returned.\<close>

fun pollserver_ready ::
  "('f, 'c, 's) interp \<Rightarrow> (('f, 'c) pollservercb \<times> bool) list \<Rightarrow> 's \<Rightarrow> int option \<times> 's" where
  "pollserver_ready call [] s = (None, s)"
| "pollserver_ready call ((cb, revents) # cbs) s =
     (if \<not> revents then pollserver_ready call cbs s
      else let (res, s) = pollserver_call call cb s in
        if cb_fatal cb res then (Some res, s) else pollserver_ready call cbs s)"

datatype outcome = Running | Returned int | Undefined

text \<open>After an error of \<open>poll\<close> that does not end the server, the loop reads the events of the round before; in the first
  round they were never set. \<open>Undefined\<close> is that read, or the call through a \<open>timeout_cb\<close> that is \<open>NULL\<close>.\<close>

fun pollserver_rounds ::
  "('f, 'c, 's) interp \<Rightarrow> ('f, 'c) pollservercb list \<Rightarrow> int \<Rightarrow> ('f, 'c) pollservercb option \<Rightarrow>
   bool list option \<Rightarrow> bool list option list \<Rightarrow> 's \<Rightarrow> outcome \<times> 's" where
  "pollserver_rounds call cbs timeout tcb revents [] s = (Running, s)"
| "pollserver_rounds call cbs timeout tcb revents (Some ready # polls) s =
     (case pollserver_ready call (zip cbs ready) s of
        (Some res, s) \<Rightarrow> (Returned res, s)
      | (None, s) \<Rightarrow> pollserver_rounds call cbs timeout tcb (Some ready) polls s)"
| "pollserver_rounds call cbs timeout tcb revents (None # polls) s =
     (if timeout < 0 \<and> (case tcb of None \<Rightarrow> True | Some cb \<Rightarrow> cb_func cb = None) then (Returned 1, s)
      else case tcb of
             None \<Rightarrow> (Undefined, s)
           | Some cb \<Rightarrow>
               let (res, s) = pollserver_call call cb s in
               if res \<noteq> 0 then (Returned res, s)
               else case revents of
                      None \<Rightarrow> (Undefined, s)
                    | Some ready \<Rightarrow>
                        (case pollserver_ready call (zip cbs ready) s of
                           (Some res, s) \<Rightarrow> (Returned res, s)
                         | (None, s) \<Rightarrow> pollserver_rounds call cbs timeout tcb revents polls s))"

definition pollserver ::
  "('f, 'c, 's) interp \<Rightarrow> ('f, 'c) pollservercb list \<Rightarrow> int \<Rightarrow> ('f, 'c) pollservercb option \<Rightarrow>
   bool list option list \<Rightarrow> 's \<Rightarrow> outcome \<times> 's" where
  "pollserver call cbs timeout tcb polls s =
     (if cbs = [] then (Returned 255, s) else pollserver_rounds call cbs timeout tcb None polls s)"

section \<open>Properties\<close>

text \<open>The callback for timeouts is never called on a timeout: as long as \<open>poll\<close> does not fail, with or without events,
  the server does the same with every such callback and with none.\<close>

lemma pollserver_rounds_no_error:
  "None \<notin> set polls \<Longrightarrow>
     pollserver_rounds call cbs timeout tcb revents polls s = pollserver_rounds call cbs timeout tcb' revents' polls s"
proof (induction polls arbitrary: revents revents' s)
  case (Cons p polls)
  then obtain ready where "p = Some ready" "None \<notin> set polls" by (cases p) auto
  with Cons.IH show ?case by (auto split: prod.splits option.splits)
qed simp

theorem pollserver_timeout_unused:
  assumes "None \<notin> set polls"
  shows "pollserver call cbs timeout tcb polls s = pollserver call cbs timeout tcb' polls s"
  using pollserver_rounds_no_error [OF assms] by (auto simp: pollserver_def)

text \<open>The server ends on account of a callback alone: without an error of \<open>poll\<close> it returns a number only when
  a callback whose type makes it fatal returned that number, on some state.\<close>

lemma pollserver_ready_fatal:
  "pollserver_ready call l s = (Some res, s') \<Longrightarrow>
     \<exists>cb s1. cb \<in> fst ` set l \<and> pollserver_call call cb s1 = (res, s') \<and> cb_fatal cb res"
proof (induction l arbitrary: s)
  case (Cons x l)
  obtain cb ev where x: "x = (cb, ev)" by (cases x)
  obtain r s1 where c: "pollserver_call call cb s = (r, s1)" by (cases "pollserver_call call cb s")
  show ?case
  proof (cases "ev \<and> cb_fatal cb r")
    case True
    with Cons.prems x c show ?thesis by auto
  next
    case False
    with Cons.prems x c have "\<exists>s2. pollserver_ready call l s2 = (Some res, s')" by (auto split: if_splits)
    with Cons.IH show ?thesis by fastforce
  qed
qed simp

theorem pollserver_returns:
  assumes "None \<notin> set polls" and "cbs \<noteq> []" and "pollserver call cbs timeout tcb polls s = (Returned res, s')"
  shows "\<exists>cb s1. cb \<in> set cbs \<and> pollserver_call call cb s1 = (res, s') \<and> cb_fatal cb res"
proof -
  have "pollserver_rounds call cbs timeout tcb revents polls s = (Returned res, s') \<Longrightarrow> ?thesis" for revents s
    using assms(1)
  proof (induction polls arbitrary: revents s)
    case (Cons p polls)
    then obtain ready where p: "p = Some ready" "None \<notin> set polls" by (cases p) auto
    show ?case
    proof (cases "pollserver_ready call (zip cbs ready) s")
      case (Pair r s2)
      then show ?thesis
        using Cons.prems Cons.IH p pollserver_ready_fatal [of call "zip cbs ready" s res s']
        by (fastforce split: option.splits dest: set_zip_leftD)
    qed
  qed simp
  then show ?thesis using assms(2,3) by (simp add: pollserver_def)
qed

text \<open>An error of \<open>poll\<close> in the first round, with a time limit and without the callback, is a call through \<open>NULL\<close>.\<close>

theorem pollserver_null_callback:
  assumes "cbs \<noteq> []" and "0 \<le> timeout"
  shows "pollserver call cbs timeout None (None # polls) s = (Undefined, s)"
  using assms by (simp add: pollserver_def)

end
