(* ===== verification/Log.thy ===== *)
theory Log
  imports World
begin

text \<open>
  \<^verbatim>\<open>utils/log.h\<close>, \<^verbatim>\<open>utils/log.c\<close> and the colours of \<^verbatim>\<open>utils/color.h\<close>: log messages.

  Every write of the source is one datagram to its descriptor in the world; its result is the number of bytes, or
  \<open>- 1\<close>. What the C library and the terminal decide is the record \<open>log_env\<close>: the formatted time, the
  stack frames, the answers to the question whether to debug. \<open>None\<close> is a use of memory outside of an array or
  that was not set, or a point that the source declares unreachable.
\<close>

type_synonym log_net = "(int \<times> char list) world"

section \<open>Levels\<close>

datatype LogLevel = LOG_LEVEL_EMERG | LOG_LEVEL_ALERT | LOG_LEVEL_CRITICAL | LOG_LEVEL_ERROR | LOG_LEVEL_WARNING
  | LOG_LEVEL_NOTICE | LOG_LEVEL_INFO | LOG_LEVEL_DEBUG | LOG_LEVEL_VERBOSE

fun level_code :: "LogLevel \<Rightarrow> int" where
  "level_code LOG_LEVEL_EMERG = 0"
| "level_code LOG_LEVEL_ALERT = 1"
| "level_code LOG_LEVEL_CRITICAL = 2"
| "level_code LOG_LEVEL_ERROR = 3"
| "level_code LOG_LEVEL_WARNING = 4"
| "level_code LOG_LEVEL_NOTICE = 5"
| "level_code LOG_LEVEL_INFO = 6"
| "level_code LOG_LEVEL_DEBUG = 7"
| "level_code LOG_LEVEL_VERBOSE = 8"

text \<open>Levels are ordered like their codes, the most severe first.\<close>

lemma level_code_inject [simp]: "level_code a = level_code b \<longleftrightarrow> a = b"
  by (cases a; cases b) simp_all

instantiation LogLevel :: linorder
begin

definition less_eq_LogLevel :: "LogLevel \<Rightarrow> LogLevel \<Rightarrow> bool" where
  "less_eq_LogLevel a b \<longleftrightarrow> level_code a \<le> level_code b"

definition less_LogLevel :: "LogLevel \<Rightarrow> LogLevel \<Rightarrow> bool" where
  "less_LogLevel a b \<longleftrightarrow> level_code a < level_code b"

instance
  by standard (auto simp: less_eq_LogLevel_def less_LogLevel_def)

end

definition LOG_LEVEL_COUNT :: nat where "LOG_LEVEL_COUNT = 9"

definition LogLevel_names :: "char list list" where
  "LogLevel_names = [''EMERGENCY'', ''ALERT'', ''CRITICAL'', ''ERROR'', ''WARNING'', ''NOTICE'', ''INFO'', ''DEBUG'', ''VERBOSE'']"

definition LogLevel_clamp :: "int \<Rightarrow> int" where
  "LogLevel_clamp level =
     (if level < level_code LOG_LEVEL_EMERG then level_code LOG_LEVEL_EMERG
      else if level > level_code LOG_LEVEL_VERBOSE then level_code LOG_LEVEL_VERBOSE else level)"

section \<open>Streams and loggers\<close>

datatype begin_func = StdBegin | StdBeginNocolor

text \<open>\<open>ls_end\<close> is the text that the function for the end of a message writes; the streams of the source have none.\<close>

record LoggerStream =
  ls_fd :: int
  ls_begin :: "begin_func option"
  ls_end :: "char list option"

definition logger_stream_stdout :: LoggerStream where
  "logger_stream_stdout = \<lparr>ls_fd = 1, ls_begin = Some StdBegin, ls_end = None\<rparr>"

definition logger_stream_stderr :: LoggerStream where
  "logger_stream_stderr = \<lparr>ls_fd = 2, ls_begin = Some StdBegin, ls_end = None\<rparr>"

definition logger_stream_stdout_nocolor :: LoggerStream where
  "logger_stream_stdout_nocolor = \<lparr>ls_fd = 1, ls_begin = Some StdBeginNocolor, ls_end = None\<rparr>"

definition logger_stream_stderr_nocolor :: LoggerStream where
  "logger_stream_stderr_nocolor = \<lparr>ls_fd = 2, ls_begin = Some StdBeginNocolor, ls_end = None\<rparr>"

record Logger =
  lg_level :: u8
  lg_fatal :: u8
  lg_backtrace :: bool
  lg_debug :: bool
  lg_domain :: "char list option"
  lg_formatted :: "(LoggerStream \<times> char list) list"

text \<open>The parameters that select colours. \<open>ESC\<close> starts a sequence.\<close>

abbreviation ESC :: char where "ESC \<equiv> CHR 0x1B"

definition RESET_SEQ :: "char list" where "RESET_SEQ = ESC # ''[0m''"

definition COLOR_SEQ :: "char list \<Rightarrow> char list" where "COLOR_SEQ col = ESC # ''['' @ col @ ''m''"

definition logger_sgr :: "char list list" where
  "logger_sgr = [''5;1;41;97'', ''1;41;97'', ''1;31'', ''1;31'', ''1;33'', ''1;32'', ''34'', ''35'', ''36'']"

definition LOGGER_INIT :: Logger where
  "LOGGER_INIT = \<lparr>lg_level = 5, lg_fatal = 2, lg_backtrace = True, lg_debug = False, lg_domain = None,
     lg_formatted = zip (replicate 3 logger_stream_stderr @ replicate 6 logger_stream_stdout) logger_sgr\<rparr>"

definition Logger_set_stream :: "int \<Rightarrow> LoggerStream \<Rightarrow> Logger \<Rightarrow> Logger" where
  "Logger_set_stream level stream self =
     self\<lparr>lg_formatted := fold (\<lambda>i fs. fs[i := (stream, snd (fs ! i))]) [0..<Suc (nat (LogLevel_clamp level))] (lg_formatted self)\<rparr>"

definition Logger_would_log :: "Logger \<Rightarrow> int \<Rightarrow> bool" where
  "Logger_would_log self level \<longleftrightarrow> level \<le> int (unat (lg_level self))"

section \<open>The environment\<close>

record log_env =
  le_time :: "int \<Rightarrow> char list"
  le_frames :: "char list list"
  le_pid :: nat
  le_polls :: "bool list"
  le_input :: char
  le_attached :: bool

definition write_fd :: "int \<Rightarrow> char list \<Rightarrow> log_net \<Rightarrow> int \<times> log_net" where
  "write_fd fd str w = (let (ok, w) = sys_send (fd, str) w in (if ok then int (length str) else - 1, w))"

section \<open>The stack\<close>

text \<open>\<open>frames\<close> are what \<open>backtrace\<close> would find, the innermost first; it stores at most 64 of them.\<close>

definition print_backtrace :: "char list list \<Rightarrow> int \<Rightarrow> nat \<Rightarrow> bool \<Rightarrow> log_net \<Rightarrow> log_net" where
  "print_backtrace frames fd skip0 with_header w =
     (let skip = skip0 + 1; size = min 64 (length frames) in
      if 64 \<le> skip then snd (write_fd fd (''(too many frames skipped)'' @ [CHR 0x0A]) w)
      else if size = 0 then snd (write_fd fd (''(no available backtrace)'' @ [CHR 0x0A]) w)
      else
        let w = (if with_header then snd (write_fd fd (''Backtrace:'' @ [CHR 0x0A]) w) else w);
            skipped = size - (if size < 64 then 2 else 0) - skip;
            w = fold (\<lambda>f w. snd (write_fd fd (f @ [CHR 0x0A]) w)) (take skipped (drop skip frames)) w
        in if size = 64 then snd (write_fd fd (''...and possibly more'' @ [CHR 0x0A]) w) else w)"

text \<open>\<open>polls\<close> are the results of the five waits of a second for an input.\<close>

fun wait_input :: "nat \<Rightarrow> bool list \<Rightarrow> log_net \<Rightarrow> bool \<times> log_net" where
  "wait_input 0 polls w = (False, w)"
| "wait_input (Suc n) [] w = wait_input n [] (snd (write_fd 2 ''.'' w))"
| "wait_input (Suc n) (p # polls) w = (if p then (True, w) else wait_input n polls (snd (write_fd 2 ''.'' w)))"

definition wait_debugger :: "log_env \<Rightarrow> log_net \<Rightarrow> bool \<times> log_net" where
  "wait_debugger env w =
     (let w = snd (write_fd 2 (''('' @ showd (le_pid env) @ '') Start debugging? [y/N] '') w);
          (inputed, w) = wait_input 5 (le_polls env) w
      in if \<not> inputed then (False, snd (write_fd 2 [CHR 0x0A] w))
         else
           let w = (if le_input env \<noteq> CHR 0x0A then snd (write_fd 2 [CHR 0x0A] w) else w) in
           if \<not> (le_input env = CHR ''Y'' \<or> le_input env = CHR ''y'') then (False, w)
           else
             let w = snd (write_fd 2 (''Wait debugger to attach... Enter '' @ [CHR 0x27] @ ''fg'' @ [CHR 0x27] @
                 '' to restore program...'' @ [CHR 0x0A]) w) in
             if \<not> le_attached env then (False, w) else (True, snd (write_fd 2 (''Attached!'' @ [CHR 0x0A]) w)))"

text \<open>The status when the process ends here.\<close>

definition exit_debug :: "log_env \<Rightarrow> u8 \<Rightarrow> bool \<Rightarrow> log_net \<Rightarrow> u8 option \<times> log_net" where
  "exit_debug env status debug w =
     (if debug then
        let (attached, w) = wait_debugger env w in
        if attached then (None, w) else (Some status, snd (write_fd 2 (''terminated'' @ [CHR 0x0A]) w))
      else (Some status, w))"

section \<open>Events\<close>

record LoggerEvent =
  ev_stream :: LoggerStream
  ev_skip :: nat
  ev_exit_status :: u8
  ev_fatal :: bool
  ev_backtrace :: bool
  ev_debug :: bool

definition ev_flags :: "LoggerEvent \<Rightarrow> bool" where
  "ev_flags self \<longleftrightarrow> ev_fatal self \<or> ev_backtrace self \<or> ev_debug self"

text \<open>The head of a message. The time has a buffer of 64 bytes.\<close>

definition place_text :: "char list option \<Rightarrow> nat \<Rightarrow> char list option \<Rightarrow> char list" where
  "place_text file line func =
     (case (file, func) of
        (None, _) \<Rightarrow> '': ''
      | (Some f, None) \<Rightarrow> '' ('' @ f @ '':'' @ showd line @ ''): ''
      | (Some f, Some g) \<Rightarrow> '' ('' @ f @ '':'' @ showd line @ '' '' @ g @ ''): '')"

definition logger_stream_std_begin ::
  "log_env \<Rightarrow> int \<Rightarrow> char list option \<Rightarrow> u8 \<Rightarrow> char list option \<Rightarrow> nat \<Rightarrow> char list option \<Rightarrow> char list option \<Rightarrow>
   log_net \<Rightarrow> (int \<times> log_net) option" where
  "logger_stream_std_begin env fd domain level file line func sgr w =
     (let (now, w) = sys_time w;
          t = le_time env (fst now);
          timebuf = (if sgr = None then t else COLOR_SEQ ''32'' @ t @ RESET_SEQ)
      in if 64 \<le> length timebuf then None
         else
           let (ret, w) = write_fd fd (timebuf @ place_text file line func) w;
               (ret, w) = (case domain of
                             None \<Rightarrow> (ret, w)
                           | Some d \<Rightarrow> (let (n, w) = write_fd fd (d @ ''-'') w in (ret + n, w)))
           in if LOG_LEVEL_COUNT \<le> unat level then None
              else
                let name = LogLevel_names ! unat level;
                    (n, w) = write_fd fd
                      (case sgr of
                         None \<Rightarrow> name @ '' **: ''
                       | Some sgr \<Rightarrow> ESC # ''['' @ sgr @ ''m'' @ name @ RESET_SEQ @ '' **: '') w
                in Some (ret + n, w))"

definition logger_stream_std_begin_nocolor ::
  "log_env \<Rightarrow> int \<Rightarrow> char list option \<Rightarrow> u8 \<Rightarrow> char list option \<Rightarrow> nat \<Rightarrow> char list option \<Rightarrow> char list option \<Rightarrow>
   log_net \<Rightarrow> (int \<times> log_net) option" where
  "logger_stream_std_begin_nocolor env fd domain level file line func sgr w =
     logger_stream_std_begin env fd domain level file line func None w"

text \<open>The level is converted to a byte when it is handed to the stream.\<close>

definition LoggerEvent_init_func ::
  "log_env \<Rightarrow> Logger \<Rightarrow> int \<Rightarrow> char list option \<Rightarrow> nat \<Rightarrow> char list option \<Rightarrow> log_net \<Rightarrow>
   (int \<times> LoggerEvent \<times> log_net) option" where
  "LoggerEvent_init_func env logger level file line func w =
     (let (stream, sgr) = lg_formatted logger ! nat (LogLevel_clamp level);
          fatal = (level \<le> level_code LOG_LEVEL_WARNING \<and> level \<le> int (unat (lg_fatal logger)));
          self = \<lparr>ev_stream = stream, ev_skip = 0, ev_exit_status = 0, ev_fatal = fatal,
                  ev_backtrace = fatal \<and> lg_backtrace logger, ev_debug = fatal \<and> lg_debug logger\<rparr>
      in case ls_begin stream of
           None \<Rightarrow> Some (0, self, w)
         | Some f \<Rightarrow>
             map_option (\<lambda>(ret, w). (ret, self, w))
               ((case f of StdBegin \<Rightarrow> logger_stream_std_begin | StdBeginNocolor \<Rightarrow> logger_stream_std_begin_nocolor)
                  env (ls_fd stream) (lg_domain logger) (word_of_int level) file line func (Some sgr) w))"

text \<open>The macro for blocks: from the level \<open>LOG_LEVEL_WARNING\<close> on it declares that no flag is set.\<close>

definition LoggerEvent_init_explicit ::
  "log_env \<Rightarrow> Logger \<Rightarrow> int \<Rightarrow> char list option \<Rightarrow> nat \<Rightarrow> char list option \<Rightarrow> log_net \<Rightarrow>
   (int \<times> LoggerEvent \<times> log_net) option" where
  "LoggerEvent_init_explicit env logger level file line func w =
     Option.bind (LoggerEvent_init_func env logger level file line func w) (\<lambda>(res, self, w).
       if level \<ge> level_code LOG_LEVEL_WARNING \<and> ev_flags self then None else Some (res, self, w))"

definition LoggerEvent_write_func :: "LoggerEvent \<Rightarrow> char list \<Rightarrow> log_net \<Rightarrow> int \<times> log_net" where
  "LoggerEvent_write_func self str w = write_fd (ls_fd (ev_stream self)) str w"

definition LoggerEvent_puts_func :: "LoggerEvent \<Rightarrow> char list \<Rightarrow> log_net \<Rightarrow> int \<times> log_net" where
  "LoggerEvent_puts_func self str w = LoggerEvent_write_func self str w"

text \<open>\<open>text\<close> is the format with its arguments.\<close>

definition LoggerEvent_log_va_func :: "LoggerEvent \<Rightarrow> char list \<Rightarrow> log_net \<Rightarrow> int \<times> log_net" where
  "LoggerEvent_log_va_func self str w = write_fd (ls_fd (ev_stream self)) str w"

definition LoggerEvent_log_func :: "LoggerEvent \<Rightarrow> char list \<Rightarrow> log_net \<Rightarrow> int \<times> log_net" where
  "LoggerEvent_log_func self str w = LoggerEvent_log_va_func self str w"

text \<open>\<open>strerror\<close> is the text for an error number, in the locale or without one; \<open>errno\<close> stands for 0.\<close>

definition LoggerEvent_perror_func ::
  "(int \<Rightarrow> char list) \<Rightarrow> int \<Rightarrow> LoggerEvent \<Rightarrow> int \<Rightarrow> bool \<Rightarrow> log_net \<Rightarrow> int \<times> log_net" where
  "LoggerEvent_perror_func strerror errno self errnum colon w =
     (let errnum = (if errnum = 0 then errno else errnum);
          (res, w) = (if colon then LoggerEvent_write_func self '': '' w else (0, w));
          (n, w) = LoggerEvent_puts_func self (strerror errnum) w
      in (res + n, w))"

definition LoggerEvent_backtrace_func :: "log_env \<Rightarrow> LoggerEvent \<Rightarrow> nat \<Rightarrow> log_net \<Rightarrow> int \<times> log_net" where
  "LoggerEvent_backtrace_func env self skip w =
     (0, print_backtrace (le_frames env) (ls_fd (ev_stream self)) (ev_skip self + skip + 1) True w)"

text \<open>The function for the end of the stream, which adds the bytes that it writes.\<close>

definition stream_end :: "LoggerStream \<Rightarrow> int \<times> log_net \<Rightarrow> int \<times> log_net" where
  "stream_end stream x =
     (case (ls_end stream, x) of
        (None, x) \<Rightarrow> x
      | (Some str, (res, w)) \<Rightarrow> (let (n, w) = write_fd (ls_fd stream) str w in (res + n, w)))"

text \<open>\<open>Inl\<close> is the status with which the process ends.\<close>

definition LoggerEvent_destroy_func :: "log_env \<Rightarrow> LoggerEvent \<Rightarrow> log_net \<Rightarrow> (u8 + int) \<times> log_net" where
  "LoggerEvent_destroy_func env self w =
     (let (res, w) = write_fd (ls_fd (ev_stream self)) [CHR 0x0A] w;
          w = (if ev_backtrace self
               then print_backtrace (le_frames env) (ls_fd (ev_stream self)) (ev_skip self + 1) True w else w);
          (res, w) = stream_end (ev_stream self) (res, w)
      in if ev_fatal self then
           (case exit_debug env (if ev_exit_status self = 0 then 1 else ev_exit_status self) (ev_debug self) w of
              (Some status, w) \<Rightarrow> (Inl status, w)
            | (None, w) \<Rightarrow> (Inr res, w))
         else (Inr res, w))"

definition LoggerEvent_destroy_inline :: "log_env \<Rightarrow> LoggerEvent \<Rightarrow> log_net \<Rightarrow> (u8 + int) \<times> log_net" where
  "LoggerEvent_destroy_inline env self w =
     (if ev_flags self then LoggerEvent_destroy_func env self w
      else let (res, w) = stream_end (ev_stream self) (write_fd (ls_fd (ev_stream self)) [CHR 0x0A] w) in (Inr res, w))"

section \<open>Messages\<close>

definition add_result :: "int \<Rightarrow> (u8 + int) \<times> log_net \<Rightarrow> (u8 + int) \<times> log_net" where
  "add_result n x = (case x of (Inl status, w) \<Rightarrow> (Inl status, w) | (Inr res, w) \<Rightarrow> (Inr (n + res), w))"

definition Logger_log_va_func ::
  "log_env \<Rightarrow> Logger \<Rightarrow> int \<Rightarrow> char list option \<Rightarrow> nat \<Rightarrow> char list option \<Rightarrow> char list \<Rightarrow> log_net \<Rightarrow>
   ((u8 + int) \<times> log_net) option" where
  "Logger_log_va_func env self level file line func str w =
     (if \<not> Logger_would_log self level then Some (Inr (- 1), w)
      else Option.bind (LoggerEvent_init_func env self level file line func w) (\<lambda>(res, event, w).
        let event = event\<lparr>ev_skip := 1\<rparr>;
            (n, w) = LoggerEvent_log_va_func event str w
        in Some (add_result (res + n) (LoggerEvent_destroy_inline env event w))))"

text \<open>The function with variable arguments has the same lines.\<close>

definition Logger_log_func ::
  "log_env \<Rightarrow> Logger \<Rightarrow> int \<Rightarrow> char list option \<Rightarrow> nat \<Rightarrow> char list option \<Rightarrow> char list \<Rightarrow> log_net \<Rightarrow>
   ((u8 + int) \<times> log_net) option" where
  "Logger_log_func env self level file line func str w = Logger_log_va_func env self level file line func str w"

text \<open>\<open>errno\<close> is saved at the start; \<open>later\<close> is what it is when the text of the error is written.\<close>

definition Logger_log_perror_func ::
  "(int \<Rightarrow> char list) \<Rightarrow> int \<Rightarrow> int \<Rightarrow> log_env \<Rightarrow> Logger \<Rightarrow> int \<Rightarrow> char list option \<Rightarrow> nat \<Rightarrow> char list option \<Rightarrow> char list \<Rightarrow> log_net \<Rightarrow>
   ((u8 + int) \<times> log_net) option" where
  "Logger_log_perror_func strerror errno later env self level file line func str w =
     (if \<not> Logger_would_log self level then Some (Inr (- 1), w)
      else Option.bind (LoggerEvent_init_func env self level file line func w) (\<lambda>(res, event, w).
        let event = event\<lparr>ev_skip := 1\<rparr>;
            (n, w) = LoggerEvent_log_va_func event str w;
            (m, w) = LoggerEvent_perror_func strerror later event errno True w
        in Some (add_result (res + n + m) (LoggerEvent_destroy_inline env event w))))"

text \<open>The handler for segmentation faults and the status with which it is set up.\<close>

definition sigsegv_status :: "int \<Rightarrow> u8" where
  "sigsegv_status exit_status = word_of_int (if exit_status = 0 then 1 else exit_status)"

definition sigsegv_handler ::
  "log_env \<Rightarrow> Logger \<Rightarrow> bool \<Rightarrow> int \<Rightarrow> char list option \<Rightarrow> nat \<Rightarrow> char list option \<Rightarrow> log_net \<Rightarrow>
   ((u8 + int) \<times> log_net) option" where
  "sigsegv_handler env logger enable_debug exit_status file line func w =
     (let level = level_code LOG_LEVEL_CRITICAL in
      if \<not> Logger_would_log logger level then Some (Inr 0, w)
      else Option.bind (LoggerEvent_init_explicit env logger level file line func w) (\<lambda>(res, event, w).
        let (n, w) = LoggerEvent_log_func event ''segmentation fault'' w;
            event = event\<lparr>ev_skip := 2, ev_exit_status := sigsegv_status exit_status, ev_fatal := True, ev_backtrace := True,
                          ev_debug := enable_debug\<rparr>
        in Some (LoggerEvent_destroy_inline env event w)))"

section \<open>Lemmas\<close>

lemma write_fd_ok: "w_ok w (w_tick w) \<Longrightarrow> write_fd fd str w = (int (length str), (step w)\<lparr>w_sent := w_sent w @ [(fd, str)]\<rparr>)"
  by (simp add: write_fd_def sys_send_def)

text \<open>The colours around a text, or none.\<close>

definition in_color :: "begin_func \<Rightarrow> char list \<Rightarrow> char list \<Rightarrow> char list" where
  "in_color f sgr str = (case f of StdBegin \<Rightarrow> ESC # ''['' @ sgr @ ''m'' @ str @ RESET_SEQ | StdBeginNocolor \<Rightarrow> str)"

definition message_head ::
  "begin_func \<Rightarrow> char list \<Rightarrow> char list option \<Rightarrow> nat \<Rightarrow> char list option \<Rightarrow> char list option \<Rightarrow> char list \<Rightarrow> nat \<Rightarrow> char list" where
  "message_head f t file line func domain sgr level =
     in_color f ''32'' t @ place_text file line func @ (case domain of None \<Rightarrow> [] | Some d \<Rightarrow> d @ ''-'') @
     in_color f sgr (LogLevel_names ! level) @ '' **: ''"

definition begin_of :: "begin_func \<Rightarrow> log_env \<Rightarrow> int \<Rightarrow> char list option \<Rightarrow> u8 \<Rightarrow> char list option \<Rightarrow> nat \<Rightarrow>
    char list option \<Rightarrow> char list option \<Rightarrow> log_net \<Rightarrow> (int \<times> log_net) option" where
  "begin_of f = (case f of StdBegin \<Rightarrow> logger_stream_std_begin | StdBeginNocolor \<Rightarrow> logger_stream_std_begin_nocolor)"

lemma begin_writes:
  assumes "\<forall>i. w_ok w i" and "unat level < 9" and "t = le_time env (fst (w_now w (w_tick w)))" and "length t < 55"
  shows "\<exists>w' parts. begin_of f env fd domain level file line func (Some sgr) w =
      Some (int (length (message_head f t file line func domain sgr (unat level))), w') \<and> w_ok w' = w_ok w \<and>
    w_sent w' = w_sent w @ map (Pair fd) parts \<and> concat parts = message_head f t file line func domain sgr (unat level)"
proof -
  let ?name = "in_color f sgr (LogLevel_names ! unat level) @ '' **: ''" and ?time = "in_color f ''32'' t @ place_text file line func"
  show ?thesis
    using assms
    by (intro exI [of _ "(step ((case domain of None \<Rightarrow> id | Some d \<Rightarrow> (\<lambda>v. (step v)\<lparr>w_sent := w_sent v @ [(fd, d @ ''-'')]\<rparr>))
          ((step (step w))\<lparr>w_sent := w_sent w @ [(fd, ?time)]\<rparr>)))
        \<lparr>w_sent := w_sent w @ map (Pair fd) (?time # (case domain of None \<Rightarrow> [] | Some d \<Rightarrow> [d @ ''-'']) @ [?name])\<rparr>"]
      exI [of _ "?time # (case domain of None \<Rightarrow> [] | Some d \<Rightarrow> [d @ ''-'']) @ [?name]"])
      (auto simp: begin_of_def logger_stream_std_begin_nocolor_def logger_stream_std_begin_def write_fd_ok Let_def
        in_color_def COLOR_SEQ_def RESET_SEQ_def LOG_LEVEL_COUNT_def message_head_def split: begin_func.splits option.splits)
qed

lemma begin_defined:
  assumes "unat level < 9" and "length (le_time env (fst (w_now w (w_tick w)))) < 55"
  shows "\<exists>n w'. begin_of f env fd domain level file line func (Some sgr) w = Some (n, w')"
  using assms
  by (auto simp: begin_of_def logger_stream_std_begin_nocolor_def logger_stream_std_begin_def Let_def COLOR_SEQ_def
      RESET_SEQ_def LOG_LEVEL_COUNT_def split: begin_func.splits prod.splits)

lemma byte_level: "0 \<le> level \<Longrightarrow> level \<le> 8 \<Longrightarrow> unat (word_of_int level :: u8) = nat level"
  by (simp add: unsigned_of_int take_bit_int_eq_self)

lemma level_clamp: "0 \<le> level \<Longrightarrow> level \<le> 8 \<Longrightarrow> LogLevel_clamp level = level"
  by (simp add: LogLevel_clamp_def)

text \<open>A message at a level that ends the program.\<close>

lemma init_fatal:
  assumes "0 \<le> level" and "level \<le> level_code LOG_LEVEL_WARNING" and "level \<le> int (unat (lg_fatal logger))"
    and "length (le_time env (fst (w_now w (w_tick w)))) < 55"
  shows "\<exists>n self w'. LoggerEvent_init_func env logger level file line func w = Some (n, self, w') \<and> ev_fatal self \<and>
    ev_exit_status self = 0 \<and> ev_debug self = lg_debug logger"
proof -
  obtain stream sgr where f: "lg_formatted logger ! nat level = (stream, sgr)" by (metis surj_pair)
  have "unat (word_of_int level :: u8) < 9" using assms(1,2) by (simp add: byte_level)
  note b = begin_defined [OF this assms(4)]
  show ?thesis
  proof (cases "ls_begin stream")
    case None
    then show ?thesis using assms f by (simp add: LoggerEvent_init_func_def level_clamp)
  next
    case (Some g)
    obtain n w' where "begin_of g env (ls_fd stream) (lg_domain logger) (word_of_int level) file line func (Some sgr) w = Some (n, w')"
      using b by blast
    then show ?thesis
      using assms f Some by (simp add: LoggerEvent_init_func_def level_clamp begin_of_def [symmetric])
  qed
qed

lemma wait_input_result: "fst (wait_input n polls w) \<longleftrightarrow> True \<in> set (take n polls)"
  by (induction n polls w rule: wait_input.induct) auto

text \<open>The user asks for a debugger and attaches one.\<close>

definition debugger_attaches :: "log_env \<Rightarrow> bool" where
  "debugger_attaches env \<longleftrightarrow> True \<in> set (take 5 (le_polls env)) \<and> le_input env \<in> {CHR ''Y'', CHR ''y''} \<and> le_attached env"

lemma wait_debugger_result: "fst (wait_debugger env w) \<longleftrightarrow> debugger_attaches env"
  by (auto simp: wait_debugger_def debugger_attaches_def Let_def case_prod_beta wait_input_result)

lemma exit_debug_result: "fst (exit_debug env status debug w) = (if debug \<and> debugger_attaches env then None else Some status)"
  by (simp add: exit_debug_def case_prod_beta wait_debugger_result)

lemma destroy_fatal:
  assumes "ev_fatal self" and "ev_exit_status self = 0"
  shows "\<exists>w' n. LoggerEvent_destroy_inline env self w = (if ev_debug self \<and> debugger_attaches env then Inr n else Inl 1, w')"
proof -
  obtain n0 w0 where a: "write_fd (ls_fd (ev_stream self)) [CHR 0x0A] w = (n0, w0)" by (metis surj_pair)
  obtain n w1 where "stream_end (ev_stream self) (n0, if ev_backtrace self
      then print_backtrace (le_frames env) (ls_fd (ev_stream self)) (ev_skip self + 1) True w0 else w0) = (n, w1)"
    by (metis surj_pair)
  with a assms have d: "LoggerEvent_destroy_func env self w = (case exit_debug env 1 (ev_debug self) w1 of
      (Some status, w) \<Rightarrow> (Inl status, w) | (None, w) \<Rightarrow> (Inr n, w))"
    by (simp add: LoggerEvent_destroy_func_def Let_def)
  show ?thesis
    using d exit_debug_result [of env 1 "ev_debug self" w1] assms
    by (cases "exit_debug env 1 (ev_debug self) w1") (auto simp: LoggerEvent_destroy_inline_def ev_flags_def)
qed

section \<open>Properties\<close>

text \<open>A message is one line: when its level is logged and does not end the program and no write fails, the descriptor of
  the stream for its level gets the time, the place, the domain, the name of the level, the text and a line
  feed, nothing else is written, and the result is the length of the line. A message above the level of the logger
  writes nothing.\<close>

theorem Logger_log_line:
  assumes "\<forall>i. w_ok w i" and "0 \<le> level" and "level \<le> 8"
    and "lg_formatted self ! nat level = (stream, sgr)" and "ls_begin stream = Some f" and "ls_end stream = None"
    and "level_code LOG_LEVEL_WARNING < level \<or> int (unat (lg_fatal self)) < level"
    and "t = le_time env (fst (w_now w (w_tick w)))" and "length t < 55"
    and "msg = message_head f t file line func (lg_domain self) sgr (nat level) @ str @ [CHR 0x0A]"
  shows "if Logger_would_log self level then
      \<exists>w' parts. Logger_log_func env self level file line func str w = Some (Inr (int (length msg)), w') \<and>
        w_sent w' = w_sent w @ map (Pair (ls_fd stream)) parts \<and> concat parts = msg
    else Logger_log_func env self level file line func str w = Some (Inr (- 1), w)"
proof (cases "Logger_would_log self level")
  case True
  note byte = byte_level [OF assms(2,3)]
  then have "unat (word_of_int level :: u8) < 9" using assms(2,3) by simp
  note begins = begin_writes [OF assms(1) this assms(8,9), of f "ls_fd stream" "lg_domain self" "file" line func sgr]
  obtain w1 parts where b: "begin_of f env (ls_fd stream) (lg_domain self) (word_of_int level) file line func (Some sgr) w =
      Some (int (length (message_head f t file line func (lg_domain self) sgr (nat level))), w1)" "w_ok w1 = w_ok w"
      "w_sent w1 = w_sent w @ map (Pair (ls_fd stream)) parts"
      "concat parts = message_head f t file line func (lg_domain self) sgr (nat level)"
    using begins unfolding byte by blast
  note clamp = level_clamp [OF assms(2,3)]
  have calm: "w_ok w1 i" for i using assms(1) b(2) by simp
  show ?thesis
    using True b assms(4-7,10) calm
    by (intro iffD2 [OF if_P] exI [of _ "(step ((step w1)\<lparr>w_sent := w_sent w1 @ [(ls_fd stream, str)]\<rparr>))
          \<lparr>w_sent := w_sent w1 @ [(ls_fd stream, str), (ls_fd stream, [CHR 0x0A])]\<rparr>"]
        exI [of _ "parts @ [str, [CHR 0x0A]]"])
      (auto simp: Logger_log_func_def Logger_log_va_func_def LoggerEvent_init_func_def clamp begin_of_def [symmetric]
        LoggerEvent_log_va_func_def LoggerEvent_destroy_inline_def ev_flags_def add_result_def stream_end_def write_fd_ok)
next
  case False
  then show ?thesis by (simp add: Logger_log_func_def Logger_log_va_func_def)
qed

definition sample_log_env :: log_env where
  "sample_log_env = \<lparr>le_time = (\<lambda>_. ''[Jan  1 00:00:00]''), le_frames = [], le_pid = 1, le_polls = [], le_input = CHR ''n'',
     le_attached = False\<rparr>"

lemma warning_stream: "lg_formatted LOGGER_INIT ! nat 4 = (logger_stream_stdout, ''1;33'')"
  by (simp add: LOGGER_INIT_def logger_sgr_def eval_nat_numeral)

theorem Logger_log_line_witness:
  "\<exists>n w' parts. Logger_log_func sample_log_env LOGGER_INIT 4 None 0 None ''hot'' calm = Some (Inr n, w') \<and>
     w_sent w' = map (Pair 1) parts \<and>
     concat parts = message_head StdBegin ''[Jan  1 00:00:00]'' None 0 None None ''1;33'' 4 @ ''hot'' @ [CHR 0x0A]"
proof -
  have "Logger_would_log LOGGER_INIT 4" by (simp add: Logger_would_log_def LOGGER_INIT_def)
  with Logger_log_line [OF _ _ _ warning_stream, of calm StdBegin "''[Jan  1 00:00:00]''" sample_log_env _ None 0 None "''hot''"]
  show ?thesis by (simp add: LOGGER_INIT_def logger_stream_stdout_def sample_log_env_def) blast
qed

text \<open>A message at the level \<open>fatal\<close> or a more severe one ends the process with the status 1, whatever writes fail, unless
  the logger allows to debug and a debugger is attached; from the level of warnings on no message does.\<close>

theorem Logger_log_fatal:
  assumes "Logger_would_log self level" and "0 \<le> level" and "level \<le> int (unat (lg_fatal self))"
    and "level \<le> level_code LOG_LEVEL_WARNING" and "\<forall>t. length (le_time env t) < 55"
  shows "\<exists>w' n. Logger_log_func env self level file line func str w =
    Some (if lg_debug self \<and> debugger_attaches env then Inr n else Inl 1, w')"
proof -
  obtain n event w1 where e: "LoggerEvent_init_func env self level file line func w = Some (n, event, w1)" "ev_fatal event"
    "ev_exit_status event = 0" "ev_debug event = lg_debug self"
    using init_fatal [OF assms(2,4,3)] assms(5) by blast
  obtain m w2 where v: "LoggerEvent_log_va_func (event\<lparr>ev_skip := 1\<rparr>) str w1 = (m, w2)" by (metis surj_pair)
  obtain w3 k where "LoggerEvent_destroy_inline env (event\<lparr>ev_skip := 1\<rparr>) w2 =
      (if lg_debug self \<and> debugger_attaches env then Inr k else Inl 1, w3)"
    using destroy_fatal [of "event\<lparr>ev_skip := 1\<rparr>" env w2] e by auto
  then show ?thesis
    using assms(1) e(1) v
    by (intro exI [of _ w3] exI [of _ "n + m + k"]) (simp add: Logger_log_func_def Logger_log_va_func_def add_result_def)
qed

theorem Logger_log_fatal_witness:
  "\<exists>w'. Logger_log_func sample_log_env LOGGER_INIT 2 None 0 None ''dead'' calm = Some (Inl 1, w')"
  using Logger_log_fatal [of LOGGER_INIT 2 sample_log_env None 0 None "''dead''" calm]
  by (simp add: LOGGER_INIT_def Logger_would_log_def sample_log_env_def debugger_attaches_def)

text \<open>The level is clamped when the stream is chosen but not when its name is: a level behind the last reads behind
  the names, as every negative level does, which is always logged.\<close>

theorem Logger_log_level_overrun:
  assumes "Logger_would_log self level" and "8 < level \<and> level < 256 \<or> - 248 < level \<and> level < 0"
    and "ls_begin (fst (lg_formatted self ! nat (LogLevel_clamp level))) \<noteq> None"
  shows "Logger_log_func env self level file line func str w = None"
proof -
  have "uint (word_of_int level :: u8) = (if level < 0 then level + 256 else level)"
  proof (cases "level < 0")
    case True
    then have "level mod 256 = (level + 256) mod 256" by simp
    also have "\<dots> = level + 256" using True assms(2) by (intro mod_pos_pos_trivial) auto
    finally show ?thesis using True by (simp add: unsigned_of_int take_bit_eq_mod)
  next
    case False
    then show ?thesis using assms(2) by (simp add: unsigned_of_int take_bit_int_eq_self)
  qed
  then have "8 < uint (word_of_int level :: u8)" using assms(2) by (auto split: if_splits)
  then have "LOG_LEVEL_COUNT \<le> unat (word_of_int level :: u8)" unfolding LOG_LEVEL_COUNT_def unat_eq_nat_uint by linarith
  then have "begin_of f env fd domain (word_of_int level) file line func sgr w = None" for f fd domain sgr
    by (auto simp: begin_of_def logger_stream_std_begin_nocolor_def logger_stream_std_begin_def Let_def
        split: begin_func.splits prod.splits option.splits)
  then show ?thesis
    using assms(1,3)
    by (cases "lg_formatted self ! nat (LogLevel_clamp level)")
      (auto simp: Logger_log_func_def Logger_log_va_func_def LoggerEvent_init_func_def begin_of_def [symmetric])
qed

text \<open>A block at the level of warnings is declared to have no flag, although a logger can make warnings fatal.\<close>

theorem LoggerEvent_warning_unreachable:
  assumes "4 \<le> unat (lg_fatal logger)" and "\<forall>t. length (le_time env t) < 55"
  shows "LoggerEvent_init_explicit env logger (level_code LOG_LEVEL_WARNING) file line func w = None"
proof -
  have "level_code LOG_LEVEL_WARNING \<le> int (unat (lg_fatal logger))" using assms(1) by (simp del: of_nat_unat) 
  then obtain n self w' where "LoggerEvent_init_func env logger (level_code LOG_LEVEL_WARNING) file line func w = Some (n, self, w')"
      "ev_fatal self"
    using init_fatal [of "level_code LOG_LEVEL_WARNING" logger env w "file" line func] assms by auto
  then show ?thesis by (simp add: LoggerEvent_init_explicit_def ev_flags_def)
qed

end
