(* ===== verification/Trace.thy ===== *)
theory Trace
  imports Log Host
begin

text \<open>
  How the program logs: the macros of \<^verbatim>\<open>utils/log.h\<close>, the logger of discovery messages
  (\<^verbatim>\<open>leelen/discovery/protocol.c\<close>), the diagnosis of segmentation faults (\<^verbatim>\<open>utils/log.c\<close>) and the
  option for debugging (\<^verbatim>\<open>leelen2sip.c\<close>).

  A macro gets the file, the line and the function of the place where it is used as arguments. \<open>None\<close> is
  undefined behaviour, as in theory Log.
\<close>

section \<open>Macros for messages\<close>

definition Logger_log_explicit ::
  "log_env \<Rightarrow> Logger \<Rightarrow> int \<Rightarrow> char list option \<Rightarrow> nat \<Rightarrow> char list option \<Rightarrow> char list \<Rightarrow> log_net \<Rightarrow>
   ((u8 + int) \<times> log_net) option" where
  "Logger_log_explicit env self level file line func str w =
     (if \<not> Logger_would_log self level then Some (Inr (- 1), w)
      else Option.bind (LoggerEvent_init_func env self level file line func w) (\<lambda>(res, event, w).
        let (n, w) = write_fd (ls_fd (ev_stream event)) str w
        in Some (add_result (res + n) (LoggerEvent_destroy_inline env event w))))"

definition Logger_log ::
  "log_env \<Rightarrow> Logger \<Rightarrow> int \<Rightarrow> char list option \<Rightarrow> nat \<Rightarrow> char list option \<Rightarrow> char list \<Rightarrow> log_net \<Rightarrow>
   ((u8 + int) \<times> log_net) option" where
  "Logger_log env self level file line func str w =
     (if \<not> Logger_would_log self level then Some (Inr (- 1), w)
      else Logger_log_explicit env self level file line func str w)"

definition Logger_log_va ::
  "log_env \<Rightarrow> Logger \<Rightarrow> int \<Rightarrow> char list option \<Rightarrow> nat \<Rightarrow> char list option \<Rightarrow> char list \<Rightarrow> log_net \<Rightarrow>
   ((u8 + int) \<times> log_net) option" where
  "Logger_log_va env logger level file line func str w =
     (if \<not> Logger_would_log logger level then Some (Inr (- 1), w)
      else Logger_log_va_func env logger level file line func str w)"

definition Logger_log_perror_explicit ::
  "(int \<Rightarrow> char list) \<Rightarrow> int \<Rightarrow> int \<Rightarrow> log_env \<Rightarrow> Logger \<Rightarrow> int \<Rightarrow> char list option \<Rightarrow> nat \<Rightarrow> char list option \<Rightarrow> char list \<Rightarrow> log_net \<Rightarrow>
   ((u8 + int) \<times> log_net) option" where
  "Logger_log_perror_explicit strerror errno later env self level file line func str w =
     (if \<not> Logger_would_log self level then Some (Inr (- 1), w)
      else Option.bind (LoggerEvent_init_func env self level file line func w) (\<lambda>(res, event, w).
        let (n, w) = write_fd (ls_fd (ev_stream event)) str w;
            (m, w) = LoggerEvent_perror_func strerror later event errno True w
        in Some (add_result (res + n + m) (LoggerEvent_destroy_inline env event w))))"

definition Logger_log_perror ::
  "(int \<Rightarrow> char list) \<Rightarrow> int \<Rightarrow> int \<Rightarrow> log_env \<Rightarrow> Logger \<Rightarrow> int \<Rightarrow> char list option \<Rightarrow> nat \<Rightarrow> char list option \<Rightarrow> char list \<Rightarrow> log_net \<Rightarrow>
   ((u8 + int) \<times> log_net) option" where
  "Logger_log_perror strerror errno later env self level file line func str w =
     (if \<not> Logger_would_log self level then Some (Inr (- 1), w)
      else Logger_log_perror_explicit strerror errno later env self level file line func str w)"

text \<open>A block that is run with an event: nothing happens when the level is not logged. The block may change the
  event. \<open>Inl\<close>: the process ended.\<close>

definition logevent ::
  "log_env \<Rightarrow> Logger \<Rightarrow> int \<Rightarrow> char list option \<Rightarrow> nat \<Rightarrow> char list option \<Rightarrow>
   (LoggerEvent \<Rightarrow> log_net \<Rightarrow> (LoggerEvent \<times> log_net) option) \<Rightarrow> log_net \<Rightarrow> ((u8 + unit) \<times> log_net) option" where
  "logevent env logger level file line func block w =
     (if \<not> Logger_would_log logger level then Some (Inr (), w)
      else Option.bind (LoggerEvent_init_explicit env logger level file line func w) (\<lambda>(res, event, w).
        map_option (\<lambda>(event, w). map_prod (map_sum id (\<lambda>_. ())) id (LoggerEvent_destroy_inline env event w)) (block event w)))"

section \<open>Segmentation faults\<close>

record sigsegv =
  sg_debug :: bool
  sg_exit_status :: int
  sg_installed :: bool

text \<open>\<open>sigaction\<close> may fail; the variables are set first.\<close>

definition diagnose_sigsegv :: "bool \<Rightarrow> int \<Rightarrow> sigsegv \<Rightarrow> log_net \<Rightarrow> int \<times> sigsegv \<times> log_net" where
  "diagnose_sigsegv enable_debug exit_status self w =
     (let self = self\<lparr>sg_debug := enable_debug, sg_exit_status := (if exit_status = 0 then 1 else exit_status)\<rparr>;
          (ok, w) = sys w
      in if ok then (0, self\<lparr>sg_installed := True\<rparr>, w) else (- 1, self, w))"

section \<open>The level of the program\<close>

text \<open>The option \<^verbatim>\<open>-d\<close>; the sum is an \<open>int\<close> and is cut to a byte when it is stored.\<close>

definition debug_option :: "Logger \<Rightarrow> Logger" where
  "debug_option logger =
     logger\<lparr>lg_level := word_of_int (max (level_code LOG_LEVEL_DEBUG) (int (unat (lg_level logger)) + 1))\<rparr>"

section \<open>Discovery messages\<close>

text \<open>The destination: \<open>inet_ntop\<close> sets the buffer for the two families that it knows.\<close>

definition dst_text :: "print_lib \<Rightarrow> af \<Rightarrow> in6_addr option \<Rightarrow> char list option" where
  "dst_text lib family dst =
     (case dst of
        None \<Rightarrow> Some ''?''
      | Some dst \<Rightarrow>
          (if family = AF_INET then Some (ntop4 lib (s6_0 dst))
           else if family = AF_INET6 then Some (ntop6 lib dst) else None))"

text \<open>The name of the interface: \<open>if_indextoname\<close> leaves the buffer as it is when there is no such interface.\<close>

definition discovery_block ::
  "print_lib \<Rightarrow> char list \<Rightarrow> sockaddr_in46 \<Rightarrow> in6_addr option \<Rightarrow> u32 \<Rightarrow> LoggerEvent \<Rightarrow> log_net \<Rightarrow> (LoggerEvent \<times> log_net) option"
where
  "discovery_block lib msg src dst index event w =
     (let (_, w) = LoggerEvent_puts_func event ''['' w in
      Option.bind (dst_text lib (sa_family src) dst) (\<lambda>s_dst.
        let (_, w) = LoggerEvent_puts_func event s_dst w in
        Option.bind
          (if index \<noteq> 0 then
             let (_, w) = LoggerEvent_puts_func event ''%'' w in
             map_option (\<lambda>name. snd (LoggerEvent_puts_func event name w)) (ifname lib index)
           else Some w) (\<lambda>w.
          Option.bind (sockaddr_toa lib src SOCKADDR_STRLEN) (\<lambda>s_src.
            let (_, w) = LoggerEvent_log_func event
                  (if Leelen_discovery_is_advertisement msg then ''] Advertisement from '' @ s_src @ '': '' @ msg
                   else ''] Who is '' @ msg @ ''? Tell '' @ s_src) w
            in Some (event, w)))))"

definition Leelen_discovery_logger ::
  "print_lib \<Rightarrow> log_env \<Rightarrow> Logger \<Rightarrow> char list option \<Rightarrow> nat \<Rightarrow> char list option \<Rightarrow>
   char list \<Rightarrow> sockaddr_in46 \<Rightarrow> in6_addr option \<Rightarrow> u32 \<Rightarrow> bool \<Rightarrow> log_net \<Rightarrow> ((u8 + unit) \<times> log_net) option" where
  "Leelen_discovery_logger lib env logger file line func msg src dst index should_reply w =
     logevent env logger (if should_reply then level_code LOG_LEVEL_INFO else level_code LOG_LEVEL_DEBUG) file line func
       (discovery_block lib msg src dst index) w"

section \<open>Lemmas\<close>

text \<open>One frame more on the stack and one more to skip: the same backtrace.\<close>

lemma backtrace_of_macro:
  "length rest < 61 \<Longrightarrow>
   print_backtrace (a # b # frame # rest) fd 2 header w = print_backtrace (a # b # rest) fd 1 header w"
  by (simp add: print_backtrace_def Let_def numeral_eq_Suc)

text \<open>The environment of a function that logs and of the macro in its place: the function has a frame of its own.\<close>

definition frames :: "char list list \<Rightarrow> log_env \<Rightarrow> log_env" where
  "frames fs env = env\<lparr>le_frames := fs\<rparr>"

lemma frames_fields [simp]:
  "le_time (frames fs env) = le_time env" "le_frames (frames fs env) = fs" "le_pid (frames fs env) = le_pid env"
  "le_polls (frames fs env) = le_polls env" "le_input (frames fs env) = le_input env" "le_attached (frames fs env) = le_attached env"
  by (simp_all add: frames_def)

lemma begin_frames:
  "logger_stream_std_begin (frames fs env) = logger_stream_std_begin env"
  "logger_stream_std_begin_nocolor (frames fs env) = logger_stream_std_begin_nocolor env"
proof -
  show b: "logger_stream_std_begin (frames fs env) = logger_stream_std_begin env"
    by (intro ext) (unfold logger_stream_std_begin_def frames_fields, rule refl)
  show "logger_stream_std_begin_nocolor (frames fs env) = logger_stream_std_begin_nocolor env"
    by (intro ext) (unfold logger_stream_std_begin_nocolor_def b, rule refl)
qed

lemma init_frames: "LoggerEvent_init_func (frames fs env) = LoggerEvent_init_func env"
proof -
  have "(case f of StdBegin \<Rightarrow> logger_stream_std_begin | StdBeginNocolor \<Rightarrow> logger_stream_std_begin_nocolor) (frames fs env) =
      (case f of StdBegin \<Rightarrow> logger_stream_std_begin | StdBeginNocolor \<Rightarrow> logger_stream_std_begin_nocolor) env" for f
    by (cases f) (simp_all add: begin_frames)
  then show ?thesis by (intro ext) (unfold LoggerEvent_init_func_def, simp only:)
qed

lemma init_event:
  "LoggerEvent_init_func env self level file line func w = Some (n, event, w') \<Longrightarrow> ev_skip event = 0"
  by (auto simp: LoggerEvent_init_func_def Let_def split: prod.splits option.splits)

lemma exit_debug_frames: "exit_debug (frames fs env) = exit_debug env"
  by (intro ext) (unfold exit_debug_def wait_debugger_def frames_fields, rule refl)

lemma destroy_frames:
  assumes "length rest < 61" and "ev_skip event = 0"
  shows "LoggerEvent_destroy_inline (frames (a # b # frame # rest) env) (event\<lparr>ev_skip := 1\<rparr>) w =
    LoggerEvent_destroy_inline (frames (a # b # rest) env) event w"
proof -
  have e: "ev_stream (event\<lparr>ev_skip := 1\<rparr>) = ev_stream event" "ev_backtrace (event\<lparr>ev_skip := 1\<rparr>) = ev_backtrace event"
    "ev_fatal (event\<lparr>ev_skip := 1\<rparr>) = ev_fatal event" "ev_debug (event\<lparr>ev_skip := 1\<rparr>) = ev_debug event"
    "ev_exit_status (event\<lparr>ev_skip := 1\<rparr>) = ev_exit_status event" "ev_skip (event\<lparr>ev_skip := 1\<rparr>) + 1 = 2" "ev_skip event + 1 = 1"
    using assms(2) by simp_all
  show ?thesis
    unfolding LoggerEvent_destroy_inline_def LoggerEvent_destroy_func_def ev_flags_def exit_debug_frames frames_fields e
      backtrace_of_macro [OF assms(1)] ..
qed

text \<open>A block at a level above warnings that writes some texts: they are the middle of one line.\<close>

lemma logevent_line:
  assumes calm: "\<forall>i. w_ok w i" and level: "4 < level" "level \<le> 8" "Logger_would_log self level"
    and stream: "lg_formatted self ! nat level = (stream, sgr)" "ls_begin stream = Some f" "ls_end stream = None"
    and t: "t = le_time env (fst (w_now w (w_tick w)))" "length t < 55"
    and block: "\<And>event v. ev_stream event = stream \<Longrightarrow> \<forall>i. w_ok v i \<Longrightarrow>
      \<exists>v'. block event v = Some (event, v') \<and> (\<forall>i. w_ok v' i) \<and> w_sent v' = w_sent v @ map (Pair (ls_fd stream)) texts"
  shows "\<exists>w' parts. logevent env self level file line func block w = Some (Inr (), w') \<and>
    w_sent w' = w_sent w @ map (Pair (ls_fd stream)) parts \<and>
    concat parts = message_head f t file line func (lg_domain self) sgr (nat level) @ concat texts @ [CHR 0x0A]"
proof -
  have byte: "unat (word_of_int level :: u8) = nat level" "LogLevel_clamp level = level" "level_code LOG_LEVEL_WARNING < level"
    using level byte_level [of level] level_clamp [of level] by simp_all
  then have "unat (word_of_int level :: u8) < 9" using level by simp
  note begins = begin_writes [OF calm this t, of f "ls_fd stream" "lg_domain self" "file" line func sgr]
  obtain w1 parts where b: "begin_of f env (ls_fd stream) (lg_domain self) (word_of_int level) file line func (Some sgr) w =
      Some (int (length (message_head f t file line func (lg_domain self) sgr (nat level))), w1)" "w_ok w1 = w_ok w"
      "w_sent w1 = w_sent w @ map (Pair (ls_fd stream)) parts"
      "concat parts = message_head f t file line func (lg_domain self) sgr (nat level)"
    using begins unfolding byte by blast
  let ?event = "\<lparr>ev_stream = stream, ev_skip = 0, ev_exit_status = 0, ev_fatal = False, ev_backtrace = False, ev_debug = False\<rparr>"
  have init: "LoggerEvent_init_explicit env self level file line func w =
      Some (int (length (message_head f t file line func (lg_domain self) sgr (nat level))), ?event, w1)"
    using b(1) stream byte
    by (simp add: LoggerEvent_init_explicit_def LoggerEvent_init_func_def begin_of_def [symmetric] ev_flags_def)
  obtain v' where v: "block ?event w1 = Some (?event, v')" "\<forall>i. w_ok v' i"
      "w_sent v' = w_sent w1 @ map (Pair (ls_fd stream)) texts"
    using block [of ?event w1] calm b(2) by auto
  have run: "logevent env self level file line func block w =
      Some (Inr (), (step v')\<lparr>w_sent := w_sent v' @ [(ls_fd stream, [CHR 0x0A])]\<rparr>)"
    using level init v stream
    by (simp add: logevent_def LoggerEvent_destroy_inline_def ev_flags_def stream_end_def write_fd_ok)
  show ?thesis
    by (rule exI [of _ "(step v')\<lparr>w_sent := w_sent v' @ [(ls_fd stream, [CHR 0x0A])]\<rparr>"], rule exI [of _ "parts @ texts @ [[CHR 0x0A]]"])
      (simp add: run v(3) b(3,4))
qed

section \<open>Properties\<close>

text \<open>The macros do what the functions do: the level, the writes, the result and, when the message ends the program, the
  backtrace and the status. The function skips the frame of its own that the macro does not have.\<close>

theorem Logger_log_macro:
  assumes "length rest < 61"
  shows "Logger_log (frames (a # b # rest) env) self level file line func str w =
      Logger_log_func (frames (a # b # frame # rest) env) self level file line func str w"
    and "Logger_log_perror strerror errno later (frames (a # b # rest) env) self level file line func str w =
      Logger_log_perror_func strerror errno later (frames (a # b # frame # rest) env) self level file line func str w"
    and "Logger_log_va env self level file line func str w = Logger_log_va_func env self level file line func str w"
proof -
  have perror: "LoggerEvent_perror_func strerror later (event\<lparr>ev_skip := 1\<rparr>) errno True = LoggerEvent_perror_func strerror later event errno True"
    for event by (simp add: fun_eq_iff LoggerEvent_perror_func_def LoggerEvent_write_func_def LoggerEvent_puts_func_def)
  show "Logger_log (frames (a # b # rest) env) self level file line func str w =
      Logger_log_func (frames (a # b # frame # rest) env) self level file line func str w"
    unfolding Logger_log_def Logger_log_explicit_def Logger_log_func_def Logger_log_va_func_def init_frames
    by (cases "LoggerEvent_init_func env self level file line func w")
      (auto simp: LoggerEvent_log_va_func_def destroy_frames [OF assms init_event, of env self level "file" line func w, simplified] Let_def
        split: prod.splits)
  show "Logger_log_perror strerror errno later (frames (a # b # rest) env) self level file line func str w =
      Logger_log_perror_func strerror errno later (frames (a # b # frame # rest) env) self level file line func str w"
    unfolding Logger_log_perror_def Logger_log_perror_explicit_def Logger_log_perror_func_def init_frames
    by (cases "LoggerEvent_init_func env self level file line func w")
      (auto simp: LoggerEvent_log_va_func_def perror [simplified] Let_def
        destroy_frames [OF assms init_event, of env self level "file" line func w, simplified]
        split: prod.splits)
  show "Logger_log_va env self level file line func str w = Logger_log_va_func env self level file line func str w"
    by (simp add: Logger_log_va_def Logger_log_va_func_def)
qed

text \<open>A segmentation fault that is diagnosed ends the process with the status that was asked for, and with 1 when that was
  0, unless a debugger is attached.\<close>

lemma sigsegv_handler_block:
  "map_option (map_prod (map_sum id (\<lambda>_. ())) id) (sigsegv_handler env logger debug status file line func w) =
   logevent env logger (level_code LOG_LEVEL_CRITICAL) file line func
     (\<lambda>event w. let (n, w) = LoggerEvent_log_func event ''segmentation fault'' w in
        Some (event\<lparr>ev_skip := 2, ev_exit_status := sigsegv_status status, ev_fatal := True, ev_backtrace := True, ev_debug := debug\<rparr>, w)) w"
  by (cases "LoggerEvent_init_explicit env logger (level_code LOG_LEVEL_CRITICAL) file line func w")
    (auto simp: sigsegv_handler_def logevent_def Let_def split: prod.splits)

lemma destroy_status:
  assumes "ev_fatal self" and "\<not> (ev_debug self \<and> debugger_attaches env)"
  shows "fst (LoggerEvent_destroy_inline env self w) = Inl (if ev_exit_status self = 0 then 1 else ev_exit_status self)"
proof -
  have "fst (exit_debug env status (ev_debug self) v) = Some status" for status v
    using exit_debug_result [of env status "ev_debug self" v] assms(2) by simp
  then have "\<exists>v'. exit_debug env status (ev_debug self) v = (Some status, v')" for status v
    by (metis prod.collapse)
  then show ?thesis
    using assms(1)
    by (auto simp: LoggerEvent_destroy_inline_def LoggerEvent_destroy_func_def ev_flags_def Let_def case_prod_beta
        split: option.splits) (metis fst_conv option.inject option.distinct(1))+
qed

theorem diagnosed_segfault_ends:
  assumes "diagnose_sigsegv False status sg v = (0, sg', v')" and "Logger_would_log logger (level_code LOG_LEVEL_CRITICAL)"
    and "\<forall>t. length (le_time env t) < 55" and "0 \<le> status" and "status < 256"
  shows "sg_installed sg' \<and> (\<exists>w'. sigsegv_handler env logger (sg_debug sg') (sg_exit_status sg') file line func w =
    Some (Inl (if status = 0 then 1 else word_of_int status), w'))"
proof -
  have sg: "sg_installed sg'" "\<not> sg_debug sg'" "sg_exit_status sg' = (if status = 0 then 1 else status)"
    using assms(1) by (auto simp: diagnose_sigsegv_def Let_def split: prod.splits if_splits)
  have init: "\<exists>n self w'. LoggerEvent_init_func env logger 2 file line func w = Some (n, self, w')"
    by (cases "lg_formatted logger ! nat 2"; cases "ls_begin (fst (lg_formatted logger ! nat 2))")
      (use begin_defined [of "word_of_int 2" env w] assms(3) in
        \<open>auto simp: LoggerEvent_init_func_def LogLevel_clamp_def begin_of_def [symmetric] Let_def\<close>)
  then obtain n event w1 where "LoggerEvent_init_explicit env logger 2 file line func w = Some (n, event, w1)"
    by (auto simp: LoggerEvent_init_explicit_def)
  moreover have small: "uint (word_of_int status :: u8) = status"
    using assms(4,5) by (simp add: unsigned_of_int take_bit_int_eq_self)
  moreover have "sigsegv_status (sg_exit_status sg') = (if status = 0 then 1 else word_of_int status)"
    "(word_of_int status :: u8) = 0 \<Longrightarrow> status = 0"
    using assms(4,5) sg(3) small by (auto simp: sigsegv_status_def)
  ultimately show ?thesis
    using assms(2) sg(1,2)
    by (auto simp: sigsegv_handler_def Let_def case_prod_beta intro!: exI prod_eqI destroy_status [THEN trans])
qed

text \<open>A discovery message is logged as one line that names its destination and interface, its source and its text, at
  the level of information when it is answered, otherwise only for debugging.\<close>

theorem Leelen_discovery_logger_line:
  assumes "\<forall>i. w_ok w i" and "level = (if should_reply then 6 else 7)" and "Logger_would_log self level"
    and "lg_formatted self ! nat level = (stream, sgr)" and "ls_begin stream = Some f" and "ls_end stream = None"
    and "t = le_time env (fst (w_now w (w_tick w)))" and "length t < 55"
    and "dst_text lib (sa_family src) dst = Some s_dst" and "sockaddr_toa lib src SOCKADDR_STRLEN = Some s_src"
    and "index \<noteq> 0 \<longrightarrow> ifname lib index = Some name"
  shows "\<exists>w' parts. Leelen_discovery_logger lib env self file line func msg src dst index should_reply w = Some (Inr (), w') \<and>
    w_sent w' = w_sent w @ map (Pair (ls_fd stream)) parts \<and>
    concat parts = message_head f t file line func (lg_domain self) sgr (nat level) @ ''['' @ s_dst @
      (if index = 0 then [] else ''%'' @ name) @
      (if Leelen_discovery_is_advertisement msg then ''] Advertisement from '' @ s_src @ '': '' @ msg
       else ''] Who is '' @ msg @ ''? Tell '' @ s_src) @ [CHR 0x0A]"
proof -
  let ?texts = "[''['', s_dst] @ (if index = 0 then [] else [''%'', name]) @
    [if Leelen_discovery_is_advertisement msg then ''] Advertisement from '' @ s_src @ '': '' @ msg
     else ''] Who is '' @ msg @ ''? Tell '' @ s_src]"
  have level: "4 < level" "level \<le> 8" "(if should_reply then level_code LOG_LEVEL_INFO else level_code LOG_LEVEL_DEBUG) = level"
    using assms(2) by simp_all
  have block: "\<exists>v'. discovery_block lib msg src dst index event v = Some (event, v') \<and> (\<forall>i. w_ok v' i) \<and>
      w_sent v' = w_sent v @ map (Pair (ls_fd stream)) ?texts" if "ev_stream event = stream" "\<forall>i. w_ok v i" for event v
    using that assms(9-11)
    by (auto simp: discovery_block_def LoggerEvent_puts_func_def LoggerEvent_write_func_def LoggerEvent_log_func_def
        LoggerEvent_log_va_func_def write_fd_ok Let_def)
  obtain w' parts where "logevent env self level file line func (discovery_block lib msg src dst index) w = Some (Inr (), w')"
    "w_sent w' = w_sent w @ map (Pair (ls_fd stream)) parts"
    "concat parts = message_head f t file line func (lg_domain self) sgr (nat level) @ concat ?texts @ [CHR 0x0A]"
    using logevent_line [OF assms(1) level(1,2) assms(3-8) block, of "file" line func] by blast
  then show ?thesis
    unfolding Leelen_discovery_logger_def level(3) by (intro exI [of _ w'] exI [of _ parts]) auto
qed

text \<open>An interface that is gone when its name is asked for: the name is printed from memory that was never set.\<close>

lemma Leelen_discovery_logger_unset:
  assumes "Logger_would_log self (if should_reply then 6 else 7)" and "index \<noteq> 0" and "ifname lib index = None"
  shows "Leelen_discovery_logger lib env self file line func msg src dst index should_reply w = None"
  using assms
  by (cases "LoggerEvent_init_explicit env self (if should_reply then 6 else 7) file line func w")
    (auto simp: Leelen_discovery_logger_def discovery_block_def logevent_def Let_def bind_eq_None_conv split: prod.splits if_splits)

text \<open>Every option for debugging raises the level by 1, from 7 on; the one that finds 255 turns it off.\<close>

lemma debug_option_level:
  "lg_level (debug_option l) = (if unat (lg_level l) < 7 then 7 else lg_level l + 1)"
proof -
  have "word_of_int (int (unat (lg_level l)) + 1) = lg_level l + 1" by (simp add: of_int_add)
  moreover have "max (7 :: int) (int (unat (lg_level l)) + 1) = (if unat (lg_level l) < 7 then 7 else int (unat (lg_level l)) + 1)"
    by (cases "unat (lg_level l) < 7") (simp_all del: of_nat_unat)
  ultimately show ?thesis unfolding debug_option_def by (simp del: of_nat_unat)
qed

lemma debug_option_wraps: "lg_level l = 255 \<Longrightarrow> lg_level (debug_option l) = 0"
  by (simp add: debug_option_level)

end
