(* ===== verification/Oldsock.thy ===== *)
theory Oldsock
  imports Log
begin

text \<open>
  \<^verbatim>\<open>utils/old/socket.h\<close> and \<^verbatim>\<open>utils/old/socket.c\<close>: helpers for descriptors and their options, which nothing in the
  program calls any more.

  The kernel keeps the flags of every open descriptor and the options of every socket. \<open>strerror\<close> is the text that
  \<open>perror\<close> adds.
\<close>

record kernel =
  kr_flags :: "int \<Rightarrow> u32 option"
  kr_options :: "int \<times> int \<times> int \<Rightarrow> int option"

definition O_NONBLOCK :: u32 where "O_NONBLOCK = 0x800"

definition fcntl_getfl :: "int \<Rightarrow> kernel \<Rightarrow> u32" where
  "fcntl_getfl fd k = (case kr_flags k fd of None \<Rightarrow> - 1 | Some flags \<Rightarrow> flags)"

definition fcntl_setfl :: "int \<Rightarrow> u32 \<Rightarrow> kernel \<Rightarrow> kernel" where
  "fcntl_setfl fd flags k = (if kr_flags k fd = None then k else k\<lparr>kr_flags := (kr_flags k)(fd \<mapsto> flags)\<rparr>)"

definition setnonblocking :: "int \<Rightarrow> kernel \<Rightarrow> u32 \<times> kernel" where
  "setnonblocking fd k =
     (let old_option = fcntl_getfl fd k
      in (old_option, fcntl_setfl fd (or (fcntl_getfl fd k) O_NONBLOCK) k))"

text \<open>\<open>setsockopt\<close> of the system, for a value that is an \<open>int\<close>.\<close>

definition setsockopt :: "int \<Rightarrow> int \<Rightarrow> int \<Rightarrow> int \<Rightarrow> kernel \<Rightarrow> log_net \<Rightarrow> int \<times> kernel \<times> log_net" where
  "setsockopt socket level name value k w =
     (let (ok, w) = sys w in
      if ok then (0, k\<lparr>kr_options := (kr_options k)((socket, level, name) \<mapsto> value)\<rparr>, w) else (- 1, k, w))"

definition perror :: "char list \<Rightarrow> char list \<Rightarrow> log_net \<Rightarrow> log_net" where
  "perror str strerror w = snd (write_fd 2 (str @ '': '' @ strerror @ [CHR 0x0A]) w)"

definition setsockopt_i :: "int \<Rightarrow> int \<Rightarrow> int \<Rightarrow> int \<Rightarrow> kernel \<Rightarrow> log_net \<Rightarrow> int \<times> kernel \<times> log_net" where
  "setsockopt_i socket level name on k w = setsockopt socket level name on k w"

definition setsockopt_e :: "char list \<Rightarrow> int \<Rightarrow> int \<Rightarrow> int \<Rightarrow> int \<Rightarrow> kernel \<Rightarrow> log_net \<Rightarrow> int \<times> kernel \<times> log_net" where
  "setsockopt_e strerror socket level name value k w =
     (let (ret, k, w) = setsockopt socket level name value k w
      in (ret, k, if ret = 0 then w else perror ''setsockopt'' strerror w))"

definition setsockopt_ie :: "char list \<Rightarrow> int \<Rightarrow> int \<Rightarrow> int \<Rightarrow> int \<Rightarrow> kernel \<Rightarrow> log_net \<Rightarrow> int \<times> kernel \<times> log_net" where
  "setsockopt_ie strerror socket level name on k w =
     (let (ret, k, w) = setsockopt_i socket level name on k w
      in (ret, k, if ret = 0 then w else perror ''setsockopt'' strerror w))"

section \<open>Properties\<close>

text \<open>The descriptor no longer blocks and keeps its other flags, and the result lets the caller restore them; a descriptor
  that is not open is left alone.\<close>

theorem setnonblocking_flags:
  "setnonblocking fd k = (old, k') \<Longrightarrow>
   (case kr_flags k fd of
      None \<Rightarrow> old = - 1 \<and> k' = k
    | Some flags \<Rightarrow> old = flags \<and> kr_flags k' fd = Some (or flags O_NONBLOCK) \<and>
        (\<forall>g. g \<noteq> fd \<longrightarrow> kr_flags k' g = kr_flags k g) \<and> fcntl_setfl fd old k' = k)"
  by (auto simp: setnonblocking_def fcntl_getfl_def fcntl_setfl_def fun_upd_idem split: option.splits)

text \<open>An option is set, or the error is on the terminal and nothing has changed.\<close>

theorem setsockopt_ie_result:
  assumes "setsockopt_ie strerror socket level name on k w = (ret, k', w')"
  shows "ret = 0 \<and> kr_options k' = (kr_options k)((socket, level, name) \<mapsto> on) \<and> w_sent w' = w_sent w \<or>
    ret = - 1 \<and> k' = k \<and> (w_ok w (Suc (w_tick w)) \<longrightarrow> w_sent w' = w_sent w @ [(2, ''setsockopt: '' @ strerror @ [CHR 0x0A])])"
  using assms
  by (auto simp: setsockopt_ie_def setsockopt_i_def setsockopt_def sys_def perror_def write_fd_def sys_send_def Let_def
      split: if_splits prod.splits)

lemma setsockopt_e_ie: "setsockopt_e = setsockopt_ie"
  by (simp add: fun_eq_iff setsockopt_e_def setsockopt_ie_def setsockopt_i_def)

end
