(* ===== verification/Textutil.thy ===== *)
theory Textutil
  imports World
begin

text \<open>
  \<^verbatim>\<open>utils/threadname.h\<close>, \<^verbatim>\<open>utils/threadname.c\<close>, \<^verbatim>\<open>utils/old/string.h\<close> and
  \<^verbatim>\<open>utils/old/string.c\<close>: the names of threads, and strings that grow.

  A format with its arguments is the text that it gives; for \<open>astrcatprintf\<close> it is one text for each time that the
  source evaluates it, since it uses its argument list again, and \<open>None\<close> is an error of \<open>vsnprintf\<close>.
\<close>

section \<open>Names of threads\<close>

definition THREADNAME_SIZE :: nat where "THREADNAME_SIZE = 16"

definition ERANGE :: int where "ERANGE = 34"

text \<open>The results are \<open>0\<close> or the error of the system, and the name of the thread; \<open>err\<close> is an error other than the
  one for the length.\<close>

definition threadname_set :: "int \<Rightarrow> char list \<Rightarrow> char list \<Rightarrow> 'p world \<Rightarrow> int \<times> char list \<times> 'p world" where
  "threadname_set err str name w =
     (if THREADNAME_SIZE \<le> length str then (ERANGE, name, w)
      else let (ok, w) = sys w in if ok then (0, str, w) else (err, name, w))"

definition threadname_get :: "nat \<Rightarrow> char list \<Rightarrow> int \<times> char list" where
  "threadname_get n name = (if length name < n then (0, name) else (ERANGE, []))"

definition threadname_format :: "int \<Rightarrow> char list \<Rightarrow> char list \<Rightarrow> 'p world \<Rightarrow> int \<times> char list \<times> 'p world" where
  "threadname_format err str name w = threadname_set err (take (THREADNAME_SIZE - 1) str) name w"

definition threadname_append :: "int \<Rightarrow> char list \<Rightarrow> char list \<Rightarrow> 'p world \<Rightarrow> int \<times> char list \<times> 'p world" where
  "threadname_append err str name w =
     (case threadname_get THREADNAME_SIZE name of
        (res, buf) \<Rightarrow>
          if res \<noteq> 0 then (res, name, w)
          else threadname_set err (buf @ take (THREADNAME_SIZE - length buf - 1) str) name w)"

section \<open>Growing strings\<close>

text \<open>\<open>dest\<close> is the memory, of which \<open>len\<close> bytes are used; \<open>realloc\<close> keeps what fits.\<close>

definition amemcat :: "char list \<Rightarrow> nat \<Rightarrow> char list \<Rightarrow> 'p world \<Rightarrow> int \<times> char list \<times> nat \<times> 'p world" where
  "amemcat dest len bytes w =
     (let (ok, w) = sys w in
      if \<not> ok then (- 1, dest, len, w) else (0, take len dest @ bytes, len + length bytes, w))"

definition strcmp0 :: "('s \<Rightarrow> 's \<Rightarrow> int) \<Rightarrow> 's option \<Rightarrow> 's option \<Rightarrow> int" where
  "strcmp0 strcmp s1 s2 =
     (case (s1, s2) of
        (None, None) \<Rightarrow> 0
      | (Some a, Some b) \<Rightarrow> strcmp a b
      | _ \<Rightarrow> 2)"

text \<open>The loop, over the texts of its rounds; the outer \<open>None\<close>: it is still running after them. The memory
  holds the text and its NUL.\<close>

fun astrcatprintf_loop ::
  "nat \<Rightarrow> char list option list \<Rightarrow> char list \<Rightarrow> nat \<Rightarrow> 'p world \<Rightarrow> (int \<times> char list \<times> nat \<times> 'p world) option" where
  "astrcatprintf_loop bufsize [] dest len w = None"
| "astrcatprintf_loop bufsize (printed # rounds) dest len w =
     (let (ok, w) = sys w in
      if \<not> ok then Some (- 1, dest, len, w)
      else case printed of
             None \<Rightarrow> Some (- 2, dest, len, w)
           | Some str \<Rightarrow>
               let dest = take len dest @ take (bufsize - 1) str @ [NUL] in
               if length str < bufsize then Some (0, dest, len + length str, w)
               else astrcatprintf_loop (length str + 1) rounds dest len w)"

definition astrcatprintf ::
  "char list option list \<Rightarrow> char list \<Rightarrow> nat \<Rightarrow> 'p world \<Rightarrow> (int \<times> char list \<times> nat \<times> 'p world) option" where
  "astrcatprintf rounds dest len w = astrcatprintf_loop 256 rounds dest len w"

section \<open>Properties\<close>

text \<open>A name that is appended to is cut to its size; nothing else can make it fail but the system.\<close>

theorem threadname_append_cut:
  assumes "length name < THREADNAME_SIZE" and "w_ok w (w_tick w)"
  shows "threadname_append err str name w = (0, take (THREADNAME_SIZE - 1) (name @ str), step w)"
  using assms by (auto simp: threadname_append_def threadname_get_def threadname_set_def sys_def THREADNAME_SIZE_def)

text \<open>Two rounds are enough: if the second evaluation of the format gives the same text as the first, which only an argument
  list that survives its use would do, the text of any length is appended.\<close>

theorem astrcatprintf_appends:
  assumes "len \<le> length dest" and "\<forall>i. w_ok w i"
  shows "\<exists>w'. astrcatprintf [Some str, Some str] dest len w = Some (0, take len dest @ str @ [NUL], len + length str, w')"
  using assms by (simp add: astrcatprintf_def sys_def Let_def)

text \<open>The second evaluation decides: a text of 256 characters or more is replaced by whatever the used up list gives.\<close>

theorem astrcatprintf_reuses_arguments:
  assumes "len \<le> length dest" and "\<forall>i. w_ok w i" and "256 \<le> length str" and "length str' \<le> length str"
  shows "\<exists>w'. astrcatprintf [Some str, Some str'] dest len w = Some (0, take len dest @ str' @ [NUL], len + length str', w')"
  using assms by (simp add: astrcatprintf_def sys_def Let_def)

end
